(* ===== verification/Prelude.thy ===== *)
theory Prelude
  imports Main "HOL-Library.Word" "HOL-Library.List_Lexorder" "HOL-Library.Char_ord"
    "HOL-Library.Product_Lexorder" "HOL-Library.Sublist" "HOL-Library.Multiset"
    "HOL-Library.Code_Target_Numeral"
begin

text \<open>
  Shared ground of the development: names for Rust's machine integers, the collections the
  component proofs draw on, and generic lemmas on options and lists.

  Rust strings are lists of UTF-8 bytes: a HOL \<open>char\<close> is one byte, so \<open>string\<close> is the byte
  sequence of a \<open>str\<close> and offsets are byte offsets, as they are in the source.
\<close>

type_synonym u8 = "8 word"
type_synonym u16 = "16 word"
type_synonym u32 = "32 word"
type_synonym u64 = "64 word"

named_theorems rust_simps \<open>unfolding rules that evaluate the Rust standard library models\<close>
named_theorems inv_rules \<open>an operation keeps the invariant of its component\<close>
named_theorems step_rules \<open>what one step of an event loop does\<close>

section \<open>Options\<close>

text \<open>\<open>Option::filter\<close> and \<open>Option::or\<close>.\<close>

definition opt_filter :: "('a \<Rightarrow> bool) \<Rightarrow> 'a option \<Rightarrow> 'a option" where
  "opt_filter p x = (case x of None \<Rightarrow> None | Some v \<Rightarrow> (if p v then Some v else None))"

lemma opt_filter_simps [simp]:
  "opt_filter p None = None"
  "opt_filter p (Some v) = (if p v then Some v else None)"
  by (simp_all add: opt_filter_def)

lemma opt_filter_eq_Some [simp]: "opt_filter p x = Some v \<longleftrightarrow> x = Some v \<and> p v"
  by (cases x) auto

definition opt_or :: "'a option \<Rightarrow> 'a option \<Rightarrow> 'a option" where
  "opt_or x y = (case x of None \<Rightarrow> y | Some v \<Rightarrow> Some v)"

lemma opt_or_simps [simp]: "opt_or None y = y" "opt_or (Some v) y = Some v"
  by (simp_all add: opt_or_def)

definition unwrap_or :: "'a \<Rightarrow> 'a option \<Rightarrow> 'a" where
  "unwrap_or d x = (case x of None \<Rightarrow> d | Some v \<Rightarrow> v)"

lemma unwrap_or_simps [simp]: "unwrap_or d None = d" "unwrap_or d (Some v) = v"
  by (simp_all add: unwrap_or_def)

text \<open>\<open>Option::is_some_and\<close> and \<open>Option::is_none_or\<close>.\<close>

definition is_some_and :: "('a \<Rightarrow> bool) \<Rightarrow> 'a option \<Rightarrow> bool" where
  "is_some_and p x = (case x of None \<Rightarrow> False | Some v \<Rightarrow> p v)"

definition is_none_or :: "('a \<Rightarrow> bool) \<Rightarrow> 'a option \<Rightarrow> bool" where
  "is_none_or p x = (case x of None \<Rightarrow> True | Some v \<Rightarrow> p v)"

lemma is_some_and_simps [simp]: "\<not> is_some_and p None" "is_some_and p (Some v) = p v"
  by (simp_all add: is_some_and_def)

lemma is_none_or_simps [simp]: "is_none_or p None" "is_none_or p (Some v) = p v"
  by (simp_all add: is_none_or_def)

lemma opt_filter_None: "opt_filter p x = None \<longleftrightarrow> is_none_or (\<lambda>v. \<not> p v) x"
  by (cases x) auto

lemma is_some_and_iff: "is_some_and p x \<longleftrightarrow> (\<exists>v. x = Some v \<and> p v)"
  by (cases x) auto

section \<open>Lists\<close>

text \<open>\<open>slice::get\<close>: \<open>None\<close> out of range.\<close>

definition slice_get :: "'a list \<Rightarrow> nat \<Rightarrow> 'a option" where
  "slice_get xs i = (if i < length xs then Some (xs ! i) else None)"

lemma slice_get_simps [simp]:
  "slice_get [] i = None"
  "slice_get (x # xs) 0 = Some x"
  "slice_get (x # xs) (Suc i) = slice_get xs i"
  by (simp_all add: slice_get_def)

text \<open>\<open>Iterator::position\<close>.\<close>

fun position :: "('a \<Rightarrow> bool) \<Rightarrow> 'a list \<Rightarrow> nat option" where
  "position p [] = None"
| "position p (x # xs) = (if p x then Some 0 else map_option Suc (position p xs))"

lemma position_Some:
  "position p xs = Some i \<longleftrightarrow> i < length xs \<and> p (xs ! i) \<and> (\<forall>j < i. \<not> p (xs ! j))"
proof (induction xs arbitrary: i)
  case Nil
  then show ?case by simp
next
  case (Cons x xs)
  show ?case
  proof (cases "p x")
    case True
    then show ?thesis by (cases i) auto
  next
    case False
    show ?thesis
    proof (cases i)
      case 0
      with False show ?thesis by auto
    next
      case (Suc k)
      with False Cons.IH [of k] show ?thesis by (auto simp: less_Suc_eq_0_disj)
    qed
  qed
qed

lemma position_None: "position p xs = None \<longleftrightarrow> (\<forall>x \<in> set xs. \<not> p x)"
  by (induction xs) auto

text \<open>Collect the \<open>Some\<close> results of a partial map, in order: \<open>Iterator::filter_map\<close>.\<close>

definition filter_map :: "('a \<Rightarrow> 'b option) \<Rightarrow> 'a list \<Rightarrow> 'b list" where
  "filter_map f xs = List.map_filter f xs"

lemma filter_map_simps [simp]:
  "filter_map f [] = []"
  "filter_map f (x # xs) = (case f x of None \<Rightarrow> filter_map f xs | Some y \<Rightarrow> y # filter_map f xs)"
  by (simp_all add: filter_map_def map_filter_simps split: option.splits)

lemma filter_map_append [simp]: "filter_map f (xs @ ys) = filter_map f xs @ filter_map f ys"
  by (induction xs) (auto split: option.splits)

lemma set_filter_map: "set (filter_map f xs) = {y. \<exists>x \<in> set xs. f x = Some y}"
  by (induction xs) (auto split: option.splits)

lemma mset_concat_update:
  "i < length xss \<Longrightarrow>
     mset (concat (xss[i := xss ! i @ ys])) = mset (concat xss) + mset ys"
proof (induction xss arbitrary: i)
  case Nil
  then show ?case by simp
next
  case (Cons xs xss)
  then show ?case by (cases i) auto
qed

end
