(* ===== verification/Rust_Str.thy ===== *)
theory Rust_Str
  imports Prelude
begin

text \<open>
  The operations of Rust's \<open>str\<close> that the gateway uses, on UTF-8 bytes. A search for an ASCII
  character or for a whole UTF-8 sequence on the bytes is a search on the characters, because
  UTF-8 is self-synchronising; the definitions below rely on nothing else of the encoding.
\<close>

section \<open>Prefixes and trimming\<close>

definition starts_with :: "string \<Rightarrow> string \<Rightarrow> bool" where
  "starts_with s p = prefix p s"

definition ends_with :: "string \<Rightarrow> string \<Rightarrow> bool" where
  "ends_with s p = suffix p s"

fun strip_prefix :: "string \<Rightarrow> string \<Rightarrow> string option" where
  "strip_prefix [] s = Some s"
| "strip_prefix (p # ps) [] = None"
| "strip_prefix (p # ps) (c # cs) = (if p = c then strip_prefix ps cs else None)"

lemma strip_prefix_Some: "strip_prefix p s = Some r \<longleftrightarrow> s = p @ r"
  by (induction p s rule: strip_prefix.induct) auto

lemma strip_prefix_None: "strip_prefix p s = None \<longleftrightarrow> \<not> prefix p s"
  by (induction p s rule: strip_prefix.induct) auto

text \<open>The UTF-8 encodings of the characters with the Unicode property \<open>White_Space\<close>.\<close>

definition ws_seqs :: "string list" where
  "ws_seqs =
     [[CHR 0x20], [CHR 0x09], [CHR 0x0A], [CHR 0x0B], [CHR 0x0C], [CHR 0x0D],
      [CHR 0xC2, CHR 0x85], [CHR 0xC2, CHR 0xA0],
      [CHR 0xE1, CHR 0x9A, CHR 0x80],
      [CHR 0xE2, CHR 0x80, CHR 0x80], [CHR 0xE2, CHR 0x80, CHR 0x81],
      [CHR 0xE2, CHR 0x80, CHR 0x82], [CHR 0xE2, CHR 0x80, CHR 0x83],
      [CHR 0xE2, CHR 0x80, CHR 0x84], [CHR 0xE2, CHR 0x80, CHR 0x85],
      [CHR 0xE2, CHR 0x80, CHR 0x86], [CHR 0xE2, CHR 0x80, CHR 0x87],
      [CHR 0xE2, CHR 0x80, CHR 0x88], [CHR 0xE2, CHR 0x80, CHR 0x89],
      [CHR 0xE2, CHR 0x80, CHR 0x8A], [CHR 0xE2, CHR 0x80, CHR 0xA8],
      [CHR 0xE2, CHR 0x80, CHR 0xA9], [CHR 0xE2, CHR 0x80, CHR 0xAF],
      [CHR 0xE2, CHR 0x81, CHR 0x9F],
      [CHR 0xE3, CHR 0x80, CHR 0x80]]"

fun strip_any :: "string list \<Rightarrow> string \<Rightarrow> string option" where
  "strip_any [] s = None"
| "strip_any (w # ws) s = (case strip_prefix w s of Some r \<Rightarrow> Some r | None \<Rightarrow> strip_any ws s)"

lemma strip_any_Some: "strip_any ws s = Some r \<Longrightarrow> \<exists>w \<in> set ws. s = w @ r"
  by (induction ws) (auto simp: strip_prefix_Some split: option.splits)

lemma strip_any_None: "strip_any ws s = None \<longleftrightarrow> (\<forall>w \<in> set ws. \<not> prefix w s)"
  by (induction ws) (auto simp: strip_prefix_None strip_prefix_Some split: option.splits)

fun trim_start_of :: "string list \<Rightarrow> string \<Rightarrow> string" where
  "trim_start_of ws s =
     (case strip_any ws s of
        None \<Rightarrow> s
      | Some r \<Rightarrow> (if length r < length s then trim_start_of ws r else s))"

declare trim_start_of.simps [simp del]

definition trim_start :: "string \<Rightarrow> string" where
  "trim_start s = trim_start_of ws_seqs s"

definition trim_end :: "string \<Rightarrow> string" where
  "trim_end s = rev (trim_start_of (map rev ws_seqs) (rev s))"

definition trim :: "string \<Rightarrow> string" where
  "trim s = trim_end (trim_start s)"

lemmas trim_eval [rust_simps] =
  trim_def trim_start_def trim_end_def trim_start_of.simps ws_seqs_def

lemma trim_start_of_suffix: "suffix (trim_start_of ws s) s"
proof (induction ws s rule: trim_start_of.induct)
  case (1 ws s)
  show ?case
  proof (cases "strip_any ws s")
    case None
    then show ?thesis by (subst trim_start_of.simps) simp
  next
    case (Some r)
    then have "suffix r s" by (auto dest: strip_any_Some simp: suffix_def)
    with Some 1 show ?thesis
      by (subst trim_start_of.simps) (auto intro: suffix_order.trans)
  qed
qed

lemma strip_any_trim_start_of:
  assumes "[] \<notin> set ws"
  shows "strip_any ws (trim_start_of ws s) = None"
  using assms
proof (induction ws s rule: trim_start_of.induct)
  case (1 ws s)
  show ?case
  proof (cases "strip_any ws s")
    case None
    then show ?thesis by (subst trim_start_of.simps) simp
  next
    case (Some r)
    then obtain w where "w \<in> set ws" and s: "s = w @ r"
      by (auto dest: strip_any_Some)
    with "1.prems" have "length r < length s" by (cases w) auto
    with Some 1 show ?thesis by (subst trim_start_of.simps) simp
  qed
qed

lemma trim_start_of_id: "strip_any ws s = None \<Longrightarrow> trim_start_of ws s = s"
  by (subst trim_start_of.simps) simp

lemma ws_seqs_nonempty: "[] \<notin> set ws_seqs" "[] \<notin> set (map rev ws_seqs)"
  by (simp_all add: ws_seqs_def)

text \<open>
  Trimming the end cannot uncover whitespace at the start: what is left is a prefix of the
  string, and a prefix starts with a whitespace sequence only if the whole string does.
\<close>

lemma trim_end_prefix: "prefix (trim_end s) s"
  using trim_start_of_suffix [of "map rev ws_seqs" "rev s"]
  by (simp add: trim_end_def suffix_to_prefix)

lemma trim_end_idem: "trim_end (trim_end s) = trim_end s"
  by (simp only: trim_end_def rev_rev_ident
      trim_start_of_id [OF strip_any_trim_start_of [OF ws_seqs_nonempty(2)]])

lemma trim_start_trim: "trim_start (trim s) = trim s"
proof -
  have "strip_any ws_seqs (trim_start s) = None"
    by (simp add: trim_start_def strip_any_trim_start_of ws_seqs_nonempty)
  then have "\<not> prefix w (trim s)" if "w \<in> set ws_seqs" for w
    using that trim_end_prefix [of "trim_start s"] prefix_order.trans
    unfolding strip_any_None trim_def by blast
  then show ?thesis
    by (simp add: trim_start_def trim_start_of_id strip_any_None)
qed

lemma trim_idem [simp]: "trim (trim s) = trim s"
proof -
  have "trim (trim s) = trim_end (trim_start (trim s))" by (simp add: trim_def)
  also have "\<dots> = trim_end (trim s)" by (simp only: trim_start_trim)
  also have "\<dots> = trim s" by (simp add: trim_def trim_end_idem)
  finally show ?thesis .
qed

lemma trim_Nil [simp]: "trim [] = []"
  by (simp add: trim_eval)

text \<open>\<open>s.map(str::trim).filter(|s| !s.is_empty())\<close>, the gateway's test for a set field.\<close>

definition non_blank :: "string option \<Rightarrow> string option" where
  "non_blank s = opt_filter (\<lambda>s. s \<noteq> []) (map_option trim s)"

lemma non_blank_SomeD: "non_blank s = Some t \<Longrightarrow> t \<noteq> [] \<and> trim t = t"
  by (auto simp: non_blank_def)

section \<open>Splitting and searching\<close>

fun split_once :: "char \<Rightarrow> string \<Rightarrow> (string \<times> string) option" where
  "split_once d [] = None"
| "split_once d (c # cs) =
     (if c = d then Some ([], cs)
      else map_option (\<lambda>(h, t). (c # h, t)) (split_once d cs))"

lemma split_once_Some:
  "split_once d s = Some (h, t) \<longleftrightarrow> s = h @ d # t \<and> d \<notin> set h"
proof (induction s arbitrary: h)
  case Nil
  then show ?case by simp
next
  case (Cons c cs)
  show ?case
  proof (cases "c = d")
    case True
    then show ?thesis by (cases h) auto
  next
    case False
    with Cons.IH show ?thesis by (cases h) auto
  qed
qed

lemma split_once_None: "split_once d s = None \<longleftrightarrow> d \<notin> set s"
  by (induction s) auto

text \<open>\<open>str::rfind\<close>: the offset of the last occurrence.\<close>

fun rfind :: "char \<Rightarrow> string \<Rightarrow> nat option" where
  "rfind d [] = None"
| "rfind d (c # cs) =
     (case rfind d cs of Some i \<Rightarrow> Some (Suc i) | None \<Rightarrow> (if c = d then Some 0 else None))"

lemma rfind_None: "rfind d s = None \<longleftrightarrow> d \<notin> set s"
  by (induction s) (auto split: option.splits)

lemma rfind_Some:
  "rfind d s = Some i \<longleftrightarrow> i < length s \<and> s ! i = d \<and> d \<notin> set (drop (Suc i) s)"
proof (induction s arbitrary: i)
  case Nil
  then show ?case by simp
next
  case (Cons c cs)
  show ?case
  proof (cases i)
    case 0
    then show ?thesis using rfind_None [of d cs] by (cases "rfind d cs") auto
  next
    case (Suc k)
    have "d \<in> set cs" if "k < length cs" "cs ! k = d"
      using that by (auto simp: in_set_conv_nth)
    with Suc Cons.IH [of k] show ?thesis
      by (auto simp: rfind_None split: option.splits)
  qed
qed

lemma rfind_append: "d \<notin> set t \<Longrightarrow> rfind d (s @ d # t) = Some (length s)"
  by (simp add: rfind_Some nth_append)

text \<open>\<open>str::split\<close> on a character: always at least one piece.\<close>

fun str_split :: "char \<Rightarrow> string \<Rightarrow> string list" where
  "str_split d [] = [[]]"
| "str_split d (c # cs) =
     (if c = d then [] # str_split d cs
      else case str_split d cs of [] \<Rightarrow> [[c]] | p # ps \<Rightarrow> (c # p) # ps)"

lemma str_split_nonempty [simp]: "str_split d s \<noteq> []"
  by (cases s) (auto split: list.splits)

text \<open>\<open>[String]::join\<close>.\<close>

fun join_with :: "string \<Rightarrow> string list \<Rightarrow> string" where
  "join_with sep [] = []"
| "join_with sep [p] = p"
| "join_with sep (p # q # ps) = p @ sep @ join_with sep (q # ps)"

lemma join_with_Cons: "ps \<noteq> [] \<Longrightarrow> join_with sep (p # ps) = p @ sep @ join_with sep ps"
  by (cases ps) auto

lemma join_str_split: "join_with [d] (str_split d s) = s"
proof (induction s)
  case Nil
  then show ?case by simp
next
  case (Cons c cs)
  obtain p ps where ps: "str_split d cs = p # ps"
    by (cases "str_split d cs") (use str_split_nonempty in auto)
  show ?case
    using Cons ps by (cases ps) auto
qed

lemma str_split_absent: "d \<notin> set s \<Longrightarrow> str_split d s = [s]"
  by (induction s) auto

lemma str_split_append: "d \<notin> set p \<Longrightarrow> str_split d (p @ d # s) = p # str_split d s"
  by (induction p) auto

lemma str_split_pieces: "p \<in> set (str_split d s) \<Longrightarrow> d \<notin> set p"
  by (induction s arbitrary: p) (auto split: if_splits list.splits)

lemma str_split_join:
  "ps \<noteq> [] \<Longrightarrow> \<forall>p \<in> set ps. d \<notin> set p \<Longrightarrow> str_split d (join_with [d] ps) = ps"
proof (induction ps)
  case (Cons p ps)
  then show ?case
    by (cases ps) (auto simp: str_split_absent str_split_append)
qed simp

text \<open>\<open>str::replace\<close> for a non-empty pattern, left to right and without overlap.\<close>

fun replace_str :: "string \<Rightarrow> string \<Rightarrow> string \<Rightarrow> string" where
  "replace_str p r [] = []"
| "replace_str p r (c # cs) =
     (case strip_prefix p (c # cs) of
        Some t \<Rightarrow> (if length t < Suc (length cs) then r @ replace_str p r t
                   else c # replace_str p r cs)
      | None \<Rightarrow> c # replace_str p r cs)"

text \<open>\<open>str::contains\<close> for a string pattern.\<close>

fun contains_str :: "string \<Rightarrow> string \<Rightarrow> bool" where
  "contains_str p [] = (p = [])"
| "contains_str p (c # cs) = (prefix p (c # cs) \<or> contains_str p cs)"

lemma contains_str_sublist: "contains_str p s \<longleftrightarrow> sublist p s"
  by (induction s) (auto simp: sublist_Cons_right)

lemma replace_absent: "\<not> contains_str p s \<Longrightarrow> replace_str p r s = s"
  by (induction s) (auto simp: strip_prefix_None [THEN iffD2])

text \<open>
  \<open>str::split_at_checked\<close>: \<open>None\<close> past the end or inside a UTF-8 sequence (the byte at the
  offset is a continuation byte, \<open>10xxxxxx\<close>).
\<close>

definition is_char_boundary :: "string \<Rightarrow> nat \<Rightarrow> bool" where
  "is_char_boundary s i \<longleftrightarrow>
     i = length s \<or> (i < length s \<and> (of_char (s ! i) :: nat) div 64 \<noteq> 2)"

definition split_at_checked :: "nat \<Rightarrow> string \<Rightarrow> (string \<times> string) option" where
  "split_at_checked i s = (if is_char_boundary s i then Some (take i s, drop i s) else None)"

section \<open>ASCII case\<close>

definition char_code :: "char \<Rightarrow> nat" where
  "char_code c = of_char c"

definition is_upper :: "char \<Rightarrow> bool" where
  "is_upper c \<longleftrightarrow> 65 \<le> char_code c \<and> char_code c \<le> 90"

definition is_lower :: "char \<Rightarrow> bool" where
  "is_lower c \<longleftrightarrow> 97 \<le> char_code c \<and> char_code c \<le> 122"

definition is_digit :: "char \<Rightarrow> bool" where
  "is_digit c \<longleftrightarrow> 48 \<le> char_code c \<and> char_code c \<le> 57"

definition is_ascii_alphanumeric :: "char \<Rightarrow> bool" where
  "is_ascii_alphanumeric c \<longleftrightarrow> is_upper c \<or> is_lower c \<or> is_digit c"

definition ascii_lower :: "char \<Rightarrow> char" where
  "ascii_lower c = (if is_upper c then char_of (char_code c + 32) else c)"

definition to_ascii_lowercase :: "string \<Rightarrow> string" where
  "to_ascii_lowercase s = map ascii_lower s"

definition eq_ignore_ascii_case :: "string \<Rightarrow> string \<Rightarrow> bool" where
  "eq_ignore_ascii_case s t \<longleftrightarrow> to_ascii_lowercase s = to_ascii_lowercase t"

definition is_ascii_str :: "string \<Rightarrow> bool" where
  "is_ascii_str s \<longleftrightarrow> list_all (\<lambda>c. char_code c < 128) s"

text \<open>
  \<open>str::to_lowercase\<close>. The Unicode tables beyond ASCII are the argument \<open>uni\<close>.
\<close>

definition to_lowercase :: "(string \<Rightarrow> string) \<Rightarrow> string \<Rightarrow> string" where
  "to_lowercase uni s = (if is_ascii_str s then to_ascii_lowercase s else uni s)"

lemmas ascii_eval [rust_simps] =
  to_ascii_lowercase_def eq_ignore_ascii_case_def ascii_lower_def is_upper_def is_lower_def
  is_digit_def is_ascii_alphanumeric_def char_code_def is_ascii_str_def to_lowercase_def

lemma char_code_less [simp]: "char_code c < 256"
  by (simp add: char_code_def)

lemma char_code_inject: "char_code c = char_code d \<longleftrightarrow> c = d"
  by (simp add: char_code_def)

lemma char_code_char_of: "n < 256 \<Longrightarrow> char_code (char_of n) = n"
  by (simp add: char_code_def)

lemma is_upper_ascii_lower [simp]: "\<not> is_upper (ascii_lower c)"
  by (auto simp: ascii_lower_def is_upper_def char_code_char_of)

lemma ascii_lower_idem [simp]: "ascii_lower (ascii_lower c) = ascii_lower c"
  using is_upper_ascii_lower [of c] by (auto simp: ascii_lower_def [of "ascii_lower c"])

lemma to_ascii_lowercase_idem [simp]:
  "to_ascii_lowercase (to_ascii_lowercase s) = to_ascii_lowercase s"
  by (simp add: to_ascii_lowercase_def)

lemma length_to_ascii_lowercase [simp]: "length (to_ascii_lowercase s) = length s"
  by (simp add: to_ascii_lowercase_def)

end
