(* ===== verification/Rust_Num.thy ===== *)
theory Rust_Num
  imports Rust_Str
begin

text \<open>
  Rust's number parsing and printing, and IEEE 754 doubles as their 64-bit patterns: the
  conversions \<open>as f64\<close>, \<open>f64::from\<close>, \<open>as u64\<close>, \<open>is_finite\<close>, the comparison with zero and
  \<open>str::parse::<f64>\<close>. A double is never a real number here: every operation acts on the bits.
\<close>

section \<open>Unsigned integers\<close>

definition digit_val :: "char \<Rightarrow> nat" where
  "digit_val c = char_code c - 48"

fun parse_digits :: "nat \<Rightarrow> nat \<Rightarrow> string \<Rightarrow> nat option" where
  "parse_digits b acc [] = Some acc"
| "parse_digits b acc (c # cs) =
     (if is_digit c \<and> acc * 10 + digit_val c < b then parse_digits b (acc * 10 + digit_val c) cs
      else None)"

text \<open>\<open>str::parse\<close> for an unsigned type with \<open>b\<close> values: an optional \<open>+\<close>, then digits.\<close>

definition parse_uint :: "nat \<Rightarrow> string \<Rightarrow> nat option" where
  "parse_uint b s =
     (case s of
        [] \<Rightarrow> None
      | c # cs \<Rightarrow>
          (if c = CHR ''+'' then (if cs = [] then None else parse_digits b 0 cs)
           else parse_digits b 0 s))"

definition parse_u16 :: "string \<Rightarrow> u16 option" where
  "parse_u16 s = map_option word_of_nat (parse_uint (2 ^ 16) s)"

definition parse_u32 :: "string \<Rightarrow> u32 option" where
  "parse_u32 s = map_option word_of_nat (parse_uint (2 ^ 32) s)"

fun show_nat :: "nat \<Rightarrow> string" where
  "show_nat n =
     (if n < 10 then [char_of (48 + n)] else show_nat (n div 10) @ [char_of (48 + n mod 10)])"

declare show_nat.simps [simp del]

definition show_int :: "int \<Rightarrow> string" where
  "show_int i = (if i < 0 then CHR ''-'' # show_nat (nat (- i)) else show_nat (nat i))"

lemmas num_eval [rust_simps] =
  parse_u16_def parse_u32_def parse_uint_def digit_val_def show_nat.simps show_int_def

lemma parse_digits_bound: "acc < b \<Longrightarrow> parse_digits b acc s = Some n \<Longrightarrow> n < b"
  by (induction b acc s rule: parse_digits.induct) (auto split: if_splits)

lemma parse_digits_snoc:
  "parse_digits b acc (s @ [c]) =
     (case parse_digits b acc s of
        None \<Rightarrow> None
      | Some m \<Rightarrow> (if is_digit c \<and> m * 10 + digit_val c < b then Some (m * 10 + digit_val c)
                   else None))"
  by (induction b acc s rule: parse_digits.induct) auto

lemma digit_char: "n < 10 \<Longrightarrow> is_digit (char_of (48 + n)) \<and> digit_val (char_of (48 + n)) = n"
  by (simp add: is_digit_def digit_val_def char_code_char_of)

lemma show_nat_digits: "list_all is_digit (show_nat n)"
proof (induction n rule: show_nat.induct)
  case (1 n)
  then show ?case
    by (cases "n < 10") (auto simp: show_nat.simps [of n] digit_char)
qed

lemma show_nat_nonempty [simp]: "show_nat n \<noteq> []"
  by (subst show_nat.simps) simp

lemma parse_digits_show: "n < b \<Longrightarrow> parse_digits b 0 (show_nat n) = Some n"
proof (induction n rule: show_nat.induct)
  case (1 n)
  show ?case
  proof (cases "n < 10")
    case True
    with "1.prems" show ?thesis by (simp add: show_nat.simps [of n] digit_char)
  next
    case False
    with 1 have "parse_digits b 0 (show_nat (n div 10)) = Some (n div 10)" by simp
    with False "1.prems" show ?thesis
      by (simp add: show_nat.simps [of n] parse_digits_snoc digit_char)
  qed
qed

lemma show_nat_head: "show_nat n = c # cs \<Longrightarrow> is_digit c"
  using show_nat_digits [of n] by simp

lemma parse_uint_show: "n < b \<Longrightarrow> parse_uint b (show_nat n) = Some n"
proof -
  assume n: "n < b"
  obtain c cs where s: "show_nat n = c # cs" by (cases "show_nat n") auto
  then have "c \<noteq> CHR ''+''" using show_nat_head [of n c cs] by (auto simp: is_digit_def char_code_def)
  with s parse_digits_show [OF n] show ?thesis by (simp add: parse_uint_def)
qed

lemma parse_u16_show: "parse_u16 (show_nat (unat w)) = Some w"
  using parse_uint_show [of "unat w" "2 ^ 16"] unsigned_less [of w, where 'a = nat]
  by (simp add: parse_u16_def)

lemma parse_u32_show: "parse_u32 (show_nat (unat w)) = Some w"
  using parse_uint_show [of "unat w" "2 ^ 32"] unsigned_less [of w, where 'a = nat]
  by (simp add: parse_u32_def)

lemma parse_uint_nondigit:
  assumes "c \<in> set s" and "\<not> is_digit c" and "c \<noteq> CHR ''+''"
  shows "parse_uint b s = None"
proof -
  have *: "parse_digits b acc t = None" if "c \<in> set t" for acc t
    using that assms(2) by (induction b acc t rule: parse_digits.induct) auto
  show ?thesis using assms * by (auto simp: parse_uint_def split: list.splits)
qed

section \<open>Doubles as bit patterns\<close>

type_synonym f64 = "64 word"
type_synonym f32 = "32 word"

definition f64_sign :: "f64 \<Rightarrow> bool" where
  "f64_sign w \<longleftrightarrow> 2 ^ 63 \<le> unat w"

definition f64_exp :: "f64 \<Rightarrow> nat" where
  "f64_exp w = unat w div 2 ^ 52 mod 2048"

definition f64_frac :: "f64 \<Rightarrow> nat" where
  "f64_frac w = unat w mod 2 ^ 52"

definition f64_is_nan :: "f64 \<Rightarrow> bool" where
  "f64_is_nan w \<longleftrightarrow> f64_exp w = 2047 \<and> f64_frac w \<noteq> 0"

text \<open>\<open>f64::is_finite\<close>.\<close>

definition f64_is_finite :: "f64 \<Rightarrow> bool" where
  "f64_is_finite w \<longleftrightarrow> f64_exp w \<noteq> 2047"

text \<open>\<open>x > 0.0\<close>.\<close>

definition f64_gt_zero :: "f64 \<Rightarrow> bool" where
  "f64_gt_zero w \<longleftrightarrow> \<not> f64_is_nan w \<and> \<not> f64_sign w \<and> (f64_exp w \<noteq> 0 \<or> f64_frac w \<noteq> 0)"

text \<open>\<open>x.max(0.0)\<close>: a NaN gives way to the other operand.\<close>

definition f64_max_zero :: "f64 \<Rightarrow> f64" where
  "f64_max_zero w = (if f64_is_nan w \<or> f64_sign w then 0 else w)"

text \<open>Mantissa and power of two of a finite double.\<close>

definition f64_mant :: "f64 \<Rightarrow> nat" where
  "f64_mant w = (if f64_exp w = 0 then f64_frac w else 2 ^ 52 + f64_frac w)"

definition f64_pow :: "f64 \<Rightarrow> int" where
  "f64_pow w = (if f64_exp w = 0 then -1074 else int (f64_exp w) - 1075)"

text \<open>The truncated magnitude of a finite double.\<close>

definition f64_trunc :: "f64 \<Rightarrow> nat" where
  "f64_trunc w =
     (if 0 \<le> f64_pow w then f64_mant w * 2 ^ nat (f64_pow w)
      else f64_mant w div 2 ^ nat (- f64_pow w))"

text \<open>\<open>x as u64\<close>: truncates towards zero, saturates, and maps NaN to zero.\<close>

definition f64_to_u64 :: "f64 \<Rightarrow> u64" where
  "f64_to_u64 w =
     (if f64_is_nan w \<or> f64_sign w then 0
      else if \<not> f64_is_finite w \<or> 2 ^ 64 \<le> f64_trunc w then - 1
      else word_of_nat (f64_trunc w))"

subsection \<open>Rounding a ratio to the nearest double, ties to even\<close>

fun bit_len :: "nat \<Rightarrow> nat" where
  "bit_len n = (if n = 0 then 0 else Suc (bit_len (n div 2)))"

declare bit_len.simps [simp del]

text \<open>The exponent of the leading bit of \<open>n / d\<close>.\<close>

definition ratio_log :: "nat \<Rightarrow> nat \<Rightarrow> int" where
  "ratio_log n d =
     (let l = int (bit_len n) - int (bit_len d) in
      if d * 2 ^ nat l \<le> n * 2 ^ nat (- l) then l else l - 1)"

definition round_half_even :: "nat \<Rightarrow> nat \<Rightarrow> nat" where
  "round_half_even n d =
     (let q = n div d; r = n mod d in
      if 2 * r < d then q else if d < 2 * r then q + 1 else if even q then q else q + 1)"

definition f64_inf :: nat where
  "f64_inf = 2047 * 2 ^ 52"

text \<open>The bits, without the sign, of the double nearest to \<open>n / d\<close>.\<close>

definition round_ratio :: "nat \<Rightarrow> nat \<Rightarrow> nat" where
  "round_ratio n d =
     (if n = 0 then 0
      else
        let e = max (ratio_log n d - 52) (-1074);
            q = round_half_even (n * 2 ^ nat (- e)) (d * 2 ^ nat e)
        in min (nat (e + 1074) * 2 ^ 52 + q) f64_inf)"

definition f64_of_ratio :: "bool \<Rightarrow> nat \<Rightarrow> nat \<Rightarrow> f64" where
  "f64_of_ratio neg n d = word_of_nat ((if neg then 2 ^ 63 else 0) + round_ratio n d)"

text \<open>\<open>i as f64\<close> and \<open>f64::from(i)\<close> for an integer.\<close>

definition f64_of_int :: "int \<Rightarrow> f64" where
  "f64_of_int i = f64_of_ratio (i < 0) (nat \<bar>i\<bar>) 1"

text \<open>\<open>f64::from(x)\<close> for an \<open>f32\<close>: exact.\<close>

definition f64_of_f32 :: "f32 \<Rightarrow> f64" where
  "f64_of_f32 w =
     (let n = unat w; s = (if 2 ^ 31 \<le> n then 2 ^ 63 else 0);
          e = n div 2 ^ 23 mod 256; f = n mod 2 ^ 23
      in word_of_nat
           (s + (if e = 255 then 2047 * 2 ^ 52 + f * 2 ^ 29
                 else if e = 0 then round_ratio f (2 ^ 149)
                 else (e + 896) * 2 ^ 52 + f * 2 ^ 29)))"

subsection \<open>\<open>str::parse::<f64>\<close>\<close>

definition span_digits :: "string \<Rightarrow> string \<times> string" where
  "span_digits s = (takeWhile is_digit s, dropWhile is_digit s)"

fun digits_val :: "nat \<Rightarrow> string \<Rightarrow> nat" where
  "digits_val acc [] = acc"
| "digits_val acc (c # cs) = digits_val (acc * 10 + digit_val c) cs"

text \<open>An optional sign: whether it is a minus, and the rest.\<close>

definition take_sign :: "string \<Rightarrow> bool \<times> string" where
  "take_sign s =
     (case s of
        [] \<Rightarrow> (False, [])
      | c # cs \<Rightarrow> (if c = CHR ''-'' then (True, cs) else if c = CHR ''+'' then (False, cs)
                   else (False, s)))"

definition parse_exponent :: "string \<Rightarrow> int option" where
  "parse_exponent s =
     (case s of
        [] \<Rightarrow> Some 0
      | c # cs \<Rightarrow>
          (if ascii_lower c = CHR ''e'' then
             (let (neg, t) = take_sign cs in
              if t \<noteq> [] \<and> list_all is_digit t
              then Some ((if neg then -1 else 1) * int (digits_val 0 t)) else None)
           else None))"

definition parse_decimal :: "bool \<Rightarrow> string \<Rightarrow> f64 option" where
  "parse_decimal neg s =
     (let (ip, s1) = span_digits s;
          (fp, s2) = (case s1 of c # t \<Rightarrow> (if c = CHR ''.'' then span_digits t else ([], s1))
                      | [] \<Rightarrow> ([], []))
      in if ip = [] \<and> fp = [] then None
         else case parse_exponent s2 of
           None \<Rightarrow> None
         | Some x \<Rightarrow>
             (let k = x - int (length fp); n = digits_val 0 (ip @ fp)
              in Some (f64_of_ratio neg (n * 10 ^ nat k) (10 ^ nat (- k)))))"

definition parse_f64 :: "string \<Rightarrow> f64 option" where
  "parse_f64 s =
     (let (neg, t) = take_sign s; l = to_ascii_lowercase t; sb = (if neg then 2 ^ 63 else 0)
      in if l = ''inf'' \<or> l = ''infinity'' then Some (word_of_nat (sb + f64_inf))
         else if l = ''nan'' then Some (word_of_nat (sb + f64_inf + 2 ^ 51))
         else parse_decimal neg t)"

lemmas float_eval [rust_simps] =
  f64_sign_def f64_exp_def f64_frac_def f64_is_nan_def f64_is_finite_def f64_gt_zero_def
  f64_max_zero_def f64_mant_def f64_pow_def f64_trunc_def f64_to_u64_def ratio_log_def
  round_half_even_def f64_inf_def round_ratio_def f64_of_ratio_def f64_of_int_def
  f64_of_f32_def span_digits_def take_sign_def parse_exponent_def parse_decimal_def
  parse_f64_def

subsection \<open>Integers below two to the power 53 are exact\<close>

lemma bit_len_bounds: "0 < n \<Longrightarrow> 2 ^ (bit_len n - 1) \<le> n \<and> n < 2 ^ bit_len n \<and> 0 < bit_len n"
proof (induction n rule: bit_len.induct)
  case (1 n)
  show ?case
  proof (cases "n div 2 = 0")
    case True
    with "1.prems" have "n = 1" by arith
    then show ?thesis by (simp add: bit_len.simps)
  next
    case False
    with 1 have IH: "2 ^ (bit_len (n div 2) - 1) \<le> n div 2" "n div 2 < 2 ^ bit_len (n div 2)"
      "0 < bit_len (n div 2)" by auto
    then obtain k where k: "bit_len (n div 2) = Suc k" by (cases "bit_len (n div 2)") auto
    with IH have "2 ^ Suc k \<le> n" "n < 2 ^ Suc (Suc k)" by auto
    with "1.prems" k show ?thesis by (simp add: bit_len.simps [of n])
  qed
qed

lemma bit_len_unique: "2 ^ k \<le> n \<Longrightarrow> n < 2 ^ Suc k \<Longrightarrow> bit_len n = Suc k"
proof -
  assume lo: "2 ^ k \<le> n" and hi: "n < 2 ^ Suc k"
  have n: "0 < n" using lo by (auto intro: ccontr)
  have "(2::nat) ^ k < 2 ^ bit_len n" "(2::nat) ^ (bit_len n - 1) < 2 ^ Suc k"
    using lo hi bit_len_bounds [OF n] by linarith+
  then have "k < bit_len n" "bit_len n - 1 < Suc k"
    by (auto intro: power_less_imp_less_exp [of "2::nat"])
  then show ?thesis by simp
qed

lemma bit_len_1 [simp]: "bit_len (Suc 0) = Suc 0"
  using bit_len_unique [of 0 1] by simp

lemma ratio_log_int: "0 < n \<Longrightarrow> ratio_log n 1 = int (bit_len n - 1)"
proof -
  assume n: "0 < n"
  obtain k where k: "bit_len n = Suc k" using bit_len_bounds [OF n] by (cases "bit_len n") auto
  with bit_len_bounds [OF n] have "2 ^ k \<le> n" by simp
  with k show ?thesis by (simp add: ratio_log_def)
qed

text \<open>The bits of an integer with leading bit \<open>k \<le> 52\<close>: nothing is rounded away.\<close>

lemma round_ratio_exact:
  assumes lo: "2 ^ k \<le> n" and hi: "n < 2 ^ Suc k" and k: "k \<le> 52"
  shows "round_ratio n 1 = (k + 1022) * 2 ^ 52 + n * 2 ^ (52 - k)"
proof -
  have n: "0 < n" using lo by (auto intro: ccontr)
  have len: "bit_len n = Suc k" using lo hi by (rule bit_len_unique)
  have e: "max (ratio_log n 1 - 52) (-1074) = int k - 52"
    using ratio_log_int [OF n] len by simp
  have pos: "nat (- (int k - 52)) = 52 - k" "nat (int k - 52) = 0"
    "nat (int k - 52 + 1074) = k + 1022" using k by auto
  have "n * 2 ^ (52 - k) < 2 ^ Suc k * 2 ^ (52 - k)" using hi by simp
  also have "(2::nat) ^ Suc k * 2 ^ (52 - k) = 2 ^ 53"
    using k by (simp only: power_add [symmetric]) simp
  finally have q: "n * 2 ^ (52 - k) < 2 ^ 53" .
  have r: "round_half_even m 1 = m" for m by (simp add: round_half_even_def)
  have "(k + 1022) * 2 ^ 52 + n * 2 ^ (52 - k) \<le> 1074 * 2 ^ 52 + 2 ^ 53"
    using q k by (intro add_mono mult_right_mono) auto
  also have "\<dots> \<le> f64_inf" by (simp add: f64_inf_def)
  finally have "min ((k + 1022) * 2 ^ 52 + n * 2 ^ (52 - k)) f64_inf
      = (k + 1022) * 2 ^ 52 + n * 2 ^ (52 - k)" by simp
  with n e pos r show ?thesis
    by (simp add: round_ratio_def Let_def del: One_nat_def)
qed

lemma unat_word_of_nat_64: "m < 2 ^ 64 \<Longrightarrow> unat (word_of_nat m :: 64 word) = m"
  by (simp add: unat_of_nat)

lemma f64_of_nat_fields:
  assumes lo: "2 ^ k \<le> n" and hi: "n < 2 ^ Suc k" and k: "k \<le> 52"
  shows "unat (f64_of_ratio False n 1) = (k + 1023) * 2 ^ 52 + (n * 2 ^ (52 - k) - 2 ^ 52)"
    and "n * 2 ^ (52 - k) - 2 ^ 52 < 2 ^ 52"
proof -
  have "2 ^ k * 2 ^ (52 - k) \<le> n * 2 ^ (52 - k)" using lo by simp
  moreover have "n * 2 ^ (52 - k) < 2 ^ Suc k * 2 ^ (52 - k)" using hi by simp
  moreover have "(2::nat) ^ k * 2 ^ (52 - k) = 2 ^ 52" "(2::nat) ^ Suc k * 2 ^ (52 - k) = 2 ^ 53"
    using k by (simp_all only: power_add [symmetric]) simp_all
  ultimately have b: "2 ^ 52 \<le> n * 2 ^ (52 - k)" "n * 2 ^ (52 - k) < 2 ^ 53" by linarith+
  from b show "n * 2 ^ (52 - k) - 2 ^ 52 < 2 ^ 52" by simp
  have "(k + 1022) * 2 ^ 52 + n * 2 ^ (52 - k) < 1074 * 2 ^ 52 + 2 ^ 53"
    using b(2) k by (intro add_le_less_mono mult_right_mono) auto
  then have less: "(k + 1022) * 2 ^ 52 + n * 2 ^ (52 - k) < 2 ^ 64" by simp
  from unat_word_of_nat_64 [OF less]
  have "unat (f64_of_ratio False n 1) = (k + 1022) * 2 ^ 52 + n * 2 ^ (52 - k)"
    by (simp only: f64_of_ratio_def round_ratio_exact [OF assms] if_False add_0)
  with b(1) show
    "unat (f64_of_ratio False n 1) = (k + 1023) * 2 ^ 52 + (n * 2 ^ (52 - k) - 2 ^ 52)"
    by simp
qed

lemma div_mod_pack:
  fixes a b f :: nat
  assumes "f < b"
  shows "(a * b + f) div b = a" "(a * b + f) mod b = f"
  using assms by simp_all

lemma f64_of_nat_trunc:
  assumes "n < 2 ^ 53"
  shows "\<not> f64_sign (f64_of_ratio False n 1)" "f64_is_finite (f64_of_ratio False n 1)"
    "f64_trunc (f64_of_ratio False n 1) = n"
proof -
  let ?w = "f64_of_ratio False n 1"
  have "\<not> f64_sign ?w \<and> f64_is_finite ?w \<and> f64_trunc ?w = n"
  proof (cases "n = 0")
    case True
    then show ?thesis
      by (simp add: f64_of_ratio_def round_ratio_def f64_sign_def f64_is_finite_def f64_exp_def
          f64_trunc_def f64_pow_def f64_mant_def f64_frac_def)
  next
    case False
    define k where "k = bit_len n - 1"
    have b: "2 ^ k \<le> n" "n < 2 ^ Suc k"
      using bit_len_bounds [of n] False by (auto simp: k_def)
    have "(2::nat) ^ k < 2 ^ 53" using b(1) assms by simp
    then have "k < 53" by (rule power_less_imp_less_exp [of "2::nat", rotated]) simp
    then have k: "k \<le> 52" by simp
    let ?f = "n * 2 ^ (52 - k) - 2 ^ 52"
    note u = f64_of_nat_fields [OF b k]
    have exp: "f64_exp ?w = k + 1023" and frac: "f64_frac ?w = ?f"
      using k u(2) unfolding f64_exp_def f64_frac_def u(1) div_mod_pack [OF u(2)] by simp_all
    have "(2::nat) ^ k * 2 ^ (52 - k) = 2 ^ 52" using k by (simp only: power_add [symmetric]) simp
    then have ge: "2 ^ 52 \<le> n * 2 ^ (52 - k)" using b(1) by (metis mult_le_mono1)
    have pow: "f64_pow ?w = int k - 52" and mant: "f64_mant ?w = n * 2 ^ (52 - k)"
      using exp frac ge by (simp_all add: f64_pow_def f64_mant_def)
    have "f64_trunc ?w = n"
    proof (cases "k = 52")
      case True
      with pow mant show ?thesis by (simp add: f64_trunc_def)
    next
      case False
      with k have "nat (- (int k - 52)) = 52 - k" "\<not> 0 \<le> int k - 52" by auto
      with pow mant show ?thesis by (simp add: f64_trunc_def)
    qed
    moreover have "unat ?w < 2 ^ 63" using u k by simp
    ultimately show ?thesis
      using exp k by (simp add: f64_sign_def f64_is_finite_def)
  qed
  then show "\<not> f64_sign ?w" "f64_is_finite ?w" "f64_trunc ?w = n" by auto
qed

lemma f64_u64_exact: "n < 2 ^ 53 \<Longrightarrow> f64_to_u64 (f64_of_int (int n)) = word_of_nat n"
  using f64_of_nat_trunc [of n]
  by (auto simp: f64_to_u64_def f64_of_int_def f64_is_nan_def f64_is_finite_def)

subsection \<open>Every 64-bit integer converts to a finite double\<close>

lemma round_half_even_le: "round_half_even n d \<le> n div d + 1"
  by (simp add: round_half_even_def Let_def)

lemma round_ratio_int_le:
  assumes "n < 2 ^ 64"
  shows "round_ratio n 1 \<le> 1087 * 2 ^ 52"
proof (cases "n = 0")
  case True
  then show ?thesis by (simp add: round_ratio_def)
next
  case False
  then have n: "0 < n" by simp
  define k where "k = bit_len n - 1"
  have b: "2 ^ k \<le> n" "n < 2 ^ Suc k"
    using bit_len_bounds [OF n] by (auto simp: k_def)
  then have "(2::nat) ^ k < 2 ^ 64" using assms by simp
  then have "k < 64" by (rule power_less_imp_less_exp [of "2::nat", rotated]) simp
  show ?thesis
  proof (cases "k \<le> 52")
    case True
    have "n * 2 ^ (52 - k) \<le> 2 ^ Suc k * 2 ^ (52 - k)" using b(2) by simp
    also have "(2::nat) ^ Suc k * 2 ^ (52 - k) = 2 ^ 53"
      using True by (simp only: power_add [symmetric]) simp
    finally have "n * 2 ^ (52 - k) \<le> 2 ^ 53" .
    with True have "(k + 1022) * 2 ^ 52 + n * 2 ^ (52 - k) \<le> 1074 * 2 ^ 52 + 2 ^ 53"
      by (intro add_mono mult_right_mono) auto
    then show ?thesis by (simp only: round_ratio_exact [OF b True]) simp
  next
    case False
    define j where "j = k - 52"
    with False \<open>k < 64\<close> have j: "k = 52 + j" "j < 12" by auto
    have e: "max (ratio_log n 1 - 52) (-1074) = int j"
      using ratio_log_int [OF n] j k_def by simp
    have "n < 2 ^ 53 * 2 ^ j"
      using b(2) j by (simp add: power_add)
    then have "n div 2 ^ j < 2 ^ 53" by (simp add: less_mult_imp_div_less)
    then have q: "round_half_even n (2 ^ j) \<le> 2 ^ 53"
      using round_half_even_le [of n "2 ^ j"] by simp
    have "round_ratio n 1 \<le> nat (int j + 1074) * 2 ^ 52 + round_half_even n (2 ^ j)"
      using n e by (simp add: round_ratio_def Let_def del: One_nat_def)
    also have "\<dots> \<le> 1085 * 2 ^ 52 + 2 ^ 53"
      using q j by (intro add_mono mult_right_mono) auto
    finally show ?thesis by simp
  qed
qed

lemma f64_of_int_finite: "\<bar>i\<bar> < 2 ^ 64 \<Longrightarrow> f64_is_finite (f64_of_int i)"
proof -
  assume "\<bar>i\<bar> < 2 ^ 64"
  then have le: "round_ratio (nat \<bar>i\<bar>) 1 \<le> 1087 * 2 ^ 52"
    by (intro round_ratio_int_le) (simp add: nat_less_iff)
  define m where "m = round_ratio (nat \<bar>i\<bar>) 1"
  define s where "s = (if i < 0 then 2048 else 0 :: nat)"
  have w: "f64_of_int i = word_of_nat (s * 2 ^ 52 + m)"
    by (simp add: f64_of_int_def f64_of_ratio_def m_def s_def)
  have "m div 2 ^ 52 \<le> 1087" using le by (simp add: m_def div_le_mono [of _ "1087 * 2 ^ 52" "2 ^ 52", simplified])
  moreover have "s * 2 ^ 52 + m \<le> 2048 * 2 ^ 52 + 1087 * 2 ^ 52"
    using le unfolding m_def by (intro add_mono mult_right_mono) (auto simp: s_def)
  then have "s * 2 ^ 52 + m < 2 ^ 64" by simp
  then have "unat (f64_of_int i) = s * 2 ^ 52 + m" unfolding w by (rule unat_word_of_nat_64)
  moreover have "(s * 2 ^ 52 + m) div 2 ^ 52 = s + m div 2 ^ 52" by simp
  ultimately show ?thesis
    by (auto simp: f64_is_finite_def f64_exp_def s_def)
qed

subsection \<open>The sign of a converted integer\<close>

lemma round_ratio_int_ge:
  assumes n: "0 < n" and "n < 2 ^ 64"
  shows "2 ^ 52 \<le> round_ratio n 1"
proof -
  define k where "k = bit_len n - 1"
  let ?e = "max (ratio_log n 1 - 52) (-1074)"
  have e: "?e = int k - 52" using ratio_log_int [OF n] by (simp add: k_def)
  have "1 \<le> nat (?e + 1074)" unfolding e by linarith
  then have "1 * 2 ^ 52 \<le> nat (?e + 1074) * 2 ^ 52" by (rule mult_le_mono1)
  moreover have "(2::nat) ^ 52 \<le> f64_inf" by (simp add: f64_inf_def)
  ultimately show ?thesis using n by (simp add: round_ratio_def Let_def)
qed

lemma f64_gt_zero_of_int:
  assumes "\<bar>i\<bar> < 2 ^ 64"
  shows "f64_gt_zero (f64_of_int i) \<longleftrightarrow> 0 < i"
proof (cases i "0::int" rule: linorder_cases)
  case equal
  then show ?thesis by (simp add: rust_simps)
next
  case less
  define m where "m = round_ratio (nat \<bar>i\<bar>) 1"
  have "m \<le> 1087 * 2 ^ 52"
    using assms unfolding m_def by (intro round_ratio_int_le) (simp add: nat_less_iff)
  then have "2 ^ 63 + m < 2 ^ 64" by simp
  then have "unat (word_of_nat (2 ^ 63 + m) :: f64) = 2 ^ 63 + m" by (rule unat_word_of_nat_64)
  moreover have "f64_of_int i = word_of_nat (2 ^ 63 + m)"
    using less by (simp add: f64_of_int_def f64_of_ratio_def m_def)
  ultimately have "f64_sign (f64_of_int i)" by (simp add: f64_sign_def)
  with less show ?thesis by (simp add: f64_gt_zero_def)
next
  case greater
  define m where "m = round_ratio (nat \<bar>i\<bar>) 1"
  have n: "nat \<bar>i\<bar> < 2 ^ 64" "0 < nat \<bar>i\<bar>" using assms greater by (simp_all add: nat_less_iff)
  have le: "m \<le> 1087 * 2 ^ 52" and ge: "2 ^ 52 \<le> m"
    unfolding m_def by (rule round_ratio_int_le [OF n(1)]) (rule round_ratio_int_ge [OF n(2,1)])
  from le have "m < 2 ^ 64" by simp
  then have "unat (word_of_nat m :: f64) = m" by (rule unat_word_of_nat_64)
  moreover have "f64_of_int i = word_of_nat m"
    using greater by (simp add: f64_of_int_def f64_of_ratio_def m_def)
  moreover have "m div 2 ^ 52 \<le> 1087" "1 \<le> m div 2 ^ 52"
    using div_le_mono [OF le, of "2 ^ 52"] div_le_mono [OF ge, of "2 ^ 52"] by simp_all
  ultimately show ?thesis
    using le greater
    by (simp add: f64_gt_zero_def f64_sign_def f64_is_nan_def f64_exp_def)
qed

lemma f64_of_int_exact:
  "0 \<le> i \<Longrightarrow> i < 2 ^ 53 \<Longrightarrow> f64_to_u64 (f64_of_int i) = word_of_int i"
  using f64_u64_exact [of "nat i"] by (simp add: nat_less_iff)

end
