(* ===== verification/Rust_Maps.thy ===== *)
theory Rust_Maps
  imports Prelude "HOL-Library.AList"
begin

text \<open>
  \<open>BTreeMap\<close> and \<open>HashMap\<close>. A \<open>BTreeMap\<close> is the list of its entries in key order, which is also
  its iteration order; a \<open>HashMap\<close> is a list of entries with distinct keys in some order, since
  its iteration order is not specified. What the gateway relies on is stated once, as the locales
  \<open>kv_map\<close>, \<open>kv_multimap\<close>, \<open>ordered_kv_map\<close> and \<open>removable_kv_map\<close>, and the lemmas its components use are
  proved there.
\<close>

section \<open>The interface\<close>

locale kv_map =
  fixes emp :: "'m"
    and get :: "'m \<Rightarrow> 'k \<Rightarrow> 'v option"
    and put :: "'k \<Rightarrow> 'v \<Rightarrow> 'm \<Rightarrow> 'm"
    and entries :: "'m \<Rightarrow> ('k \<times> 'v) list"
    and inv :: "'m \<Rightarrow> bool"
  assumes get_emp: "get emp k = None"
    and inv_emp: "inv emp"
    and get_put: "inv m \<Longrightarrow> get (put k v m) = (get m)(k \<mapsto> v)"
    and inv_put: "inv m \<Longrightarrow> inv (put k v m)"
    and map_of_entries: "inv m \<Longrightarrow> map_of (entries m) = get m"
    and distinct_entries: "inv m \<Longrightarrow> distinct (map fst (entries m))"
begin

lemma entries_iff: "inv m \<Longrightarrow> (k, v) \<in> set (entries m) \<longleftrightarrow> get m k = Some v"
  using map_of_entries distinct_entries map_of_eq_Some_iff by metis

lemma keys_iff: "inv m \<Longrightarrow> k \<in> set (map fst (entries m)) \<longleftrightarrow> get m k \<noteq> None"
  using map_of_entries [of m] map_of_eq_None_iff [of "entries m" k] by auto

text \<open>Inserting a list of entries one by one: the last one for a key wins.\<close>

lemma inv_put_list: "inv m \<Longrightarrow> inv (fold (\<lambda>(k, v). put k v) kvs m)"
  by (induction kvs arbitrary: m) (auto simp: inv_put)

lemma get_put_list:
  "inv m \<Longrightarrow> get (fold (\<lambda>(k, v). put k v) kvs m) = get m ++ map_of (rev kvs)"
proof (induction kvs arbitrary: m)
  case Nil
  then show ?case by simp
next
  case (Cons kv kvs)
  obtain k v where kv: "kv = (k, v)" by (cases kv)
  have "get (fold (\<lambda>(k, v). put k v) (kv # kvs) m) = get (put k v m) ++ map_of (rev kvs)"
    using Cons.IH [OF inv_put [OF Cons.prems]] by (simp add: kv)
  then show ?case
    using Cons.prems by (simp add: kv get_put fun_eq_iff map_add_def split: option.splits)
qed

end

text \<open>A map to lists, filled by appending to the list stored under a key.\<close>

locale kv_multimap = kv_map emp get put entries inv
  for emp :: "'m"
    and get :: "'m \<Rightarrow> 'k \<Rightarrow> 'v list option"
    and put :: "'k \<Rightarrow> 'v list \<Rightarrow> 'm \<Rightarrow> 'm"
    and entries :: "'m \<Rightarrow> ('k \<times> 'v list) list"
    and inv :: "'m \<Rightarrow> bool"
begin

text \<open>
  Grouping: every item is appended to the list stored under its key. A group holds exactly the
  items with that key, in their order, and there is no empty group.
\<close>

lemma inv_group:
  "inv m \<Longrightarrow>
     inv (fold (\<lambda>x m. put (key x) ((case get m (key x) of None \<Rightarrow> [] | Some ys \<Rightarrow> ys) @ [val x]) m)
       xs m)"
  by (induction xs arbitrary: m) (auto simp: inv_put)

lemma get_group:
  assumes "inv m"
  shows "get (fold (\<lambda>x m. put (key x)
             ((case get m (key x) of None \<Rightarrow> [] | Some ys \<Rightarrow> ys) @ [val x]) m) xs m) k =
         (case (get m k, map val (filter (\<lambda>x. key x = k) xs)) of
            (None, []) \<Rightarrow> None
          | (None, zs) \<Rightarrow> Some zs
          | (Some ys, zs) \<Rightarrow> Some (ys @ zs))"
  using assms
proof (induction xs arbitrary: m)
  case Nil
  then show ?case by (simp split: option.splits)
next
  case (Cons x xs)
  let ?m = "put (key x) ((case get m (key x) of None \<Rightarrow> [] | Some ys \<Rightarrow> ys) @ [val x]) m"
  have "inv ?m" using Cons.prems by (rule inv_put)
  from Cons.IH [OF this] Cons.prems show ?case
    by (auto simp: get_put split: option.splits list.splits)
qed

lemma get_group_emp:
  "get (fold (\<lambda>x m. put (key x) ((case get m (key x) of None \<Rightarrow> [] | Some ys \<Rightarrow> ys) @ [val x]) m)
       xs emp) k =
     (if filter (\<lambda>x. key x = k) xs = [] then None
      else Some (map val (filter (\<lambda>x. key x = k) xs)))"
  by (subst get_group [OF inv_emp]) (auto simp: get_emp filter_empty_conv split: list.splits)

end

text \<open>A map that iterates in key order, so it is determined by its contents.\<close>

locale ordered_kv_map = kv_map emp get put entries inv
  for emp :: "'m"
    and get :: "'m \<Rightarrow> 'k::linorder \<Rightarrow> 'v option"
    and put :: "'k \<Rightarrow> 'v \<Rightarrow> 'm \<Rightarrow> 'm"
    and entries :: "'m \<Rightarrow> ('k \<times> 'v) list"
    and inv :: "'m \<Rightarrow> bool" +
  assumes sorted_entries: "inv m \<Longrightarrow> sorted_wrt (<) (map fst (entries m))"
begin

lemma entries_ext: "inv m \<Longrightarrow> inv m' \<Longrightarrow> get m = get m' \<Longrightarrow> entries m = entries m'"
proof -
  assume m: "inv m" "inv m'" and eq: "get m = get m'"
  have "set (entries m) = set (entries m')"
    using entries_iff [OF m(1)] entries_iff [OF m(2)] eq by auto
  moreover from this have "inj_on fst (set (entries m) \<union> set (entries m'))"
    using distinct_entries [OF m(1)] by (simp add: distinct_map)
  moreover have "sorted (map fst (entries m))" "sorted (map fst (entries m'))"
    using sorted_entries m by (auto intro: strict_sorted_imp_sorted)
  ultimately show ?thesis
    using distinct_entries m by (intro map_sorted_distinct_set_unique [of fst]) auto
qed

end

text \<open>A map with removal.\<close>

locale removable_kv_map = kv_map emp get put entries inv
  for emp :: "'m"
    and get :: "'m \<Rightarrow> 'k \<Rightarrow> 'v option"
    and put :: "'k \<Rightarrow> 'v \<Rightarrow> 'm \<Rightarrow> 'm"
    and entries :: "'m \<Rightarrow> ('k \<times> 'v) list"
    and inv :: "'m \<Rightarrow> bool" +
  fixes del :: "'k \<Rightarrow> 'm \<Rightarrow> 'm"
  assumes get_del: "inv m \<Longrightarrow> get (del k m) = (get m)(k := None)"
    and inv_del: "inv m \<Longrightarrow> inv (del k m)"
begin

lemma inv_del_list: "inv m \<Longrightarrow> inv (fold del ks m)"
  by (induction ks arbitrary: m) (auto simp: inv_del)

lemma get_del_list: "inv m \<Longrightarrow> get (fold del ks m) = get m |` (- set ks)"
proof (induction ks arbitrary: m)
  case Nil
  then show ?case by (simp add: restrict_map_def fun_eq_iff)
next
  case (Cons k ks)
  from Cons.IH [OF inv_del [OF Cons.prems]] Cons.prems show ?case
    by (auto simp: get_del restrict_map_def fun_eq_iff)
qed

end

section \<open>\<open>BTreeMap\<close>\<close>

type_synonym ('k, 'v) btree = "('k \<times> 'v) list"

definition bt_inv :: "('k::linorder, 'v) btree \<Rightarrow> bool" where
  "bt_inv m \<longleftrightarrow> sorted_wrt (<) (map fst m)"

definition bt_get :: "('k, 'v) btree \<Rightarrow> 'k \<Rightarrow> 'v option" where
  "bt_get m k = map_of m k"

fun bt_insert :: "'k::linorder \<Rightarrow> 'v \<Rightarrow> ('k, 'v) btree \<Rightarrow> ('k, 'v) btree" where
  "bt_insert k v [] = [(k, v)]"
| "bt_insert k v ((k', v') # m) =
     (if k < k' then (k, v) # (k', v') # m
      else if k = k' then (k, v) # m
      else (k', v') # bt_insert k v m)"

text \<open>\<open>entry(k).or_insert_with(|| v)\<close>.\<close>

definition bt_or_insert :: "'k::linorder \<Rightarrow> 'v \<Rightarrow> ('k, 'v) btree \<Rightarrow> ('k, 'v) btree" where
  "bt_or_insert k v m = (case bt_get m k of None \<Rightarrow> bt_insert k v m | Some _ \<Rightarrow> m)"

text \<open>\<open>entry(k).or_default().push(v)\<close>.\<close>

definition bt_push :: "'k::linorder \<Rightarrow> 'v \<Rightarrow> ('k, 'v list) btree \<Rightarrow> ('k, 'v list) btree" where
  "bt_push k v m = bt_insert k ((case bt_get m k of None \<Rightarrow> [] | Some ys \<Rightarrow> ys) @ [v]) m"

lemma bt_get_simps [simp]:
  "bt_get [] k = None"
  "bt_get ((k', v) # m) k = (if k = k' then Some v else bt_get m k)"
  by (simp_all add: bt_get_def)

lemma bt_insert_keys: "fst ` set (bt_insert k v m) = insert k (fst ` set m)"
  by (induction k v m rule: bt_insert.induct) auto

lemma bt_inv_Cons: "bt_inv ((k, v) # m) \<longleftrightarrow> (\<forall>k' \<in> fst ` set m. k < k') \<and> bt_inv m"
  by (auto simp: bt_inv_def)

lemma bt_insert_sorted: "bt_inv m \<Longrightarrow> bt_inv (bt_insert k v m)"
  by (induction k v m rule: bt_insert.induct) (auto simp: bt_inv_Cons bt_insert_keys)

lemma bt_insert_lookup: "map_of (bt_insert k v m) = (map_of m)(k \<mapsto> v)"
  by (induction k v m rule: bt_insert.induct) (auto simp: fun_eq_iff)

interpretation bt: ordered_kv_map "[]" bt_get bt_insert "\<lambda>m. m" bt_inv
proof (unfold_locales, goal_cases)
  case (1 k)
  show ?case by simp
next
  case 2
  show ?case by (simp add: bt_inv_def)
next
  case (3 m k v)
  show ?case by (simp add: bt_get_def bt_insert_lookup fun_eq_iff)
next
  case (4 m k v)
  then show ?case by (rule bt_insert_sorted)
next
  case (5 m)
  show ?case by (simp add: bt_get_def fun_eq_iff)
next
  case (6 m)
  then show ?case by (auto simp: bt_inv_def strict_sorted_iff)
next
  case (7 m)
  then show ?case by (simp add: bt_inv_def)
qed

interpretation btg: kv_multimap "[]" bt_get bt_insert "\<lambda>m. m" bt_inv
  by (rule kv_multimap.intro) (rule bt.kv_map_axioms)

lemma bt_get_insert [simp]: "bt_get (bt_insert k v m) k' = (if k' = k then Some v else bt_get m k')"
  by (simp add: bt_get_def bt_insert_lookup)

lemma bt_get_or_insert [simp]:
  "bt_get (bt_or_insert k v m) k' = (if k' = k then Some (unwrap_or v (bt_get m k)) else bt_get m k')"
  by (auto simp: bt_or_insert_def split: option.splits)

lemma bt_inv_or_insert [inv_rules]: "bt_inv m \<Longrightarrow> bt_inv (bt_or_insert k v m)"
  by (auto simp: bt_or_insert_def bt_insert_sorted split: option.splits)

lemma bt_inv_push [inv_rules]: "bt_inv m \<Longrightarrow> bt_inv (bt_push k v m)"
  by (simp add: bt_push_def bt_insert_sorted)

lemmas bt_inv_rules [inv_rules] = bt.inv_emp bt_insert_sorted

lemma bt_push_groups:
  "fold (\<lambda>x. bt_push (key x) (val x)) xs =
   fold (\<lambda>x m. bt_insert (key x)
     ((case bt_get m (key x) of None \<Rightarrow> [] | Some ys \<Rightarrow> ys) @ [val x]) m) xs"
  by (rule arg_cong [where f = "\<lambda>f. fold f xs"]) (simp add: bt_push_def fun_eq_iff)

section \<open>\<open>HashMap\<close>\<close>

type_synonym ('k, 'v) hmap = "('k \<times> 'v) list"

definition hm_inv :: "('k, 'v) hmap \<Rightarrow> bool" where
  "hm_inv m \<longleftrightarrow> distinct (map fst m)"

definition hm_get :: "('k, 'v) hmap \<Rightarrow> 'k \<Rightarrow> 'v option" where
  "hm_get m k = map_of m k"

definition hm_insert :: "'k \<Rightarrow> 'v \<Rightarrow> ('k, 'v) hmap \<Rightarrow> ('k, 'v) hmap" where
  "hm_insert k v m = AList.update k v m"

definition hm_remove :: "'k \<Rightarrow> ('k, 'v) hmap \<Rightarrow> ('k, 'v) hmap" where
  "hm_remove k m = AList.delete k m"

lemma hm_get_simps [simp]:
  "hm_get [] k = None"
  "hm_get ((k', v) # m) k = (if k = k' then Some v else hm_get m k)"
  by (simp_all add: hm_get_def)

interpretation hm: removable_kv_map "[]" hm_get hm_insert "\<lambda>m. m" hm_inv hm_remove
proof (unfold_locales, goal_cases)
  case (1 k)
  show ?case by simp
next
  case 2
  show ?case by (simp add: hm_inv_def)
next
  case (3 m k v)
  show ?case by (simp add: hm_get_def hm_insert_def update_conv' fun_eq_iff)
next
  case (4 m k v)
  then show ?case by (simp add: hm_inv_def hm_insert_def distinct_update)
next
  case (5 m)
  show ?case by (simp add: hm_get_def fun_eq_iff)
next
  case (6 m)
  then show ?case by (simp add: hm_inv_def)
next
  case (7 m k)
  show ?case by (simp add: hm_get_def hm_remove_def delete_conv' fun_eq_iff)
next
  case (8 m k)
  then show ?case by (simp add: hm_inv_def hm_remove_def distinct_delete)
qed

lemma hm_get_insert [simp]: "hm_get (hm_insert k v m) k' = (if k' = k then Some v else hm_get m k')"
  by (simp add: hm_get_def hm_insert_def update_conv')

lemma hm_get_remove [simp]: "hm_get (hm_remove k m) k' = (if k' = k then None else hm_get m k')"
  by (simp add: hm_get_def hm_remove_def delete_conv')

lemma hm_keys_insert: "fst ` set (hm_insert k v m) = insert k (fst ` set m)"
  by (simp add: hm_insert_def dom_update)

lemmas hm_inv_rules [inv_rules] = hm.inv_emp hm.inv_put hm.inv_del hm.inv_del_list

lemma fst_memI: "(a, b) \<in> A \<Longrightarrow> a \<in> fst ` A"
  by force

lemma hm_insert_entries:
  "it \<in> set (hm_insert k v m) \<Longrightarrow> it = (k, v) \<or> it \<in> set m"
  by (induction m) (auto simp: hm_insert_def split: if_splits)

lemma hm_remove_entries: "it \<in> set (hm_remove k m) \<Longrightarrow> it \<in> set m \<and> fst it \<noteq> k"
  by (cases it) (auto simp: hm_remove_def AList.delete_eq)

lemma hm_get_entries: "hm_get m k = Some v \<Longrightarrow> (k, v) \<in> set m"
  by (simp add: hm_get_def map_of_SomeD)

lemma hm_remove_absent: "hm_get m i = None \<Longrightarrow> hm_remove i m = m"
  by (simp add: hm_get_def hm_remove_def map_of_eq_None_iff)

lemma hm_insert_same: "hm_get m i = Some v \<Longrightarrow> hm_insert i v m = m"
  by (induction m) (auto simp: hm_insert_def split: if_splits)

end
