(* ===== verification/Json.thy ===== *)
theory Json
  imports Rust_Num Rust_Maps
begin

text \<open>
  \<open>serde_json::Value\<close> and the serde attributes of the repository's structs. An object is the list
  of its members: for a parsed document in document order, for a \<open>Value\<close> in key order
  (\<open>serde_json\<close> is built without \<open>preserve_order\<close>, so \<open>Map\<close> is a \<open>BTreeMap\<close>). Reading a struct
  fails, as a value \<open>None\<close>, exactly where the derived \<open>Deserialize\<close> does: a known key given
  twice, a value of the wrong type, a number out of range, an array with too many elements.
\<close>

section \<open>Values\<close>

datatype json_num = PosInt u64 | NegInt u64 | Flt f64

datatype json =
    JNull
  | JBool bool
  | JNum json_num
  | JStr string
  | JArr "json list"
  | JObj "(string \<times> json) list"

fun as_str :: "json \<Rightarrow> string option" where
  "as_str (JStr s) = Some s"
| "as_str _ = None"

fun as_bool :: "json \<Rightarrow> bool option" where
  "as_bool (JBool b) = Some b"
| "as_bool _ = None"

fun as_array :: "json \<Rightarrow> json list option" where
  "as_array (JArr xs) = Some xs"
| "as_array _ = None"

fun as_object :: "json \<Rightarrow> (string \<times> json) list option" where
  "as_object (JObj m) = Some m"
| "as_object _ = None"

text \<open>\<open>Value::get\<close> with a string index.\<close>

fun jget :: "string \<Rightarrow> json \<Rightarrow> json option" where
  "jget k (JObj m) = bt_get m k"
| "jget k _ = None"

definition jget_str :: "string \<Rightarrow> json \<Rightarrow> string option" where
  "jget_str k v = Option.bind (jget k v) as_str"

text \<open>\<open>Number::from_f64\<close>.\<close>

definition num_from_f64 :: "f64 \<Rightarrow> json_num option" where
  "num_from_f64 x = (if f64_is_finite x then Some (Flt x) else None)"

text \<open>\<open>json!({..})\<close>: an object built from literal members, later ones replacing earlier ones.\<close>

definition json_object :: "(string \<times> json) list \<Rightarrow> json" where
  "json_object kvs = JObj (fold (\<lambda>(k, v). bt_insert k v) kvs [])"

lemma jget_json_object: "jget k (json_object kvs) = map_of (rev kvs) k"
  using bt.get_put_list [OF bt.inv_emp, of kvs]
  by (simp add: json_object_def fun_eq_iff map_add_def split: option.splits)

section \<open>Reading structs\<close>

type_synonym 'a de = "json \<Rightarrow> 'a option"

fun de_string :: "string de" where
  "de_string (JStr s) = Some s"
| "de_string _ = None"

fun de_bool :: "bool de" where
  "de_bool (JBool b) = Some b"
| "de_bool _ = None"

fun de_f64 :: "f64 de" where
  "de_f64 (JNum (PosInt n)) = Some (f64_of_int (uint n))"
| "de_f64 (JNum (NegInt n)) = Some (f64_of_int (sint n))"
| "de_f64 (JNum (Flt x)) = Some x"
| "de_f64 _ = None"

fun de_u64 :: "u64 de" where
  "de_u64 (JNum (PosInt n)) = Some n"
| "de_u64 _ = None"

fun de_u32 :: "u32 de" where
  "de_u32 (JNum (PosInt n)) = (if unat n < 2 ^ 32 then Some (ucast n) else None)"
| "de_u32 _ = None"

definition de_value :: "json de" where
  "de_value v = Some v"

fun de_all :: "'a de \<Rightarrow> json list \<Rightarrow> 'a list option" where
  "de_all d [] = Some []"
| "de_all d (v # vs) =
     (case d v of None \<Rightarrow> None | Some x \<Rightarrow> map_option (\<lambda>xs. x # xs) (de_all d vs))"

fun de_vec :: "'a de \<Rightarrow> 'a list de" where
  "de_vec d (JArr vs) = de_all d vs"
| "de_vec d _ = None"

definition de_option :: "'a de \<Rightarrow> 'a option de" where
  "de_option d v = (if v = JNull then Some None else map_option Some (d v))"

text \<open>
  \<open>fields_of ns v\<close> are the values of the struct fields \<open>ns\<close> in order: by name from an object
  (unknown members are ignored), by position from an array.
\<close>

fun fields_of :: "string list \<Rightarrow> json \<Rightarrow> json option list option" where
  "fields_of ns (JObj m) =
     (if distinct (filter (\<lambda>k. k \<in> set ns) (map fst m)) then Some (map (map_of m) ns) else None)"
| "fields_of ns (JArr vs) =
     (if length vs \<le> length ns
      then Some (map Some vs @ replicate (length ns - length vs) None) else None)"
| "fields_of ns _ = None"

lemma fields_of_length: "fields_of ns v = Some fs \<Longrightarrow> length fs = length ns"
  by (cases v) (auto split: if_splits)

text \<open>\<open>#[serde(default)]\<close>: the default value where the key is absent.\<close>

definition de_field :: "'a \<Rightarrow> 'a de \<Rightarrow> json option \<Rightarrow> 'a option" where
  "de_field dflt d f = (case f of None \<Rightarrow> Some dflt | Some v \<Rightarrow> d v)"

lemma de_field_simps [simp]:
  "de_field dflt d None = Some dflt"
  "de_field dflt d (Some v) = d v"
  by (simp_all add: de_field_def)

text \<open>An \<open>Option\<close> field with \<open>#[serde(default)]\<close>.\<close>

definition de_opt_field :: "'a de \<Rightarrow> json option \<Rightarrow> 'a option option" where
  "de_opt_field d = de_field None (de_option d)"

lemma de_opt_field_simps [simp]:
  "de_opt_field d None = Some None"
  "de_opt_field d (Some JNull) = Some None"
  by (simp_all add: de_opt_field_def de_option_def)

lemma de_vec_null [simp]: "de_vec d JNull = None"
  by simp

lemma de_all_length: "de_all d vs = Some xs \<Longrightarrow> length xs = length vs"
  by (induction vs arbitrary: xs) (auto split: option.splits)

end
