(* ===== verification/Device_Model.thy ===== *)
theory Device_Model
  imports Json "HOL-Library.Monad_Syntax"
begin

text \<open>
  The \<open>c8y_OpcuaDeviceType\<close> model of \<open>crates/mapping/src/model.rs\<close>: its structs as records, what
  their serde attributes accept, and the derived readings of subscription parameters and names.
\<close>

section \<open>Structs\<close>

record measurement_creation =
  mc_type :: "string option"
  mc_series :: "string option"
  mc_fragment_name :: "string option"
  mc_unit :: "string option"
  mc_static_fragments :: "string list option"

record event_creation =
  ec_type :: "string option"
  ec_text :: "string option"
  ec_static_fragments :: "string list option"

record alarm_creation =
  ac_type :: "string option"
  ac_text :: "string option"
  ac_severity :: "string option"
  ac_static_fragments :: "string list option"

record mapping_entry =
  me_name :: "string option"
  me_browse_path :: "string list"
  me_referenced_node_id :: "string option"
  me_measurement_creation :: "measurement_creation option"
  me_event_creation :: "event_creation option"
  me_alarm_creation :: "alarm_creation option"
  me_custom_action :: "json option"

record apply_constraints =
  cn_matches_server_ids :: "string list"
  cn_matches_node_ids :: "string list"
  cn_server_object_has_fragment :: "string option"
  cn_browse_path_matches_regex :: "string option"
  cn_server_has_node_with_values :: "json option"

record cyclic_read_params =
  cr_rate :: "u64 option"
  cr_max_age :: "f64 option"

record subscription_params =
  sp_sampling_rate :: "f64 option"
  sp_queue_size :: "u32 option"
  sp_deadband_type :: "string option"
  sp_deadband_value :: "f64 option"
  sp_ranges :: "string option"
  sp_data_change_trigger :: "string option"
  sp_discard_oldest :: "bool option"

text \<open>\<open>SubscriptionParameters::default()\<close>.\<close>

definition sp_default :: subscription_params where
  "sp_default =
     \<lparr>sp_sampling_rate = None, sp_queue_size = None, sp_deadband_type = None,
      sp_deadband_value = None, sp_ranges = None, sp_data_change_trigger = None,
      sp_discard_oldest = None\<rparr>"

record subscription_type =
  st_type :: "string option"
  st_cyclic_read_parameters :: "cyclic_read_params option"
  st_subscription_parameters :: "subscription_params option"

record overridden_subscription =
  os_browse_path :: "string list"
  os_subscription_type :: "subscription_type option"

record device_type =
  dt_name :: string
  dt_description :: "string option"
  dt_enabled :: bool
  dt_mappings :: "mapping_entry list"
  dt_apply_constraints :: "apply_constraints option"
  dt_subscription_type :: "subscription_type option"
  dt_overridden_subscriptions :: "overridden_subscription list"
  dt_referenced_root_node_id :: "string option"
  dt_referenced_namespace_table :: "string list"
  dt_referenced_server_id :: "string option"
  dt_referenced_server_name :: "string option"
  dt_ua_event_mappings :: "json option"

record managed_object =
  mo_id :: string
  mo_name :: "string option"
  mo_last_updated :: "string option"
  mo_device_type :: "device_type option"
  mo_fragments :: "(string \<times> json) list"

record statistics =
  stat_total_pages :: "u32 option"
  stat_current_page :: "u32 option"
  stat_page_size :: "u32 option"

record managed_object_page =
  pg_managed_objects :: "json list"
  pg_statistics :: "statistics option"

definition device_type_mo_type :: string where
  "device_type_mo_type = ''c8y_OpcuaDeviceType''"

definition device_type_fragment :: string where
  "device_type_fragment = ''com_cumulocity_opcua_common_model_mapping_DeviceType''"

section \<open>Deserialization\<close>

definition null_as_default :: "'a \<Rightarrow> 'a de \<Rightarrow> 'a de" where
  "null_as_default dflt d v = map_option (unwrap_or dflt) (de_option d v)"

definition null_as_true :: "bool de" where
  "null_as_true v = map_option (unwrap_or True) (de_option de_bool v)"

definition de_list_field :: "'a de \<Rightarrow> json option \<Rightarrow> 'a list option" where
  "de_list_field d = de_field [] (null_as_default [] (de_vec d))"

definition de_measurement_creation :: "measurement_creation de" where
  "de_measurement_creation v =
     (case fields_of [''type'', ''series'', ''fragmentName'', ''unit'', ''staticFragments''] v of
        Some [f1, f2, f3, f4, f5] \<Rightarrow>
          do { t \<leftarrow> de_opt_field de_string f1;
               s \<leftarrow> de_opt_field de_string f2;
               n \<leftarrow> de_opt_field de_string f3;
               u \<leftarrow> de_opt_field de_string f4;
               fs \<leftarrow> de_opt_field (de_vec de_string) f5;
               Some \<lparr>mc_type = t, mc_series = s, mc_fragment_name = n, mc_unit = u,
                     mc_static_fragments = fs\<rparr> }
      | _ \<Rightarrow> None)"

definition de_event_creation :: "event_creation de" where
  "de_event_creation v =
     (case fields_of [''type'', ''text'', ''staticFragments''] v of
        Some [f1, f2, f3] \<Rightarrow>
          do { t \<leftarrow> de_opt_field de_string f1;
               x \<leftarrow> de_opt_field de_string f2;
               fs \<leftarrow> de_opt_field (de_vec de_string) f3;
               Some \<lparr>ec_type = t, ec_text = x, ec_static_fragments = fs\<rparr> }
      | _ \<Rightarrow> None)"

definition de_alarm_creation :: "alarm_creation de" where
  "de_alarm_creation v =
     (case fields_of [''type'', ''text'', ''severity'', ''staticFragments''] v of
        Some [f1, f2, f3, f4] \<Rightarrow>
          do { t \<leftarrow> de_opt_field de_string f1;
               x \<leftarrow> de_opt_field de_string f2;
               s \<leftarrow> de_opt_field de_string f3;
               fs \<leftarrow> de_opt_field (de_vec de_string) f4;
               Some \<lparr>ac_type = t, ac_text = x, ac_severity = s, ac_static_fragments = fs\<rparr> }
      | _ \<Rightarrow> None)"

definition de_mapping_entry :: "mapping_entry de" where
  "de_mapping_entry v =
     (case fields_of [''name'', ''browsePath'', ''referencedNodeId'', ''measurementCreation'',
              ''eventCreation'', ''alarmCreation'', ''customAction''] v of
        Some [f1, f2, f3, f4, f5, f6, f7] \<Rightarrow>
          do { n \<leftarrow> de_opt_field de_string f1;
               p \<leftarrow> de_list_field de_string f2;
               r \<leftarrow> de_opt_field de_string f3;
               m \<leftarrow> de_opt_field de_measurement_creation f4;
               e \<leftarrow> de_opt_field de_event_creation f5;
               a \<leftarrow> de_opt_field de_alarm_creation f6;
               c \<leftarrow> de_opt_field de_value f7;
               Some \<lparr>me_name = n, me_browse_path = p, me_referenced_node_id = r,
                     me_measurement_creation = m, me_event_creation = e,
                     me_alarm_creation = a, me_custom_action = c\<rparr> }
      | _ \<Rightarrow> None)"

definition de_apply_constraints :: "apply_constraints de" where
  "de_apply_constraints v =
     (case fields_of [''matchesServerIds'', ''matchesNodeIds'', ''serverObjectHasFragment'',
              ''browsePathMatchesRegex'', ''serverHasNodeWithValues''] v of
        Some [f1, f2, f3, f4, f5] \<Rightarrow>
          do { s \<leftarrow> de_list_field de_string f1;
               n \<leftarrow> de_list_field de_string f2;
               fr \<leftarrow> de_opt_field de_string f3;
               rx \<leftarrow> de_opt_field de_string f4;
               nv \<leftarrow> de_opt_field de_value f5;
               Some \<lparr>cn_matches_server_ids = s, cn_matches_node_ids = n,
                     cn_server_object_has_fragment = fr, cn_browse_path_matches_regex = rx,
                     cn_server_has_node_with_values = nv\<rparr> }
      | _ \<Rightarrow> None)"

definition de_cyclic_read_params :: "cyclic_read_params de" where
  "de_cyclic_read_params v =
     (case fields_of [''rate'', ''maxAge''] v of
        Some [f1, f2] \<Rightarrow>
          do { r \<leftarrow> de_opt_field de_u64 f1;
               a \<leftarrow> de_opt_field de_f64 f2;
               Some \<lparr>cr_rate = r, cr_max_age = a\<rparr> }
      | _ \<Rightarrow> None)"

definition de_subscription_params :: "subscription_params de" where
  "de_subscription_params v =
     (case fields_of [''samplingRate'', ''queueSize'', ''deadbandType'', ''deadbandValue'',
              ''ranges'', ''dataChangeTrigger'', ''discardOldest''] v of
        Some [f1, f2, f3, f4, f5, f6, f7] \<Rightarrow>
          do { s \<leftarrow> de_opt_field de_f64 f1;
               q \<leftarrow> de_opt_field de_u32 f2;
               dt \<leftarrow> de_opt_field de_string f3;
               dv \<leftarrow> de_opt_field de_f64 f4;
               r \<leftarrow> de_opt_field de_string f5;
               t \<leftarrow> de_opt_field de_string f6;
               o' \<leftarrow> de_opt_field de_bool f7;
               Some \<lparr>sp_sampling_rate = s, sp_queue_size = q, sp_deadband_type = dt,
                     sp_deadband_value = dv, sp_ranges = r, sp_data_change_trigger = t,
                     sp_discard_oldest = o'\<rparr> }
      | _ \<Rightarrow> None)"

definition de_subscription_type :: "subscription_type de" where
  "de_subscription_type v =
     (case fields_of [''type'', ''cyclicReadParameters'', ''subscriptionParameters''] v of
        Some [f1, f2, f3] \<Rightarrow>
          do { t \<leftarrow> de_opt_field de_string f1;
               c \<leftarrow> de_opt_field de_cyclic_read_params f2;
               s \<leftarrow> de_opt_field de_subscription_params f3;
               Some \<lparr>st_type = t, st_cyclic_read_parameters = c,
                     st_subscription_parameters = s\<rparr> }
      | _ \<Rightarrow> None)"

definition de_overridden_subscription :: "overridden_subscription de" where
  "de_overridden_subscription v =
     (case fields_of [''browsePath'', ''subscriptionType''] v of
        Some [f1, f2] \<Rightarrow>
          do { p \<leftarrow> de_list_field de_string f1;
               t \<leftarrow> de_opt_field de_subscription_type f2;
               Some \<lparr>os_browse_path = p, os_subscription_type = t\<rparr> }
      | _ \<Rightarrow> None)"

definition device_type_fields :: "string list" where
  "device_type_fields =
     [''name'', ''description'', ''enabled'', ''mappings'', ''applyConstraints'',
      ''subscriptionType'', ''overriddenSubscriptions'', ''referencedRootNodeId'',
      ''referencedNamespaceTable'', ''referencedServerId'', ''referencedServerName'',
      ''uaEventMappings'']"

definition de_device_type_fields :: "json option list \<Rightarrow> device_type option" where
  "de_device_type_fields fs =
     (case fs of
        [f1, f2, f3, f4, f5, f6, f7, f8, f9, f10, f11, f12] \<Rightarrow>
          do { n \<leftarrow> de_field [] (null_as_default [] de_string) f1;
               d \<leftarrow> de_opt_field de_string f2;
               e \<leftarrow> de_field True null_as_true f3;
               m \<leftarrow> de_list_field de_mapping_entry f4;
               a \<leftarrow> de_opt_field de_apply_constraints f5;
               s \<leftarrow> de_opt_field de_subscription_type f6;
               ov \<leftarrow> de_list_field de_overridden_subscription f7;
               r \<leftarrow> de_opt_field de_string f8;
               nt \<leftarrow> de_list_field de_string f9;
               si \<leftarrow> de_opt_field de_string f10;
               sn \<leftarrow> de_opt_field de_string f11;
               u \<leftarrow> de_opt_field de_value f12;
               Some \<lparr>dt_name = n, dt_description = d, dt_enabled = e, dt_mappings = m,
                     dt_apply_constraints = a, dt_subscription_type = s,
                     dt_overridden_subscriptions = ov, dt_referenced_root_node_id = r,
                     dt_referenced_namespace_table = nt, dt_referenced_server_id = si,
                     dt_referenced_server_name = sn, dt_ua_event_mappings = u\<rparr> }
      | _ \<Rightarrow> None)"

definition de_device_type :: "device_type de" where
  "de_device_type v = Option.bind (fields_of device_type_fields v) de_device_type_fields"

text \<open>
  A struct with a flattened field reads objects only; the members it does not name go to the
  flattened map.
\<close>

definition managed_object_fields :: "string list" where
  "managed_object_fields = [''id'', ''name'', ''lastUpdated'', device_type_fragment]"

definition de_managed_object :: "managed_object de" where
  "de_managed_object v =
     (case v of
        JObj m \<Rightarrow>
          (case fields_of managed_object_fields (JObj m) of
             Some [f1, f2, f3, f4] \<Rightarrow>
               do { i \<leftarrow> de_field [] (null_as_default [] de_string) f1;
                    n \<leftarrow> de_opt_field de_string f2;
                    l \<leftarrow> de_opt_field de_string f3;
                    d \<leftarrow> de_opt_field de_device_type f4;
                    Some \<lparr>mo_id = i, mo_name = n, mo_last_updated = l, mo_device_type = d,
                          mo_fragments =
                            fold (\<lambda>(k, v). bt_insert k v)
                              (filter (\<lambda>(k, v). k \<notin> set managed_object_fields) m) []\<rparr> }
           | _ \<Rightarrow> None)
      | _ \<Rightarrow> None)"

definition de_statistics :: "statistics de" where
  "de_statistics v =
     (case fields_of [''totalPages'', ''currentPage'', ''pageSize''] v of
        Some [f1, f2, f3] \<Rightarrow>
          do { t \<leftarrow> de_opt_field de_u32 f1;
               c \<leftarrow> de_opt_field de_u32 f2;
               s \<leftarrow> de_opt_field de_u32 f3;
               Some \<lparr>stat_total_pages = t, stat_current_page = c, stat_page_size = s\<rparr> }
      | _ \<Rightarrow> None)"

definition de_managed_object_page :: "managed_object_page de" where
  "de_managed_object_page v =
     (case fields_of [''managedObjects'', ''statistics''] v of
        Some [f1, f2] \<Rightarrow>
          do { m \<leftarrow> de_list_field de_value f1;
               s \<leftarrow> de_opt_field de_statistics f2;
               Some \<lparr>pg_managed_objects = m, pg_statistics = s\<rparr> }
      | _ \<Rightarrow> None)"

section \<open>Subscription parameters\<close>

datatype subscription_kind = KSubscription | KCyclicRead | KNone

definition kind :: "subscription_type \<Rightarrow> subscription_kind" where
  "kind st =
     (case map_option trim (st_type st) of
        None \<Rightarrow> KNone
      | Some t \<Rightarrow>
          (if eq_ignore_ascii_case t ''Subscription'' then KSubscription
           else if eq_ignore_ascii_case t ''CyclicRead'' then KCyclicRead
           else KNone))"

datatype deadband = DbAbsolute | DbPercent

datatype data_change_trigger = TrStatus | TrStatusValue | TrStatusValueTimestamp

definition sp_deadband :: "subscription_params \<Rightarrow> (deadband \<times> f64) option" where
  "sp_deadband p =
     (case sp_deadband_value p of
        None \<Rightarrow> None
      | Some x \<Rightarrow>
          (case sp_deadband_type p of
             None \<Rightarrow> None
           | Some t \<Rightarrow>
               (if t = ''Absolute'' then Some (DbAbsolute, x)
                else if t = ''Percent'' then Some (DbPercent, x)
                else None)))"

definition sp_trigger :: "subscription_params \<Rightarrow> data_change_trigger" where
  "sp_trigger p =
     (if sp_data_change_trigger p = Some ''Status'' then TrStatus
      else if sp_data_change_trigger p = Some ''StatusValueTimestamp'' then TrStatusValueTimestamp
      else TrStatusValue)"

definition sp_discards_oldest :: "subscription_params \<Rightarrow> bool" where
  "sp_discards_oldest p = unwrap_or True (sp_discard_oldest p)"

definition sp_index_range :: "subscription_params \<Rightarrow> string option" where
  "sp_index_range p = opt_filter (\<lambda>r. r \<noteq> []) (map_option trim (sp_ranges p))"

definition range_bound_ok :: "string \<Rightarrow> bool" where
  "range_bound_ok p \<longleftrightarrow> p \<noteq> [] \<and> parse_u32 p \<noteq> None"

definition range_dim_ok :: "string \<Rightarrow> bool" where
  "range_dim_ok dim =
     (let parts = str_split CHR '':'' dim in
      is_some_and range_bound_ok (slice_get parts 0) \<and>
      is_none_or range_bound_ok (slice_get parts 1) \<and>
      slice_get parts 2 = None)"

definition is_numeric_range :: "string \<Rightarrow> bool" where
  "is_numeric_range s \<longleftrightarrow> s \<noteq> [] \<and> list_all range_dim_ok (str_split CHR '','' s)"

definition sp_is_valid :: "subscription_params \<Rightarrow> bool" where
  "sp_is_valid p \<longleftrightarrow>
     \<not> (sp_deadband_type p \<noteq> None \<and> sp_deadband_value p \<noteq> None \<and> sp_deadband p = None) \<and>
     is_none_or (\<lambda>t. t \<in> set [''Status'', ''StatusValue'', ''StatusValueTimestamp''])
       (sp_data_change_trigger p) \<and>
     is_none_or (\<lambda>r. r = [] \<or> is_numeric_range r) (map_option trim (sp_ranges p))"

definition rate_ms :: "cyclic_read_params \<Rightarrow> u64 option" where
  "rate_ms p = opt_filter (\<lambda>r. 0 < r) (cr_rate p)"

definition max_age :: "cyclic_read_params \<Rightarrow> f64" where
  "max_age p = unwrap_or 0 (cr_max_age p)"

section \<open>Names\<close>

definition simplify :: "string \<Rightarrow> string" where
  "simplify node_id = filter is_ascii_alphanumeric node_id"

definition series_name :: "measurement_creation \<Rightarrow> string \<Rightarrow> string" where
  "series_name m node_id =
     unwrap_or (''series_'' @ simplify node_id) (non_blank (mc_series m))"

definition fragment_name :: "measurement_creation \<Rightarrow> string \<Rightarrow> string" where
  "fragment_name m node_id =
     unwrap_or (''measurement_'' @ simplify node_id) (non_blank (mc_fragment_name m))"

section \<open>Explicit nulls\<close>

text \<open>A field that is explicitly \<open>null\<close> reads as one that is absent.\<close>

definition blank_null :: "json option \<Rightarrow> json option" where
  "blank_null f = (if f = Some JNull then None else f)"

lemma de_opt_field_blank: "de_opt_field d (blank_null f) = de_opt_field d f"
  by (simp add: blank_null_def)

lemma de_list_field_blank: "de_list_field d (blank_null f) = de_list_field d f"
  by (simp add: blank_null_def de_list_field_def null_as_default_def de_option_def)

lemma de_default_field_blank:
  "de_field x (null_as_default x d) (blank_null f) = de_field x (null_as_default x d) f"
  by (simp add: blank_null_def null_as_default_def de_option_def)

lemma de_true_field_blank:
  "de_field True null_as_true (blank_null f) = de_field True null_as_true f"
  by (simp add: blank_null_def null_as_true_def de_option_def)

lemmas field_blank =
  de_opt_field_blank de_list_field_blank de_default_field_blank de_true_field_blank

lemma map_of_filter_null:
  "distinct (map fst m) \<Longrightarrow>
     map_of (filter (\<lambda>(k, v). v \<noteq> JNull) m) k = blank_null (map_of m k)"
proof (induction m)
  case Nil
  then show ?case by (simp add: blank_null_def)
next
  case (Cons kv m)
  then show ?case
    by (cases kv) (auto simp: blank_null_def map_of_eq_None_iff image_iff
        dest: map_of_SomeD)
qed

lemma fields_of_filter_null:
  assumes "distinct (map fst m)"
  shows "fields_of ns (JObj (filter (\<lambda>(k, v). v \<noteq> JNull) m)) =
    map_option (map blank_null) (fields_of ns (JObj m))"
proof -
  have "distinct (map fst (filter q m))" for q using assms by (rule distinct_map_filter)
  then show ?thesis
    using assms by (simp add: distinct_filter map_of_filter_null)
qed

lemma de_device_type_fields_blank:
  assumes "length fs = 12"
  shows "de_device_type_fields (map blank_null fs) = de_device_type_fields fs"
proof -
  obtain f1 f2 f3 f4 f5 f6 f7 f8 f9 f10 f11 f12
    where "fs = [f1, f2, f3, f4, f5, f6, f7, f8, f9, f10, f11, f12]"
    using assms by (auto simp: numeral_eq_Suc length_Suc_conv)
  then show ?thesis by (simp add: de_device_type_fields_def field_blank)
qed

text \<open>
  C27. Cumulocity writes \<open>null\<close> for unset fields: a device type whose JSON has explicit nulls is
  read exactly like the same JSON with those members left out, so no null makes it unreadable.
\<close>

theorem device_type_null_is_absent:
  assumes "distinct (map fst m)"
  shows "de_device_type (JObj (filter (\<lambda>(k, v). v \<noteq> JNull) m)) = de_device_type (JObj m)"
proof (cases "fields_of device_type_fields (JObj m)")
  case None
  with assms show ?thesis by (simp only: de_device_type_def fields_of_filter_null) simp
next
  case (Some fs)
  then have "length fs = 12"
    by (simp only: fields_of_length) (simp add: device_type_fields_def)
  with Some assms show ?thesis
    by (simp only: de_device_type_def fields_of_filter_null) (simp add: de_device_type_fields_blank)
qed

lemma device_type_null_is_absent_witness:
  "de_device_type (JObj [(''name'', JStr ''x'')]) =
   de_device_type (JObj [(''name'', JStr ''x''), (''enabled'', JNull), (''mappings'', JNull)])"
proof -
  have "distinct (map fst [(''name'', JStr ''x''), (''enabled'', JNull), (''mappings'', JNull)])"
    by simp
  from device_type_null_is_absent [OF this] show ?thesis by simp
qed

section \<open>Numeric ranges\<close>

text \<open>The grammar of an OPC UA NumericRange.\<close>

definition range_dim :: "string \<Rightarrow> bool" where
  "range_dim d \<longleftrightarrow>
     parse_u32 d \<noteq> None \<or> (\<exists>a b. d = a @ '':'' @ b \<and> parse_u32 a \<noteq> None \<and> parse_u32 b \<noteq> None)"

lemma parse_u32_chars: "parse_u32 p \<noteq> None \<Longrightarrow> c \<in> set p \<Longrightarrow> is_digit c \<or> c = CHR ''+''"
proof (rule ccontr)
  assume "parse_u32 p \<noteq> None" "c \<in> set p" "\<not> (is_digit c \<or> c = CHR ''+'')"
  with parse_uint_nondigit [of c p "2 ^ 32"] have "parse_uint (2 ^ 32) p = None" by simp
  then have "parse_u32 p = None" by (simp only: parse_u32_def) simp
  with \<open>parse_u32 p \<noteq> None\<close> show False ..
qed

lemma parse_u32_no_delim:
  "parse_u32 p \<noteq> None \<Longrightarrow> CHR '':'' \<notin> set p \<and> CHR '','' \<notin> set p"
  using parse_u32_chars [of p "CHR '':''"] parse_u32_chars [of p "CHR '',''"]
  by (auto simp: is_digit_def char_code_def)

lemma range_bound_ok_iff: "range_bound_ok p \<longleftrightarrow> parse_u32 p \<noteq> None"
  by (auto simp: range_bound_ok_def parse_u32_def parse_uint_def)

lemma range_dim_ok_iff: "range_dim_ok d \<longleftrightarrow> range_dim d"
proof
  assume ok: "range_dim_ok d"
  have d: "d = join_with [CHR '':''] (str_split CHR '':'' d)" by (simp only: join_str_split)
  obtain a ps where s: "str_split CHR '':'' d = a # ps"
    by (cases "str_split CHR '':'' d") (use str_split_nonempty in auto)
  show "range_dim d"
  proof (cases ps)
    case Nil
    with s d ok show ?thesis by (simp add: range_dim_ok_def range_dim_def range_bound_ok_iff)
  next
    case (Cons b qs)
    with s ok have "qs = []"
      by (cases qs) (auto simp: range_dim_ok_def numeral_2_eq_2)
    with s d ok Cons show ?thesis
      by (simp add: range_dim_ok_def range_dim_def range_bound_ok_iff) blast
  qed
next
  assume "range_dim d"
  then consider "parse_u32 d \<noteq> None"
    | a b where "d = a @ '':'' @ b" "parse_u32 a \<noteq> None" "parse_u32 b \<noteq> None"
    unfolding range_dim_def by blast
  then show "range_dim_ok d"
  proof cases
    case 1
    then show ?thesis
      by (simp add: range_dim_ok_def range_bound_ok_iff str_split_absent parse_u32_no_delim
          numeral_2_eq_2)
  next
    case 2
    then show ?thesis
      by (simp add: range_dim_ok_def range_bound_ok_iff str_split_append str_split_absent
          parse_u32_no_delim numeral_2_eq_2)
  qed
qed

lemma list_all_range_dim: "list_all range_dim_ok ds \<longleftrightarrow> list_all range_dim ds"
  by (simp add: list_all_iff range_dim_ok_iff)

lemma range_dim_no_comma: "range_dim d \<Longrightarrow> CHR '','' \<notin> set d \<and> d \<noteq> []"
  using parse_u32_no_delim by (fastforce simp: range_dim_def parse_u32_def parse_uint_def)

text \<open>
  C28. The range check accepts exactly the NumericRange grammar: one or more dimensions joined by
  commas, each a 32-bit number or two of them joined by a colon.
\<close>

theorem is_numeric_range_grammar:
  "is_numeric_range s \<longleftrightarrow>
     (\<exists>ds. ds \<noteq> [] \<and> list_all range_dim ds \<and> s = join_with '','' ds)"
proof
  assume "is_numeric_range s"
  then have "list_all range_dim (str_split CHR '','' s)"
    by (simp add: is_numeric_range_def list_all_range_dim)
  moreover have "s = join_with '','' (str_split CHR '','' s)" by (simp only: join_str_split)
  ultimately show "\<exists>ds. ds \<noteq> [] \<and> list_all range_dim ds \<and> s = join_with '','' ds"
    using str_split_nonempty by blast
next
  assume "\<exists>ds. ds \<noteq> [] \<and> list_all range_dim ds \<and> s = join_with '','' ds"
  then obtain ds where ds: "ds \<noteq> []" "list_all range_dim ds" and s: "s = join_with '','' ds"
    by blast
  then have "str_split CHR '','' s = ds"
    using range_dim_no_comma by (auto simp: list_all_iff intro!: str_split_join)
  moreover have "s \<noteq> []"
    using ds range_dim_no_comma unfolding s
    by (cases ds; cases "tl ds") auto
  ultimately show "is_numeric_range s"
    using ds(2) by (simp add: is_numeric_range_def list_all_range_dim)
qed

text \<open>
  The deadband type \<open>None\<close> is no filter, but parameters with it and a value are not valid.
\<close>

lemma deadband_none_with_value:
  "\<not> sp_is_valid (sp_default\<lparr>sp_deadband_type := Some ''None'', sp_deadband_value := Some x\<rparr>)"
  by (simp add: sp_is_valid_def sp_default_def sp_deadband_def)

end
