(* ===== verification/Opc_Types.thy ===== *)
theory Opc_Types
  imports Rust_Num
begin

text \<open>
  The OPC UA data types the gateway handles, from the \<open>opcua_types\<close> crate, with the constructors
  the gateway distinguishes, and the record of that crate's functions (and of the standard
  library's float printing and Unicode tables) that the gateway calls. Every definition that calls
  one takes the record as its argument, so nothing is assumed of them unless a theorem says so.
\<close>

datatype node_ident = Numeric u32 | IdString string | IdGuid "128 word" | IdBytes "u8 list"

datatype node_id = NodeId (ni_namespace: u16) (ni_ident: node_ident)

datatype qualified_name = QName (qn_namespace: u16) (qn_name: string)

type_synonym datetime = int
type_synonym status_code = u32

text \<open>
  \<open>Variant\<close>. The variants the gateway never looks into (GUIDs, byte strings, extension objects and
  so on) are \<open>VOther\<close>. A string is what \<open>UAString::as_ref\<close> yields.
\<close>

datatype variant =
    VEmpty
  | VBoolean bool
  | VSByte u8
  | VByte u8
  | VInt16 u16
  | VUInt16 u16
  | VInt32 u32
  | VUInt32 u32
  | VInt64 u64
  | VUInt64 u64
  | VFloat f32
  | VDouble f64
  | VString string
  | VDateTime datetime
  | VLocalizedText string
  | VArray "variant list"
  | VOther string

record data_value =
  dv_value :: "variant option"
  dv_status :: "status_code option"
  dv_source_timestamp :: "datetime option"
  dv_server_timestamp :: "datetime option"

record opc_lib =
  lib_guid :: "string \<Rightarrow> 128 word option"
  lib_base64 :: "string \<Rightarrow> u8 list option"
  lib_node_id_str :: "node_id \<Rightarrow> string"
  lib_is_good :: "status_code \<Rightarrow> bool"
  lib_rfc3339 :: "datetime \<Rightarrow> string"
  lib_now :: datetime
  lib_debug :: "variant \<Rightarrow> string"
  lib_f32_str :: "f32 \<Rightarrow> string"
  lib_f64_str :: "f64 \<Rightarrow> string"
  lib_lower :: "string \<Rightarrow> string"

text \<open>
  A concrete instance for witnesses: the two top bits of a status code give its severity, and a
  numeric NodeId prints as \<open>ns=..;i=..\<close>; the other functions are constant.
\<close>

definition demo_node_str :: "node_id \<Rightarrow> string" where
  "demo_node_str n =
     ''ns='' @ show_nat (unat (ni_namespace n)) @ '';'' @
     (case ni_ident n of
        Numeric i \<Rightarrow> ''i='' @ show_nat (unat i)
      | IdString s \<Rightarrow> ''s='' @ s
      | IdGuid g \<Rightarrow> ''g='' @ show_nat (unat g)
      | IdBytes b \<Rightarrow> ''b='')"

definition demo_lib :: opc_lib where
  "demo_lib =
     \<lparr>lib_guid = (\<lambda>_. None), lib_base64 = (\<lambda>_. None), lib_node_id_str = demo_node_str,
      lib_is_good = (\<lambda>s. drop_bit 30 s = 0), lib_rfc3339 = (\<lambda>t. show_int t), lib_now = 0,
      lib_debug = (\<lambda>_. ''?''), lib_f32_str = (\<lambda>_. ''f''), lib_f64_str = (\<lambda>_. ''d''),
      lib_lower = (\<lambda>s. s)\<rparr>"

end
