(* ===== verification/Namespace.thy ===== *)
theory Namespace
  imports Opc_Types
begin

text \<open>
  Browse paths and NodeId strings: \<open>crates/mapping/src/namespace.rs\<close>, with the errors of
  \<open>crates/mapping/src/lib.rs\<close>.
\<close>

datatype mapping_error =
    InvalidNodeId string
  | UnknownNamespace string
  | ReadFile string
  | ParseFile string

section \<open>The namespace table\<close>

type_synonym ns_table = "string list"

definition index_of :: "ns_table \<Rightarrow> string \<Rightarrow> u16 option" where
  "index_of t uri =
     (case position (\<lambda>u. u = uri) t of
        None \<Rightarrow> None
      | Some i \<Rightarrow> (if i < 2 ^ 16 then Some (word_of_nat i) else None))"

definition uri_of :: "ns_table \<Rightarrow> u16 \<Rightarrow> string option" where
  "uri_of t i = slice_get t (unat i)"

section \<open>Browse path segments\<close>

definition is_regex :: "string \<Rightarrow> bool" where
  "is_regex segment \<longleftrightarrow> starts_with segment ''regex('' \<and> ends_with segment '')''"

definition resolve_prefix :: "ns_table \<Rightarrow> string \<Rightarrow> u16 option" where
  "resolve_prefix t p = (case parse_u16 p of Some i \<Rightarrow> Some i | None \<Rightarrow> index_of t p)"

lemma rfind_less: "rfind d s = Some i \<Longrightarrow> i < length s"
  by (simp add: rfind_Some)

text \<open>The loop of \<open>to_qualified_name\<close>: \<open>delim\<close> floats back from colon to colon.\<close>

function qn_loop :: "ns_table \<Rightarrow> string \<Rightarrow> nat \<Rightarrow> qualified_name" where
  "qn_loop t segment delim =
     (let prefix = take delim segment; val = drop (Suc delim) segment in
      case resolve_prefix t prefix of
        Some index \<Rightarrow> QName index val
      | None \<Rightarrow>
          (case rfind CHR '':'' prefix of
             Some delim' \<Rightarrow> qn_loop t segment delim'
           | None \<Rightarrow> QName 0 segment))"
  by pat_completeness auto
termination
  by (relation "measure (\<lambda>(t, s, d). d)") (auto dest: rfind_less)

declare qn_loop.simps [simp del]

definition to_qualified_name :: "ns_table \<Rightarrow> string \<Rightarrow> qualified_name" where
  "to_qualified_name t segment =
     (case rfind CHR '':'' segment of
        None \<Rightarrow> QName 0 segment
      | Some delim \<Rightarrow> qn_loop t segment delim)"

definition to_qualified_names :: "ns_table \<Rightarrow> string list \<Rightarrow> qualified_name list" where
  "to_qualified_names t browse_path = map (to_qualified_name t) browse_path"

section \<open>NodeId strings\<close>

definition parse_identifier :: "opc_lib \<Rightarrow> string \<Rightarrow> node_ident option" where
  "parse_identifier lib s =
     (case split_at_checked 2 s of
        None \<Rightarrow> None
      | Some (kind, val) \<Rightarrow>
          (if kind = ''i='' then map_option Numeric (parse_u32 val)
           else if kind = ''s='' then Some (IdString val)
           else if kind = ''g='' then map_option IdGuid (lib_guid lib val)
           else if kind = ''b='' then map_option IdBytes (lib_base64 lib val)
           else None))"

text \<open>The loop over at most \<open>n\<close> leading \<open>nsu=\<close>, \<open>ns=\<close> and \<open>svr=\<close> parts.\<close>

fun node_id_prefixes ::
    "nat \<Rightarrow> ns_table \<Rightarrow> string \<Rightarrow> u16 \<Rightarrow> string \<Rightarrow> mapping_error + u16 \<times> string" where
  "node_id_prefixes 0 t s ns rest = Inr (ns, rest)"
| "node_id_prefixes (Suc n) t s ns rest =
     (case split_once CHR '';'' rest of
        None \<Rightarrow> Inr (ns, rest)
      | Some (head, tail) \<Rightarrow>
          (let lower = to_ascii_lowercase head in
           case strip_prefix ''nsu='' lower of
             Some u \<Rightarrow>
               (let uri = drop (length head - length u) head in
                case index_of t uri of
                  None \<Rightarrow> Inl (UnknownNamespace uri)
                | Some i \<Rightarrow> node_id_prefixes n t s i tail)
           | None \<Rightarrow>
               (case strip_prefix ''ns='' lower of
                  Some index \<Rightarrow>
                    (case parse_u16 index of
                       None \<Rightarrow> Inl (InvalidNodeId s)
                     | Some i \<Rightarrow> node_id_prefixes n t s i tail)
                | None \<Rightarrow>
                    (if starts_with lower ''svr='' then node_id_prefixes n t s ns tail
                     else Inr (ns, rest)))))"

definition parse_node_id :: "opc_lib \<Rightarrow> ns_table \<Rightarrow> string \<Rightarrow> mapping_error + node_id" where
  "parse_node_id lib t s =
     (case node_id_prefixes 3 t s 0 s of
        Inl e \<Rightarrow> Inl e
      | Inr (ns, rest) \<Rightarrow>
          (case parse_identifier lib rest of
             None \<Rightarrow> Inl (InvalidNodeId s)
           | Some i \<Rightarrow> Inr (NodeId ns i)))"

section \<open>What the namespace table promises\<close>

lemma index_of_Some:
  "index_of t uri = Some i \<Longrightarrow>
     unat i < length t \<and> t ! unat i = uri \<and> (\<forall>j < unat i. t ! j \<noteq> uri)"
  by (auto simp: index_of_def position_Some unat_of_nat split: option.splits if_splits)

lemma index_of_uri_of: "index_of t uri = Some i \<Longrightarrow> uri_of t i = Some uri"
  by (auto simp: uri_of_def slice_get_def dest: index_of_Some)

lemma index_of_None: "index_of t uri = None \<longleftrightarrow> uri \<notin> set (take (2 ^ 16) t)"
proof (cases "position (\<lambda>u. u = uri) t")
  case None
  then have "uri \<notin> set t" by (auto simp: position_None)
  with None show ?thesis by (auto simp: index_of_def dest: in_set_takeD)
next
  case (Some i)
  then have i: "i < length t" "t ! i = uri" "\<forall>j < i. t ! j \<noteq> uri"
    by (auto simp: position_Some)
  have "uri \<in> set (take (2 ^ 16) t) \<longleftrightarrow> i < 2 ^ 16"
  proof
    assume "uri \<in> set (take (2 ^ 16) t)"
    then obtain j where "j < 2 ^ 16" "j < length t" "t ! j = uri"
      by (auto simp: in_set_conv_nth)
    with i(3) show "i < 2 ^ 16" by (metis le_less_trans linorder_not_less)
  next
    assume "i < 2 ^ 16"
    with i show "uri \<in> set (take (2 ^ 16) t)"
      by (auto simp: in_set_conv_nth intro!: exI [of _ i])
  qed
  with Some show ?thesis by (auto simp: index_of_def)
qed

section \<open>Qualified names\<close>

text \<open>
  The reference: of all colons of the segment, the last one before which something resolves. The
  loop visits the colons from the right, so it stops at that one.
\<close>

definition colons :: "nat \<Rightarrow> string \<Rightarrow> nat list" where
  "colons n s = filter (\<lambda>i. s ! i = CHR '':'') [0..<n]"

definition split_resolving :: "ns_table \<Rightarrow> string \<Rightarrow> nat list \<Rightarrow> qualified_name" where
  "split_resolving t s ds =
     (case find (\<lambda>d. resolve_prefix t (take d s) \<noteq> None) ds of
        None \<Rightarrow> QName 0 s
      | Some d \<Rightarrow> QName (the (resolve_prefix t (take d s))) (drop (Suc d) s))"

lemma colons_rfind:
  assumes "d \<le> length s"
  shows "colons d s =
    (case rfind CHR '':'' (take d s) of None \<Rightarrow> [] | Some n \<Rightarrow> colons n s @ [n])"
proof (cases "rfind CHR '':'' (take d s)")
  case None
  then have "\<forall>i < d. s ! i \<noteq> CHR '':''"
    using assms by (fastforce simp: rfind_None in_set_conv_nth)
  with None show ?thesis by (simp add: colons_def filter_empty_conv)
next
  case (Some n)
  then have n: "n < d" "s ! n = CHR '':''" and above: "CHR '':'' \<notin> set (drop (Suc n) (take d s))"
    by (auto simp: rfind_Some)
  have none: "s ! i \<noteq> CHR '':''" if "Suc n \<le> i" "i < d" for i
  proof
    assume "s ! i = CHR '':''"
    with that assms have "drop (Suc n) (take d s) ! (i - Suc n) = CHR '':''"
      "i - Suc n < length (drop (Suc n) (take d s))" by auto
    with above show False by (metis nth_mem)
  qed
  have "[0..<d] = [0..<n] @ [n] @ [Suc n..<d]"
    using n(1) by (metis append.assoc append_Cons append_Nil le_add1 less_imp_le_nat plus_nat.add_0
        upt_add_eq_append upt_conv_Cons le_add_diff_inverse)
  then show ?thesis
    using Some n none by (auto simp: colons_def filter_empty_conv)
qed

lemma qn_loop_split:
  assumes "d < length s"
  shows "qn_loop t s d = split_resolving t s (d # rev (colons d s))"
  using assms
proof (induction t s d rule: qn_loop.induct)
  case (1 t s d)
  show ?case
  proof (cases "resolve_prefix t (take d s)")
    case (Some i)
    then show ?thesis by (subst qn_loop.simps) (simp add: split_resolving_def Let_def)
  next
    case None
    show ?thesis
    proof (cases "rfind CHR '':'' (take d s)")
      case rNone: None
      with None "1.prems" show ?thesis
        by (subst qn_loop.simps) (simp add: split_resolving_def colons_rfind)
    next
      case (Some n)
      then have "n < length s" using "1.prems" by (auto dest: rfind_less)
      from "1.IH" [OF refl refl None Some this]
      have "qn_loop t s n = split_resolving t s (n # rev (colons n s))" .
      with None Some "1.prems" show ?thesis
        by (subst qn_loop.simps) (simp add: split_resolving_def colons_rfind [of d])
    qed
  qed
qed

text \<open>
  C23. A browse path segment is split at its last colon whose prefix is a namespace index or a URI
  of the server's table; when no prefix resolves, the whole segment is a name in namespace 0.
\<close>

theorem to_qualified_name_last_resolving:
  "to_qualified_name t s = split_resolving t s (rev (colons (length s) s))"
proof (cases "rfind CHR '':'' s")
  case None
  then show ?thesis
    by (simp add: to_qualified_name_def split_resolving_def colons_rfind)
next
  case (Some d)
  then have "d < length s" by (rule rfind_less)
  with Some show ?thesis
    by (simp add: to_qualified_name_def qn_loop_split colons_rfind [of "length s"])
qed

lemma resolve_prefix_uri:
  "parse_u16 uri = None \<Longrightarrow> resolve_prefix t uri = index_of t uri"
  by (simp add: resolve_prefix_def)

text \<open>
  Writing a qualified name as \<open><uri>:<name>\<close> or \<open><index>:<name>\<close> and reading it back gives
  the name in the namespace of that URI or index, however many colons the URI holds, as long as
  the name itself holds none.
\<close>

theorem to_qualified_name_roundtrip:
  assumes "CHR '':'' \<notin> set n"
  shows "to_qualified_name t (show_nat (unat i) @ '':'' @ n) = QName i n \<and>
    (parse_u16 uri = None \<longrightarrow> index_of t uri = Some j \<longrightarrow>
       to_qualified_name t (uri @ '':'' @ n) = QName j n)"
proof -
  have r: "rfind CHR '':'' (p @ CHR '':'' # n) = Some (length p)" for p
    using assms by (rule rfind_append)
  show ?thesis
    by (simp add: to_qualified_name_def r qn_loop.simps Let_def resolve_prefix_def parse_u16_show)
qed

definition demo_table :: ns_table where
  "demo_table =
     [''http://opcfoundation.org/UA/'', ''urn:freeopcua:python:server'', ''http://www.cumulocity.com'']"

lemma to_qualified_name_roundtrip_witness:
  "to_qualified_name demo_table (show_nat (unat (2::u16)) @ '':'' @ ''Pump01'') = QName 2 ''Pump01''
   \<and> to_qualified_name demo_table (''http://www.cumulocity.com'' @ '':'' @ ''Pump01'')
      = QName 2 ''Pump01''"
proof -
  have "CHR '':'' \<notin> set ''Pump01''" by simp
  moreover have "parse_u16 ''http://www.cumulocity.com'' = None"
    "index_of demo_table ''http://www.cumulocity.com'' = Some 2"
    by code_simp+
  ultimately show ?thesis
    using to_qualified_name_roundtrip [of "''Pump01''" demo_table 2 "''http://www.cumulocity.com''" 2]
    by blast
qed

section \<open>NodeIds\<close>

text \<open>
  A UTF-8 string does not start with a continuation byte; this is what makes the split after
  \<open>s=\<close> succeed.
\<close>

definition utf8_start :: "string \<Rightarrow> bool" where
  "utf8_start s \<longleftrightarrow> s = [] \<or> (of_char (hd s) :: nat) div 64 \<noteq> 2"

lemma split_kind:
  "utf8_start a \<Longrightarrow> split_at_checked 2 (x # y # a) = Some ([x, y], a)"
  by (cases a) (auto simp: split_at_checked_def is_char_boundary_def utf8_start_def)

lemma utf8_start_digits: "utf8_start (show_nat n)"
proof (cases "show_nat n")
  case (Cons c cs)
  then have "is_digit c" by (rule show_nat_head)
  then have "(of_char c :: nat) \<le> 57" by (simp add: is_digit_def char_code_def)
  then have "(of_char c :: nat) div 64 = 0" by simp
  with Cons show ?thesis by (simp add: utf8_start_def)
qed simp

text \<open>The textual forms of an identifier the gateway writes and the ones it reads back.\<close>

fun ident_text :: "node_ident \<Rightarrow> string option" where
  "ident_text (Numeric i) = Some (''i='' @ show_nat (unat i))"
| "ident_text (IdString s) = (if utf8_start s then Some (''s='' @ s) else None)"
| "ident_text _ = None"

lemma parse_ident_text: "ident_text i = Some x \<Longrightarrow> parse_identifier lib x = Some i"
  by (cases i)
    (auto simp: parse_identifier_def split_kind utf8_start_digits parse_u32_show split: if_splits)

lemma ident_text_prefixes:
  assumes "ident_text i = Some x"
  shows "node_id_prefixes n t s ns x = Inr (ns, x)"
proof (cases n)
  case (Suc m)
  have "to_ascii_lowercase (CHR ''i'' # cs) = CHR ''i'' # to_ascii_lowercase cs"
    "to_ascii_lowercase (CHR ''s'' # CHR ''='' # cs) = CHR ''s'' # CHR ''='' # to_ascii_lowercase cs"
    for cs by (simp_all add: rust_simps)
  with assms Suc show ?thesis
    by (cases i) (auto simp: starts_with_def split: if_splits option.splits)
qed simp

lemma to_ascii_lowercase_append:
  "to_ascii_lowercase (a @ b) = to_ascii_lowercase a @ to_ascii_lowercase b"
  by (simp add: to_ascii_lowercase_def)

lemma lower_nat: "to_ascii_lowercase (show_nat n) = show_nat n"
  using show_nat_digits [of n]
  by (auto simp: to_ascii_lowercase_def list_all_iff ascii_lower_def is_upper_def is_digit_def
      intro!: map_idI)

lemma nat_no_semicolon: "CHR '';'' \<notin> set (show_nat n)"
  using show_nat_digits [of n] by (auto simp: list_all_iff is_digit_def char_code_def)

lemma ns_prefix:
  "node_id_prefixes (Suc n) t s ns (''ns='' @ show_nat (unat i) @ '';'' @ x) =
     node_id_prefixes n t s i x"
proof -
  have "split_once CHR '';'' (''ns='' @ show_nat (unat i) @ '';'' @ x) =
      Some (''ns='' @ show_nat (unat i), x)"
    using nat_no_semicolon [of "unat i"] by (simp only: split_once_Some) simp
  moreover have "to_ascii_lowercase (''ns='' @ show_nat (unat i)) = ''ns='' @ show_nat (unat i)"
    by (simp only: to_ascii_lowercase_append lower_nat) (simp add: rust_simps)
  ultimately show ?thesis
    by (simp only: node_id_prefixes.simps option.case prod.case Let_def)
      (simp add: parse_u16_show)
qed

lemma nsu_prefix:
  assumes "CHR '';'' \<notin> set uri" and "index_of t uri = Some i"
  shows "node_id_prefixes (Suc n) t s ns (''nsu='' @ uri @ '';'' @ x) = node_id_prefixes n t s i x"
proof -
  have "split_once CHR '';'' (''nsu='' @ uri @ '';'' @ x) = Some (''nsu='' @ uri, x)"
    using assms(1) by (simp only: split_once_Some) simp
  moreover have "to_ascii_lowercase (''nsu='' @ uri) = ''nsu='' @ to_ascii_lowercase uri"
    by (simp only: to_ascii_lowercase_append) (simp add: rust_simps)
  ultimately show ?thesis
    using assms(2) by (simp only: node_id_prefixes.simps option.case prod.case Let_def) simp
qed

text \<open>
  C24. Numeric and string NodeIds survive a round trip through all three textual forms the gateway
  accepts: bare (namespace 0), \<open>ns=<index>;\<close>, and \<open>nsu=<uri>;\<close> with the URI looked up in the
  server's table. The identifier may itself contain semicolons.
\<close>

theorem parse_node_id_roundtrip:
  assumes "ident_text i = Some x"
  shows "parse_node_id lib t x = Inr (NodeId 0 i) \<and>
    parse_node_id lib t (''ns='' @ show_nat (unat ns) @ '';'' @ x) = Inr (NodeId ns i) \<and>
    (CHR '';'' \<notin> set uri \<longrightarrow> index_of t uri = Some j \<longrightarrow>
      parse_node_id lib t (''nsu='' @ uri @ '';'' @ x) = Inr (NodeId j i))"
proof (intro conjI impI)
  have three: "(3::nat) = Suc 2" by simp
  note x = ident_text_prefixes [OF assms] parse_ident_text [OF assms]
  show "parse_node_id lib t x = Inr (NodeId 0 i)"
    by (simp add: parse_node_id_def x)
  show "parse_node_id lib t (''ns='' @ show_nat (unat ns) @ '';'' @ x) = Inr (NodeId ns i)"
    by (simp only: parse_node_id_def three ns_prefix) (simp add: x)
  assume u: "CHR '';'' \<notin> set uri" "index_of t uri = Some j"
  show "parse_node_id lib t (''nsu='' @ uri @ '';'' @ x) = Inr (NodeId j i)"
    by (simp only: parse_node_id_def three nsu_prefix [OF u]) (simp add: x)
qed

lemma parse_node_id_roundtrip_witness:
  "parse_node_id demo_lib demo_table (''nsu='' @ ''http://www.cumulocity.com'' @ '';'' @ ''i=84'')
     = Inr (NodeId 2 (Numeric 84))"
proof -
  have "ident_text (Numeric 84) = Some ''i=84''" by code_simp
  moreover have "CHR '';'' \<notin> set ''http://www.cumulocity.com''" by simp
  moreover have "index_of demo_table ''http://www.cumulocity.com'' = Some 2" by code_simp
  ultimately show ?thesis using parse_node_id_roundtrip by blast
qed

lemma node_id_prefixes_error:
  "node_id_prefixes n t s ns rest = Inl e \<Longrightarrow>
     e = InvalidNodeId s \<or> (\<exists>uri. e = UnknownNamespace uri \<and> uri \<notin> set (take (2 ^ 16) t))"
  by (induction n t s ns rest rule: node_id_prefixes.induct)
    (auto simp: Let_def index_of_None split: option.splits prod.splits if_splits)



end
