(* ===== verification/Constraints.thy ===== *)
theory Constraints
  imports Device_Model Namespace
begin

text \<open>
  Which device types apply to a server: \<open>crates/mapping/src/constraints.rs\<close>. The warnings of
  \<open>report_unsupported\<close> are the list of the constraints it names.
\<close>

definition non_blank_all :: "string list \<Rightarrow> string list" where
  "non_blank_all values = filter (\<lambda>s. s \<noteq> []) (map trim values)"

definition matches_server_ids :: "apply_constraints \<Rightarrow> string \<Rightarrow> string list \<Rightarrow> bool" where
  "matches_server_ids c server_id known =
     (let wanted = non_blank_all (cn_matches_server_ids c) in
      if wanted = [] \<or> server_id \<in> set wanted then True
      else if \<not> (\<exists>i \<in> set wanted. \<exists>k \<in> set known. k = i) then True
      else False)"

definition matches_node_ids ::
    "opc_lib \<Rightarrow> apply_constraints \<Rightarrow> device_type \<Rightarrow> ns_table \<Rightarrow> bool" where
  "matches_node_ids lib c dt t =
     (let wanted = non_blank_all (cn_matches_node_ids c) in
      if wanted = [] then True
      else case dt_referenced_root_node_id dt of
             None \<Rightarrow> False
           | Some root_str \<Rightarrow>
               (case parse_node_id lib t root_str of
                  Inl e \<Rightarrow> False
                | Inr root \<Rightarrow> list_ex (\<lambda>w. parse_node_id lib t w = Inr root) wanted))"

definition applies ::
    "opc_lib \<Rightarrow> device_type \<Rightarrow> string \<Rightarrow> string list \<Rightarrow> ns_table \<Rightarrow> bool" where
  "applies lib dt server_id known t =
     (if \<not> dt_enabled dt then False
      else case dt_apply_constraints dt of
             None \<Rightarrow> True
           | Some c \<Rightarrow>
               matches_server_ids c server_id known \<and> matches_node_ids lib c dt t)"

datatype unsupported = BrowsePathMatchesRegex | ServerObjectHasFragment | ServerHasNodeWithValues

definition report_unsupported :: "apply_constraints \<Rightarrow> unsupported list" where
  "report_unsupported c =
     (if is_some_and (\<lambda>s. trim s \<noteq> []) (cn_browse_path_matches_regex c)
      then [BrowsePathMatchesRegex] else []) @
     (if is_some_and (\<lambda>s. trim s \<noteq> []) (cn_server_object_has_fragment c)
      then [ServerObjectHasFragment] else []) @
     (if cn_server_has_node_with_values c \<noteq> None then [ServerHasNodeWithValues] else [])"

text \<open>
  A constraint that is not supported is ignored: without the three of them nothing is reported and
  the device type applies to the same servers.
\<close>

definition supported_part :: "apply_constraints \<Rightarrow> apply_constraints" where
  "supported_part c =
     c\<lparr>cn_browse_path_matches_regex := None, cn_server_object_has_fragment := None,
       cn_server_has_node_with_values := None\<rparr>"

lemma unsupported_ignored:
  "report_unsupported (supported_part c) = [] \<and>
   applies lib (dt\<lparr>dt_apply_constraints := Some (supported_part c)\<rparr>) sid known t =
     applies lib (dt\<lparr>dt_apply_constraints := Some c\<rparr>) sid known t"
  by (simp add: report_unsupported_def supported_part_def applies_def matches_server_ids_def
      matches_node_ids_def)

section \<open>What the constraints mean\<close>

text \<open>The identifiers a list names: its entries without surrounding and without blank ones.\<close>

definition named_ids :: "string list \<Rightarrow> string set" where
  "named_ids ids = trim ` set ids - {[]}"

lemma set_non_blank_all: "set (non_blank_all ids) = named_ids ids"
  by (auto simp: non_blank_all_def named_ids_def)

lemma non_blank_all_empty: "non_blank_all ids = [] \<longleftrightarrow> named_ids ids = {}"
  using set_non_blank_all [of ids] by auto

lemma matches_server_ids_iff:
  "matches_server_ids c sid known \<longleftrightarrow>
     sid \<in> named_ids (cn_matches_server_ids c) \<or> named_ids (cn_matches_server_ids c) \<inter> set known = {}"
  by (auto simp: matches_server_ids_def Let_def set_non_blank_all non_blank_all_empty)

definition node_scope :: "opc_lib \<Rightarrow> ns_table \<Rightarrow> string set \<Rightarrow> node_id set" where
  "node_scope lib t ids = {n. \<exists>s \<in> ids. parse_node_id lib t s = Inr n}"

lemma matches_node_ids_iff:
  "matches_node_ids lib c dt t \<longleftrightarrow>
     named_ids (cn_matches_node_ids c) = {} \<or>
     node_scope lib t (set_option (dt_referenced_root_node_id dt)) \<inter>
       node_scope lib t (named_ids (cn_matches_node_ids c)) \<noteq> {}"
  by (auto simp: matches_node_ids_def Let_def non_blank_all_empty list_ex_iff set_non_blank_all
      node_scope_def split: option.splits sum.splits)

text \<open>
  C30. Device types authored against servers this gateway does not know stay usable: an enabled
  device type without a node constraint applies to at least one of the configured servers,
  whatever its \<open>matchesServerIds\<close> says; and where it names configured servers it applies to
  exactly those.
\<close>

theorem applies_to_some_server:
  assumes "dt_enabled dt" "known \<noteq> []" "dt_apply_constraints dt = Some c"
    "named_ids (cn_matches_node_ids c) = {}"
  shows "{s \<in> set known. applies lib dt s known t} \<noteq> {} \<and>
    {s \<in> set known. applies lib dt s known t} =
      (if named_ids (cn_matches_server_ids c) \<inter> set known = {} then set known
       else named_ids (cn_matches_server_ids c) \<inter> set known)"
  using assms by (auto simp: applies_def matches_server_ids_iff matches_node_ids_iff)

definition demo_device_type :: device_type where
  "demo_device_type =
     \<lparr>dt_name = ''Pump'', dt_description = None, dt_enabled = True, dt_mappings = [],
      dt_apply_constraints =
        Some \<lparr>cn_matches_server_ids = [''4711'', '' ''], cn_matches_node_ids = [],
              cn_server_object_has_fragment = None, cn_browse_path_matches_regex = None,
              cn_server_has_node_with_values = None\<rparr>,
      dt_subscription_type = None, dt_overridden_subscriptions = [],
      dt_referenced_root_node_id = None, dt_referenced_namespace_table = [],
      dt_referenced_server_id = None, dt_referenced_server_name = None,
      dt_ua_event_mappings = None\<rparr>"

lemma applies_to_some_server_witness:
  "{s \<in> set [''plc-1'', ''plc-2'']. applies demo_lib demo_device_type s [''plc-1'', ''plc-2''] []} \<noteq> {}"
  using applies_to_some_server
    [of demo_device_type "[''plc-1'', ''plc-2'']" "the (dt_apply_constraints demo_device_type)"]
  by (simp add: demo_device_type_def named_ids_def)

end
