(* ===== verification/Resolve.thy ===== *)
theory Resolve
  imports Device_Model Namespace
begin

text \<open>
  From mapping entries to nodes and a delivery mode: \<open>crates/mapping/src/resolve.rs\<close>. \<open>plan\<close> drops
  what cannot be supported, \<open>set_resolved\<close> records what a browse path translation produced, and
  \<open>finish\<close> groups what is resolved by node and delivery mode.
\<close>

definition default_read_rate_ms :: u64 where
  "default_read_rate_ms = 5000"

section \<open>Data\<close>

datatype action =
    Measurement measurement_creation
  | Event event_creation
  | Alarm alarm_creation

datatype delivery =
    Subscription subscription_params
  | CyclicRead (rate_of: u64) (max_age_of: f64)

datatype read_schedule = ReadSchedule (rs_rate_ms: u64) (rs_max_age_ms: u64)

text \<open>The derived order: lexicographic in the fields.\<close>

instantiation read_schedule :: linorder
begin

definition less_eq_read_schedule :: "read_schedule \<Rightarrow> read_schedule \<Rightarrow> bool" where
  "s \<le> t \<longleftrightarrow>
     rs_rate_ms s < rs_rate_ms t \<or>
     rs_rate_ms s = rs_rate_ms t \<and> rs_max_age_ms s \<le> rs_max_age_ms t"

definition less_read_schedule :: "read_schedule \<Rightarrow> read_schedule \<Rightarrow> bool" where
  "s < t \<longleftrightarrow>
     rs_rate_ms s < rs_rate_ms t \<or>
     rs_rate_ms s = rs_rate_ms t \<and> rs_max_age_ms s < rs_max_age_ms t"

instance
  by standard
    (auto simp: less_eq_read_schedule_def less_read_schedule_def read_schedule.expand)

end

definition rs_max_age :: "read_schedule \<Rightarrow> f64" where
  "rs_max_age s = f64_of_int (uint (rs_max_age_ms s))"

record resolved_node =
  rn_node_id :: node_id
  rn_node_id_str :: string
  rn_actions :: "action list"
  rn_delivery :: delivery

definition read_schedule_of :: "delivery \<Rightarrow> read_schedule option" where
  "read_schedule_of d =
     (case d of
        CyclicRead rate age \<Rightarrow> Some (ReadSchedule rate (f64_to_u64 (f64_max_zero age)))
      | Subscription _ \<Rightarrow> None)"

definition node_read_schedule :: "resolved_node \<Rightarrow> read_schedule option" where
  "node_read_schedule n =
     (case rn_delivery n of
        CyclicRead rate age \<Rightarrow> Some (ReadSchedule rate (f64_to_u64 (f64_max_zero age)))
      | Subscription _ \<Rightarrow> None)"

definition node_subscription_parameters :: "resolved_node \<Rightarrow> subscription_params option" where
  "node_subscription_parameters n =
     (case rn_delivery n of Subscription p \<Rightarrow> Some p | CyclicRead _ _ \<Rightarrow> None)"

record resolved_mapping =
  rm_device_type_id :: string
  rm_device_type_name :: string
  rm_root_node_id :: string
  rm_nodes :: "resolved_node list"

datatype node_ref = Known node_id | Path "qualified_name list"

record entry =
  en_name :: string
  en_actions :: "action list"
  en_node_ref :: node_ref
  en_delivery :: delivery

record plan =
  pl_device_type_id :: string
  pl_device_type_name :: string
  pl_root_node_id :: node_id
  pl_entries :: "entry list"

section \<open>A resolved mapping\<close>

definition measurement_type :: "measurement_creation \<Rightarrow> string option" where
  "measurement_type m = non_blank (mc_type m)"

text \<open>The loop body of \<open>measurement_units\<close>.\<close>

definition add_unit ::
    "resolved_node \<Rightarrow> action \<Rightarrow> (string, (string \<times> string) list) btree \<Rightarrow>
     (string, (string \<times> string) list) btree" where
  "add_unit node a out =
     (case a of
        Measurement m \<Rightarrow>
          (case non_blank (mc_unit m) of
             None \<Rightarrow> out
           | Some u \<Rightarrow>
               (case measurement_type m of
                  None \<Rightarrow> out
                | Some ty \<Rightarrow> bt_push ty (series_name m (rn_node_id_str node), u) out))
      | _ \<Rightarrow> out)"

definition measurement_units ::
    "resolved_mapping \<Rightarrow> (string, (string \<times> string) list) btree" where
  "measurement_units rm =
     fold (\<lambda>node out. fold (add_unit node) (rn_actions node) out) (rm_nodes rm) []"

definition read_groups :: "resolved_mapping \<Rightarrow> (read_schedule, resolved_node list) btree" where
  "read_groups rm =
     fold (\<lambda>node out.
             case node_read_schedule node of
               None \<Rightarrow> out
             | Some schedule \<Rightarrow> bt_push schedule node out)
       (rm_nodes rm) []"

fun is_subscription :: "delivery \<Rightarrow> bool" where
  "is_subscription (Subscription _) = True"
| "is_subscription (CyclicRead _ _) = False"

definition subscribed_nodes :: "resolved_mapping \<Rightarrow> resolved_node list" where
  "subscribed_nodes rm = filter (\<lambda>n. is_subscription (rn_delivery n)) (rm_nodes rm)"

section \<open>Planning\<close>

definition delivery_of :: "subscription_type option \<Rightarrow> delivery option" where
  "delivery_of st =
     (case st of
        None \<Rightarrow> None
      | Some s \<Rightarrow>
          (case kind s of
             KSubscription \<Rightarrow>
               (let params = unwrap_or sp_default (st_subscription_parameters s) in
                if \<not> sp_is_valid params then None else Some (Subscription params))
           | KCyclicRead \<Rightarrow>
               (let params = st_cyclic_read_parameters s in
                Some (CyclicRead
                  (unwrap_or default_read_rate_ms (Option.bind params rate_ms))
                  (unwrap_or 0 (map_option max_age params))))
           | KNone \<Rightarrow> None))"

definition overrides_of ::
    "device_type \<Rightarrow> ns_table \<Rightarrow> (qualified_name list \<times> delivery option) list" where
  "overrides_of dt t =
     map (\<lambda>ov. (to_qualified_names t (os_browse_path ov), delivery_of (os_subscription_type ov)))
       (filter (\<lambda>ov. os_browse_path ov \<noteq> []) (dt_overridden_subscriptions dt))"

definition actions_of :: "mapping_entry \<Rightarrow> action list" where
  "actions_of e =
     (case me_measurement_creation e of
        Some m \<Rightarrow> (if measurement_type m \<noteq> None then [Measurement m] else [])
      | None \<Rightarrow> []) @
     (case me_event_creation e of
        Some v \<Rightarrow> (if is_some_and (\<lambda>t. trim t \<noteq> []) (ec_type v) then [Event v] else [])
      | None \<Rightarrow> []) @
     (case me_alarm_creation e of
        Some a \<Rightarrow> (if is_some_and (\<lambda>t. trim t \<noteq> []) (ac_type a) then [Alarm a] else [])
      | None \<Rightarrow> [])"

text \<open>The loop body of \<open>plan\<close>: \<open>None\<close> where the code continues with the next entry.\<close>

definition plan_entry ::
    "opc_lib \<Rightarrow> ns_table \<Rightarrow> delivery option \<Rightarrow> (qualified_name list \<times> delivery option) list \<Rightarrow>
     mapping_entry \<Rightarrow> entry option" where
  "plan_entry lib t dflt overrides e =
     (let name = unwrap_or ''<unnamed>'' (me_name e); actions = actions_of e in
      if actions = [] then None
      else if list_ex is_regex (me_browse_path e) then None
      else
        (let path = to_qualified_names t (me_browse_path e);
             node_ref =
               (case opt_filter (\<lambda>s. s \<noteq> []) (me_referenced_node_id e) of
                  Some node_id \<Rightarrow>
                    (case parse_node_id lib t node_id of
                       Inr i \<Rightarrow> Some (Known i)
                     | Inl _ \<Rightarrow> None)
                | None \<Rightarrow> (if me_browse_path e = [] then None else Some (Path path))) in
         case node_ref of
           None \<Rightarrow> None
         | Some r \<Rightarrow>
             (let delivery =
                    (case find (\<lambda>(p, _). p = path) overrides of
                       Some (_, d) \<Rightarrow> d
                     | None \<Rightarrow> dflt) in
              case delivery of
                None \<Rightarrow> None
              | Some d \<Rightarrow>
                  Some \<lparr>en_name = name, en_actions = actions, en_node_ref = r,
                        en_delivery = d\<rparr>)))"

definition plan_of ::
    "opc_lib \<Rightarrow> string \<Rightarrow> device_type \<Rightarrow> ns_table \<Rightarrow> mapping_error + plan" where
  "plan_of lib device_type_id dt t =
     (case (case dt_referenced_root_node_id dt of
              None \<Rightarrow> Inr (NodeId 0 (Numeric 84))
            | Some s \<Rightarrow> parse_node_id lib t s) of
        Inl e \<Rightarrow> Inl e
      | Inr root \<Rightarrow>
          (let dflt = delivery_of (dt_subscription_type dt);
               overrides = overrides_of dt t in
           Inr \<lparr>pl_device_type_id = device_type_id, pl_device_type_name = dt_name dt,
                pl_root_node_id = root,
                pl_entries = filter_map (plan_entry lib t dflt overrides) (dt_mappings dt)\<rparr>))"

section \<open>Resolving and finishing a plan\<close>

definition pending_paths :: "plan \<Rightarrow> (nat \<times> qualified_name list) list" where
  "pending_paths p =
     filter_map (\<lambda>(i, e). case en_node_ref e of Path path \<Rightarrow> Some (i, path) | Known _ \<Rightarrow> None)
       (enumerate 0 (pl_entries p))"

definition set_resolved :: "nat \<Rightarrow> node_id \<Rightarrow> plan \<Rightarrow> plan" where
  "set_resolved i n p =
     (case slice_get (pl_entries p) i of
        None \<Rightarrow> p
      | Some e \<Rightarrow> p\<lparr>pl_entries := (pl_entries p)[i := e\<lparr>en_node_ref := Known n\<rparr>]\<rparr>)"

definition entry_name :: "plan \<Rightarrow> nat \<Rightarrow> string" where
  "entry_name p i = unwrap_or ''<unknown>'' (map_option en_name (slice_get (pl_entries p) i))"

definition finish_entry :: "opc_lib \<Rightarrow> entry \<Rightarrow> resolved_node list \<Rightarrow> resolved_node list" where
  "finish_entry lib e nodes =
     (case en_node_ref e of
        Path _ \<Rightarrow> nodes
      | Known node_id \<Rightarrow>
          (case position (\<lambda>n. rn_node_id n = node_id \<and>
                    is_subscription (rn_delivery n) = is_subscription (en_delivery e) \<and>
                    node_read_schedule n = read_schedule_of (en_delivery e)) nodes of
             Some i \<Rightarrow>
               nodes[i := (nodes ! i)\<lparr>rn_actions := rn_actions (nodes ! i) @ en_actions e\<rparr>]
           | None \<Rightarrow>
               nodes @ [\<lparr>rn_node_id = node_id, rn_node_id_str = lib_node_id_str lib node_id,
                         rn_actions = en_actions e, rn_delivery = en_delivery e\<rparr>]))"

definition finish :: "opc_lib \<Rightarrow> plan \<Rightarrow> resolved_mapping" where
  "finish lib p =
     \<lparr>rm_device_type_id = pl_device_type_id p, rm_device_type_name = pl_device_type_name p,
      rm_root_node_id = lib_node_id_str lib (pl_root_node_id p),
      rm_nodes = fold (finish_entry lib) (pl_entries p) []\<rparr>"

section \<open>What planning keeps\<close>

lemma find_map_fst:
  "find (\<lambda>(p, _). p = k) (map (\<lambda>x. (f x, g x)) xs) =
   map_option (\<lambda>x. (f x, g x)) (find (\<lambda>x. f x = k) xs)"
  by (induction xs) auto

lemma find_filter: "find P (filter Q xs) = find (\<lambda>x. Q x \<and> P x) xs"
  by (induction xs) auto

text \<open>
  The \<open>subscriptionType\<close> that counts for an entry: that of the first override whose browse path
  means the same qualified names, else the device type's own.
\<close>

definition effective_subscription ::
    "device_type \<Rightarrow> ns_table \<Rightarrow> mapping_entry \<Rightarrow> subscription_type option" where
  "effective_subscription dt t e =
     (case find (\<lambda>ov. os_browse_path ov \<noteq> [] \<and>
              to_qualified_names t (os_browse_path ov) = to_qualified_names t (me_browse_path e))
         (dt_overridden_subscriptions dt) of
        Some ov \<Rightarrow> os_subscription_type ov
      | None \<Rightarrow> dt_subscription_type dt)"

lemma override_lookup:
  "(case find (\<lambda>(p, _). p = to_qualified_names t (me_browse_path e)) (overrides_of dt t) of
      Some (_, d) \<Rightarrow> d
    | None \<Rightarrow> delivery_of (dt_subscription_type dt)) =
   delivery_of (effective_subscription dt t e)"
  by (auto simp: overrides_of_def effective_subscription_def find_map_fst find_filter
      split: option.splits)

text \<open>The node an entry names: its NodeId where it has one, else its browse path.\<close>

definition names_node :: "opc_lib \<Rightarrow> ns_table \<Rightarrow> mapping_entry \<Rightarrow> node_ref \<Rightarrow> bool" where
  "names_node lib t e r \<longleftrightarrow>
     (case opt_filter (\<lambda>s. s \<noteq> []) (me_referenced_node_id e) of
        Some s \<Rightarrow> (\<exists>i. parse_node_id lib t s = Inr i \<and> r = Known i)
      | None \<Rightarrow> me_browse_path e \<noteq> [] \<and> r = Path (to_qualified_names t (me_browse_path e)))"

text \<open>
  C11. An entry of the device type becomes an entry of the plan exactly when it has an action, no
  regular expression in its browse path, names a node, and has a usable delivery mode, where an
  overridden subscription of the same browse path replaces the device type's default.
\<close>

theorem plan_entry_kept_iff:
  "plan_entry lib t (delivery_of (dt_subscription_type dt)) (overrides_of dt t) e = Some en \<longleftrightarrow>
     en_name en = unwrap_or ''<unnamed>'' (me_name e) \<and>
     actions_of e = en_actions en \<and> en_actions en \<noteq> [] \<and>
     \<not> list_ex is_regex (me_browse_path e) \<and>
     names_node lib t e (en_node_ref en) \<and>
     delivery_of (effective_subscription dt t e) = Some (en_delivery en)"
  unfolding plan_entry_def Let_def override_lookup names_node_def
  by (cases en)
    (auto simp del: opt_filter_eq_Some split: option.splits sum.splits if_splits)

text \<open>A delivery mode a server and the gateway's timers accept.\<close>

fun delivery_ok :: "delivery \<Rightarrow> bool" where
  "delivery_ok (Subscription p) = sp_is_valid p"
| "delivery_ok (CyclicRead r a) = (0 < r)"

lemma delivery_of_ok: "delivery_of st = Some d \<Longrightarrow> delivery_ok d"
  by (auto simp: delivery_of_def rate_ms_def default_read_rate_ms_def Let_def unwrap_or_def
      split: option.splits subscription_kind.splits if_splits)

fun action_type :: "action \<Rightarrow> string option" where
  "action_type (Measurement m) = mc_type m"
| "action_type (Event e) = ec_type e"
| "action_type (Alarm a) = ac_type a"

lemma actions_of_typed: "a \<in> set (actions_of e) \<Longrightarrow> non_blank (action_type a) \<noteq> None"
  by (auto simp: actions_of_def measurement_type_def non_blank_def is_some_and_iff
      split: option.splits if_splits)

lemma plan_of_entries:
  "plan_of lib i dt t = Inr p \<Longrightarrow>
     pl_entries p = filter_map (plan_entry lib t (delivery_of (dt_subscription_type dt))
       (overrides_of dt t)) (dt_mappings dt)"
  by (auto simp: plan_of_def Let_def split: sum.splits)

lemma plan_entries_ok:
  assumes "plan_of lib i dt t = Inr p" "en \<in> set (pl_entries p)"
  shows "en_actions en \<noteq> [] \<and>
    (\<forall>a \<in> set (en_actions en). non_blank (action_type a) \<noteq> None) \<and>
    delivery_ok (en_delivery en)"
proof -
  from assms obtain e where
    "plan_entry lib t (delivery_of (dt_subscription_type dt)) (overrides_of dt t) e = Some en"
    by (auto simp: plan_of_entries [OF assms(1)] set_filter_map)
  then have e: "actions_of e = en_actions en" "en_actions en \<noteq> []"
    and "delivery_of (effective_subscription dt t e) = Some (en_delivery en)"
    unfolding plan_entry_def Let_def override_lookup
    by (auto split: option.splits sum.splits if_splits)
  then show ?thesis using delivery_of_ok actions_of_typed [of _ e] by auto
qed

text \<open>
  C31. Every entry of a plan has something to publish, each action with a type that is not blank,
  and a delivery mode that can be set up: valid subscription parameters, or a cyclic read whose
  rate is not zero.
\<close>

theorem plan_well_formed:
  assumes "plan_of lib i dt t = Inr p" "en \<in> set (pl_entries p)"
  shows "en_actions en \<noteq> [] \<and>
    (\<forall>a \<in> set (en_actions en). non_blank (action_type a) \<noteq> None) \<and>
    delivery_ok (en_delivery en)"
  using assms by (rule plan_entries_ok)

definition demo_entry :: mapping_entry where
  "demo_entry =
     \<lparr>me_name = Some ''flow'', me_browse_path = [''2:Flow''], me_referenced_node_id = None,
      me_measurement_creation =
        Some \<lparr>mc_type = Some ''pump'', mc_series = Some ''flow'', mc_fragment_name = None,
              mc_unit = Some ''l/m'', mc_static_fragments = None\<rparr>,
      me_event_creation = None, me_alarm_creation = None, me_custom_action = None\<rparr>"

definition demo_plan_type :: device_type where
  "demo_plan_type =
     \<lparr>dt_name = ''Pump'', dt_description = None, dt_enabled = True, dt_mappings = [demo_entry],
      dt_apply_constraints = None,
      dt_subscription_type =
        Some \<lparr>st_type = Some ''CyclicRead'', st_cyclic_read_parameters = None,
              st_subscription_parameters = None\<rparr>,
      dt_overridden_subscriptions = [], dt_referenced_root_node_id = None,
      dt_referenced_namespace_table = [], dt_referenced_server_id = None,
      dt_referenced_server_name = None, dt_ua_event_mappings = None\<rparr>"

lemma demo_plan:
  "plan_of demo_lib ''4711'' demo_plan_type [] =
     Inr \<lparr>pl_device_type_id = ''4711'', pl_device_type_name = ''Pump'',
          pl_root_node_id = NodeId 0 (Numeric 84),
          pl_entries =
            [\<lparr>en_name = ''flow'',
              en_actions = [Measurement (the (me_measurement_creation demo_entry))],
              en_node_ref = Path [QName 2 ''Flow''], en_delivery = CyclicRead 5000 0\<rparr>]\<rparr>"
  by code_simp

lemma plan_well_formed_witness:
  "delivery_ok (CyclicRead 5000 0) \<and> non_blank (Some ''pump'') \<noteq> None"
proof -
  note w = plan_well_formed [OF demo_plan, of
      "\<lparr>en_name = ''flow'', en_actions = [Measurement (the (me_measurement_creation demo_entry))],
        en_node_ref = Path [QName 2 ''Flow''], en_delivery = CyclicRead 5000 0\<rparr>"]
  from w show ?thesis by (simp add: demo_entry_def)
qed

section \<open>Resolving\<close>

lemma set_resolved_entries:
  "pl_entries (set_resolved i n p) =
     (if i < length (pl_entries p)
      then (pl_entries p)[i := (pl_entries p ! i)\<lparr>en_node_ref := Known n\<rparr>] else pl_entries p)"
  by (simp add: set_resolved_def slice_get_def)

lemma set_pending_paths:
  "(i, path) \<in> set (pending_paths p) \<longleftrightarrow>
     i < length (pl_entries p) \<and> en_node_ref (pl_entries p ! i) = Path path"
proof -
  have "(i, path) \<in> set (pending_paths p) \<longleftrightarrow>
      (\<exists>e. (i, e) \<in> set (enumerate 0 (pl_entries p)) \<and> en_node_ref e = Path path)"
    by (force simp: pending_paths_def set_filter_map split: node_ref.splits)
  then show ?thesis by (auto simp: in_set_enumerate_eq)
qed

lemma pending_set_resolved:
  "set (pending_paths (set_resolved i n p)) = {(j, path) \<in> set (pending_paths p). j \<noteq> i}"
  by (auto simp: set_pending_paths set_resolved_entries nth_list_update split: if_splits)

text \<open>
  Recording a NodeId for every pending path leaves no path pending, so finishing the plan drops
  no entry; and nothing but the node references has changed.
\<close>

theorem resolve_all_pending:
  "pending_paths (fold (\<lambda>(i, _). set_resolved i (f i)) (pending_paths p) p) = [] \<and>
   map (\<lambda>e. (en_name e, en_actions e, en_delivery e))
     (pl_entries (fold (\<lambda>(i, _). set_resolved i (f i)) (pending_paths p) p)) =
   map (\<lambda>e. (en_name e, en_actions e, en_delivery e)) (pl_entries p)"
proof -
  have same: "map (\<lambda>e. (en_name e, en_actions e, en_delivery e)) (pl_entries (set_resolved i n q)) =
    map (\<lambda>e. (en_name e, en_actions e, en_delivery e)) (pl_entries q)" for i n q
    by (auto simp: set_resolved_entries map_update intro!: nth_equalityI simp: nth_list_update)
  have "set (pending_paths (fold (\<lambda>(i, _). set_resolved i (f i)) ps q)) =
      {(j, path) \<in> set (pending_paths q). j \<notin> fst ` set ps} \<and>
    map (\<lambda>e. (en_name e, en_actions e, en_delivery e))
      (pl_entries (fold (\<lambda>(i, _). set_resolved i (f i)) ps q)) =
    map (\<lambda>e. (en_name e, en_actions e, en_delivery e)) (pl_entries q)"
    for ps :: "(nat \<times> qualified_name list) list" and q
    by (induction ps arbitrary: q) (auto simp: pending_set_resolved same)
  note final = this [of "pending_paths p" p]
  have "{(j, path) \<in> set (pending_paths p). j \<notin> fst ` set (pending_paths p)} = {}" by force
  with final show ?thesis by simp
qed

section \<open>Grouping by node and delivery mode\<close>

type_synonym node_key = "node_id \<times> read_schedule option"

definition entry_key :: "entry \<Rightarrow> node_key option" where
  "entry_key e =
     (case en_node_ref e of
        Known n \<Rightarrow> Some (n, read_schedule_of (en_delivery e))
      | Path _ \<Rightarrow> None)"

definition node_key :: "resolved_node \<Rightarrow> node_key" where
  "node_key n = (rn_node_id n, node_read_schedule n)"

text \<open>The entries of one key, as one node: the first one decides its parameters.\<close>

definition group_node :: "opc_lib \<Rightarrow> entry list \<Rightarrow> node_key \<Rightarrow> resolved_node" where
  "group_node lib es k =
     (let es' = filter (\<lambda>e. entry_key e = Some k) es in
      \<lparr>rn_node_id = fst k, rn_node_id_str = lib_node_id_str lib (fst k),
       rn_actions = concat (map en_actions es'), rn_delivery = en_delivery (hd es')\<rparr>)"

text \<open>The distinct elements of a list in the order of their first occurrence.\<close>

definition firsts :: "'a list \<Rightarrow> 'a list" where
  "firsts xs = rev (remdups (rev xs))"

lemma firsts_snoc: "firsts (xs @ [x]) = (if x \<in> set xs then firsts xs else firsts xs @ [x])"
  by (simp add: firsts_def)

lemma set_firsts [simp]: "set (firsts xs) = set xs"
  by (simp add: firsts_def)

lemma distinct_firsts [simp]: "distinct (firsts xs)"
  by (simp add: firsts_def)

lemma node_schedule_of: "node_read_schedule n = read_schedule_of (rn_delivery n)"
  by (simp add: node_read_schedule_def read_schedule_of_def)

lemma schedule_subscription: "read_schedule_of d = None \<longleftrightarrow> is_subscription d"
  by (cases d) (auto simp: read_schedule_of_def)

lemma finish_entry_key:
  "finish_entry lib e nodes =
     (case entry_key e of
        None \<Rightarrow> nodes
      | Some k \<Rightarrow>
          (case position (\<lambda>n. node_key n = k) nodes of
             Some i \<Rightarrow>
               nodes[i := (nodes ! i)\<lparr>rn_actions := rn_actions (nodes ! i) @ en_actions e\<rparr>]
           | None \<Rightarrow>
               nodes @ [\<lparr>rn_node_id = fst k, rn_node_id_str = lib_node_id_str lib (fst k),
                         rn_actions = en_actions e, rn_delivery = en_delivery e\<rparr>]))"
proof (cases "en_node_ref e")
  case (Known n)
  have "(rn_node_id m = n \<and> is_subscription (rn_delivery m) = is_subscription (en_delivery e) \<and>
      node_read_schedule m = read_schedule_of (en_delivery e)) =
    (node_key m = (n, read_schedule_of (en_delivery e)))" for m
    using schedule_subscription [of "rn_delivery m"] schedule_subscription [of "en_delivery e"]
    unfolding node_key_def node_schedule_of prod.inject by metis
  with Known show ?thesis by (simp add: finish_entry_def entry_key_def split: option.split)
qed (simp add: finish_entry_def entry_key_def)

lemma entry_key_schedule:
  "entry_key e = Some k \<Longrightarrow> read_schedule_of (en_delivery e) = snd k"
  by (auto simp: entry_key_def split: node_ref.splits)

lemma group_node_key:
  assumes "k \<in> set (filter_map entry_key es)"
  shows "node_key (group_node lib es k) = k"
proof -
  let ?es = "filter (\<lambda>e. entry_key e = Some k) es"
  from assms have "?es \<noteq> []" by (auto simp: set_filter_map filter_empty_conv)
  then have "hd ?es \<in> set ?es" by (rule hd_in_set)
  then have "entry_key (hd ?es) = Some k" by simp
  then show ?thesis
    by (simp add: node_key_def group_node_def Let_def node_schedule_of entry_key_schedule)
qed

lemma group_node_snoc_other:
  "entry_key e \<noteq> Some k \<Longrightarrow> group_node lib (es @ [e]) k = group_node lib es k"
  by (simp add: group_node_def)

lemma group_node_snoc_same:
  assumes "entry_key e = Some k" "k \<in> set (filter_map entry_key es)"
  shows "group_node lib (es @ [e]) k =
    (group_node lib es k)\<lparr>rn_actions := rn_actions (group_node lib es k) @ en_actions e\<rparr>"
proof -
  have "filter (\<lambda>e. entry_key e = Some k) es \<noteq> []"
    using assms(2) by (auto simp: set_filter_map filter_empty_conv)
  with assms(1) show ?thesis by (simp add: group_node_def Let_def)
qed

lemma group_nodes_position:
  assumes "distinct ks" "\<forall>k \<in> set ks. node_key (group_node lib es k) = k" "i < length ks"
  shows "position (\<lambda>n. node_key n = ks ! i) (map (group_node lib es) ks) = Some i"
proof -
  have "node_key (group_node lib es (ks ! j)) = ks ! i \<longleftrightarrow> j = i" if "j < length ks" for j
    using that assms nth_eq_iff_index_eq nth_mem by metis
  with assms(3) show ?thesis by (auto simp: position_Some)
qed

lemma group_nodes_append:
  assumes "distinct ks" "i < length ks" "entry_key e = Some (ks ! i)"
    and "ks ! i \<in> set (filter_map entry_key es)"
  shows "(map (group_node lib es) ks)
      [i := (group_node lib es (ks ! i))
         \<lparr>rn_actions := rn_actions (group_node lib es (ks ! i)) @ en_actions e\<rparr>] =
    map (group_node lib (es @ [e])) ks"
proof (intro nth_equalityI)
  fix j assume "j < length ((map (group_node lib es) ks)
      [i := (group_node lib es (ks ! i))
         \<lparr>rn_actions := rn_actions (group_node lib es (ks ! i)) @ en_actions e\<rparr>])"
  then have j: "j < length ks" by simp
  have "ks ! j = ks ! i \<longleftrightarrow> j = i" using assms(1, 2) j nth_eq_iff_index_eq by metis
  then show "(map (group_node lib es) ks)
      [i := (group_node lib es (ks ! i))
         \<lparr>rn_actions := rn_actions (group_node lib es (ks ! i)) @ en_actions e\<rparr>] ! j =
    map (group_node lib (es @ [e])) ks ! j"
    using j assms(2-) group_node_snoc_same [OF assms(3)]
      group_node_snoc_other [of e "ks ! j" lib es]
    by (auto simp: nth_list_update)
qed simp

lemma finish_entries:
  "fold (finish_entry lib) es [] = map (group_node lib es) (firsts (filter_map entry_key es))"
proof (induction es rule: rev_induct)
  case Nil
  then show ?case by (simp add: firsts_def)
next
  case (snoc e es)
  let ?ks = "firsts (filter_map entry_key es)"
  have keys: "\<forall>k \<in> set ?ks. node_key (group_node lib es k) = k" by (simp add: group_node_key)
  consider "entry_key e = None" | i where "i < length ?ks" "entry_key e = Some (?ks ! i)"
    | k where "entry_key e = Some k" "k \<notin> set ?ks"
    by (metis in_set_conv_nth not_None_eq)
  then show ?case
  proof cases
    case 1
    with snoc show ?thesis by (simp add: finish_entry_key group_node_def)
  next
    case (2 i)
    then have "?ks ! i \<in> set (filter_map entry_key es)" by (metis nth_mem set_firsts)
    with 2 group_nodes_append [OF distinct_firsts 2 this, of lib]
      group_nodes_position [OF distinct_firsts keys 2(1)] snoc
    show ?thesis by (simp add: finish_entry_key firsts_snoc)
  next
    case (3 k)
    then have "filter (\<lambda>e. entry_key e = Some k) es = []"
      by (auto simp: set_filter_map filter_empty_conv)
    with 3 have "group_node lib (es @ [e]) k =
        \<lparr>rn_node_id = fst k, rn_node_id_str = lib_node_id_str lib (fst k),
         rn_actions = en_actions e, rn_delivery = en_delivery e\<rparr>"
      by (simp add: group_node_def)
    moreover have "position (\<lambda>n. node_key n = k) (map (group_node lib es) ?ks) = None"
      using keys 3(2) by (auto simp: position_None)
    moreover have "group_node lib (es @ [e]) k' = group_node lib es k'" if "k' \<in> set ?ks" for k'
      using that 3 by (intro group_node_snoc_other) auto
    ultimately show ?thesis
      using snoc 3 by (simp add: finish_entry_key firsts_snoc)
  qed
qed

lemma finish_delivery_ok:
  assumes "\<forall>e \<in> set (pl_entries p). delivery_ok (en_delivery e)" "n \<in> set (rm_nodes (finish lib p))"
  shows "delivery_ok (rn_delivery n)"
proof -
  from assms(2) obtain k where k: "k \<in> set (filter_map entry_key (pl_entries p))"
    and n: "n = group_node lib (pl_entries p) k"
    by (auto simp: finish_def finish_entries)
  let ?es = "filter (\<lambda>e. entry_key e = Some k) (pl_entries p)"
  from k have "?es \<noteq> []" by (auto simp: set_filter_map filter_empty_conv)
  then have "hd ?es \<in> set (pl_entries p)" using hd_in_set by fastforce
  with assms(1) n show ?thesis by (simp add: group_node_def Let_def)
qed

text \<open>
  C18. Finishing a plan groups its resolved entries: one node for every NodeId and delivery mode, in
  the order they first occur, with the actions of all their entries in order. No action of a
  resolved entry is lost and no two nodes share a NodeId and a mode.
\<close>

theorem finish_groups:
  "rm_nodes (finish lib p) =
     map (group_node lib (pl_entries p)) (firsts (filter_map entry_key (pl_entries p))) \<and>
   distinct (map node_key (rm_nodes (finish lib p)))"
proof -
  have "map (\<lambda>k. node_key (group_node lib (pl_entries p) k))
      (firsts (filter_map entry_key (pl_entries p))) = firsts (filter_map entry_key (pl_entries p))"
    by (intro map_idI) (simp add: group_node_key)
  then show ?thesis by (simp add: finish_def finish_entries comp_def)
qed

section \<open>Schedules and units\<close>

lemma fold_opt_push:
  "fold (\<lambda>x m. case f x of None \<Rightarrow> m | Some (k, v) \<Rightarrow> bt_push k v m) xs m =
   fold (\<lambda>kv. bt_push (fst kv) (snd kv)) (filter_map f xs) m"
  by (induction xs arbitrary: m) (auto split: option.splits)

lemma get_pushed:
  "bt_get (fold (\<lambda>kv. bt_push (fst kv) (snd kv)) kvs []) k =
     (if filter (\<lambda>kv. fst kv = k) kvs = [] then None
      else Some (map snd (filter (\<lambda>kv. fst kv = k) kvs)))"
  unfolding bt_push_groups by (rule btg.get_group_emp)

lemma inv_pushed: "bt_inv (fold (\<lambda>kv. bt_push (fst kv) (snd kv)) kvs [])"
  unfolding bt_push_groups by (rule btg.inv_group) (rule bt.inv_emp)

definition scheduled :: "resolved_node \<Rightarrow> (read_schedule \<times> resolved_node) option" where
  "scheduled n = map_option (\<lambda>s. (s, n)) (node_read_schedule n)"

lemma read_groups_pushed:
  "read_groups rm =
     fold (\<lambda>kv. bt_push (fst kv) (snd kv)) (filter_map scheduled (rm_nodes rm)) []"
proof -
  have "(\<lambda>node out. case node_read_schedule node of None \<Rightarrow> out
            | Some schedule \<Rightarrow> bt_push schedule node out) =
      (\<lambda>node out. case scheduled node of None \<Rightarrow> out | Some (k, v) \<Rightarrow> bt_push k v out)"
    by (auto simp: scheduled_def fun_eq_iff split: option.splits)
  then show ?thesis by (simp only: read_groups_def fold_opt_push)
qed

lemma scheduled_filter:
  "map snd (filter (\<lambda>kv. fst kv = s) (filter_map scheduled ns)) =
   filter (\<lambda>n. node_read_schedule n = Some s) ns"
  by (induction ns) (auto simp: scheduled_def split: option.splits)

lemma read_groups_member:
  assumes "(s, ns) \<in> set (read_groups rm)"
  shows "ns \<noteq> [] \<and> set ns \<subseteq> set (rm_nodes rm) \<and> (\<forall>n \<in> set ns. node_read_schedule n = Some s)"
proof -
  have inv: "bt_inv (read_groups rm)" using inv_pushed by (simp add: read_groups_pushed)
  from assms have "bt_get (read_groups rm) s = Some ns" using bt.entries_iff [OF inv] by simp
  then have "ns = filter (\<lambda>n. node_read_schedule n = Some s) (rm_nodes rm)"
    "map snd (filter (\<lambda>kv. fst kv = s) (filter_map scheduled (rm_nodes rm))) \<noteq> []"
    unfolding read_groups_pushed get_pushed scheduled_filter [symmetric] by (auto split: if_splits)
  then show ?thesis unfolding scheduled_filter by auto
qed

text \<open>
  Every node of a resolved mapping is delivered in exactly one way: the group of a schedule
  holds the nodes with that schedule, in order, there is no empty group, and the subscribed nodes
  are those with none. The groups are in schedule order.
\<close>

theorem nodes_delivered_once:
  "bt_inv (read_groups rm) \<and>
   bt_get (read_groups rm) s =
     (case filter (\<lambda>n. node_read_schedule n = Some s) (rm_nodes rm) of
        [] \<Rightarrow> None
      | n # ns \<Rightarrow> Some (n # ns)) \<and>
   subscribed_nodes rm = filter (\<lambda>n. node_read_schedule n = None) (rm_nodes rm)"
proof -
  have "bt_get (read_groups rm) s =
     (case filter (\<lambda>n. node_read_schedule n = Some s) (rm_nodes rm) of
        [] \<Rightarrow> None | n # ns \<Rightarrow> Some (n # ns))"
    unfolding read_groups_pushed get_pushed scheduled_filter [symmetric]
    by (auto split: list.splits)
  moreover have "subscribed_nodes rm = filter (\<lambda>n. node_read_schedule n = None) (rm_nodes rm)"
    by (simp add: subscribed_nodes_def node_schedule_of schedule_subscription)
  ultimately show ?thesis using inv_pushed by (simp add: read_groups_pushed)
qed

definition unit_of :: "resolved_node \<times> action \<Rightarrow> (string \<times> string \<times> string) option" where
  "unit_of na =
     (case na of
        (n, Measurement m) \<Rightarrow>
          (case (non_blank (mc_unit m), measurement_type m) of
             (Some u, Some ty) \<Rightarrow> Some (ty, series_name m (rn_node_id_str n), u)
           | _ \<Rightarrow> None)
      | _ \<Rightarrow> None)"

definition node_actions :: "resolved_mapping \<Rightarrow> (resolved_node \<times> action) list" where
  "node_actions rm = concat (map (\<lambda>n. map (Pair n) (rn_actions n)) (rm_nodes rm))"

lemma measurement_units_pushed:
  "measurement_units rm =
     fold (\<lambda>kv. bt_push (fst kv) (snd kv)) (filter_map unit_of (node_actions rm)) []"
proof -
  have step: "add_unit n a out =
      (case unit_of (n, a) of None \<Rightarrow> out | Some (k, v) \<Rightarrow> bt_push k v out)" for n a out
    by (auto simp: add_unit_def unit_of_def split: action.splits option.splits)
  have node: "fold (add_unit n) as m =
      fold (\<lambda>na out. case unit_of na of None \<Rightarrow> out | Some (k, v) \<Rightarrow> bt_push k v out)
        (map (Pair n) as) m" for n as m
    by (induction as arbitrary: m) (simp_all add: step)
  have "fold (\<lambda>node out. fold (add_unit node) (rn_actions node) out) ns m =
      fold (\<lambda>na out. case unit_of na of None \<Rightarrow> out | Some (k, v) \<Rightarrow> bt_push k v out)
        (concat (map (\<lambda>n. map (Pair n) (rn_actions n)) ns)) m" for ns m
    by (induction ns arbitrary: m) (simp_all add: node)
  then show ?thesis by (simp only: measurement_units_def node_actions_def fold_opt_push)
qed

lemma measurement_units_get:
  "bt_get (measurement_units rm) ty =
     (let us = map snd (filter (\<lambda>u. fst u = ty) (filter_map unit_of (node_actions rm)))
      in if us = [] then None else Some us)"
  unfolding measurement_units_pushed get_pushed by (auto simp: Let_def filter_empty_conv)

end
