(* ===== verification/Opc_Value.thy ===== *)
theory Opc_Value
  imports Opc_Types Json
begin

text \<open>Reading OPC UA values as numbers, flags, text and JSON: \<open>crates/mapping/src/value.rs\<close>.\<close>

definition is_bad :: "opc_lib \<Rightarrow> data_value \<Rightarrow> bool" where
  "is_bad lib v \<longleftrightarrow>
     \<not> is_none_or (lib_is_good lib) (dv_status v) \<or> dv_value v = None \<or> dv_value v = Some VEmpty"

definition as_number :: "variant \<Rightarrow> f64 option" where
  "as_number v =
     opt_filter f64_is_finite
       (case v of
          VBoolean b \<Rightarrow> Some (f64_of_int (if b then 1 else 0))
        | VSByte x \<Rightarrow> Some (f64_of_int (sint x))
        | VByte x \<Rightarrow> Some (f64_of_int (uint x))
        | VInt16 x \<Rightarrow> Some (f64_of_int (sint x))
        | VUInt16 x \<Rightarrow> Some (f64_of_int (uint x))
        | VInt32 x \<Rightarrow> Some (f64_of_int (sint x))
        | VUInt32 x \<Rightarrow> Some (f64_of_int (uint x))
        | VInt64 x \<Rightarrow> Some (f64_of_int (sint x))
        | VUInt64 x \<Rightarrow> Some (f64_of_int (uint x))
        | VFloat x \<Rightarrow> Some (f64_of_f32 x)
        | VDouble x \<Rightarrow> Some x
        | VString s \<Rightarrow> parse_f64 (trim s)
        | _ \<Rightarrow> None)"

definition value_as_bool :: "variant \<Rightarrow> bool option" where
  "value_as_bool v =
     (case v of
        VBoolean b \<Rightarrow> Some b
      | VString s \<Rightarrow> Some (eq_ignore_ascii_case s ''true'')
      | other \<Rightarrow> map_option f64_gt_zero (as_number other))"

definition show_bool :: "bool \<Rightarrow> string" where
  "show_bool b = (if b then ''true'' else ''false'')"

definition as_text :: "opc_lib \<Rightarrow> variant \<Rightarrow> string" where
  "as_text lib v =
     (case v of
        VEmpty \<Rightarrow> []
      | VBoolean b \<Rightarrow> show_bool b
      | VSByte x \<Rightarrow> show_int (sint x)
      | VByte x \<Rightarrow> show_int (uint x)
      | VInt16 x \<Rightarrow> show_int (sint x)
      | VUInt16 x \<Rightarrow> show_int (uint x)
      | VInt32 x \<Rightarrow> show_int (sint x)
      | VUInt32 x \<Rightarrow> show_int (uint x)
      | VInt64 x \<Rightarrow> show_int (sint x)
      | VUInt64 x \<Rightarrow> show_int (uint x)
      | VFloat x \<Rightarrow> lib_f32_str lib x
      | VDouble x \<Rightarrow> lib_f64_str lib x
      | VString s \<Rightarrow> s
      | VDateTime t \<Rightarrow> lib_rfc3339 lib t
      | VLocalizedText s \<Rightarrow> s
      | other \<Rightarrow> lib_debug lib other)"

definition as_json :: "opc_lib \<Rightarrow> variant \<Rightarrow> json" where
  "as_json lib v =
     (case v of
        VEmpty \<Rightarrow> JNull
      | VBoolean b \<Rightarrow> JBool b
      | VString s \<Rightarrow> JStr s
      | VDateTime t \<Rightarrow> JStr (lib_rfc3339 lib t)
      | VLocalizedText s \<Rightarrow> JStr s
      | other \<Rightarrow>
          (case as_number other of
             Some n \<Rightarrow>
               (case num_from_f64 n of Some k \<Rightarrow> JNum k | None \<Rightarrow> JStr (as_text lib other))
           | None \<Rightarrow> JStr (as_text lib other)))"

section \<open>Numbers\<close>

lemma abs_sint_less: "\<bar>sint (w :: 'a::len word)\<bar> < 2 ^ 64" if "LENGTH('a) \<le> 64"
proof -
  have "- (2 ^ (LENGTH('a) - 1)) \<le> sint w" "sint w < 2 ^ (LENGTH('a) - 1)"
    by (rule sint_ge) (rule sint_lt)
  moreover have "(2::int) ^ (LENGTH('a) - 1) < 2 ^ 64"
    using that by (intro power_strict_increasing) auto
  ultimately show ?thesis by linarith
qed

lemma abs_uint_less: "\<bar>uint (w :: 'a::len word)\<bar> < 2 ^ 64" if "LENGTH('a) \<le> 64"
proof -
  have "uint w < 2 ^ LENGTH('a)" by (rule uint_lt2p)
  also have "(2::int) ^ LENGTH('a) \<le> 2 ^ 64" using that by (intro power_increasing) auto
  finally show ?thesis by simp
qed

lemmas f64_word_finite =
  f64_of_int_finite [OF abs_sint_less] f64_of_int_finite [OF abs_uint_less]

lemmas f64_word_gt_zero =
  f64_gt_zero_of_int [OF abs_sint_less] f64_gt_zero_of_int [OF abs_uint_less]

lemma f64_bool_finite: "f64_is_finite (f64_of_int (if b then 1 else 0))"
  by (rule f64_of_int_finite) simp

lemma as_number_int:
  "as_number (VSByte b) = Some (f64_of_int (sint b))"
  "as_number (VByte b) = Some (f64_of_int (uint b))"
  "as_number (VInt16 h) = Some (f64_of_int (sint h))"
  "as_number (VUInt16 h) = Some (f64_of_int (uint h))"
  "as_number (VInt32 w) = Some (f64_of_int (sint w))"
  "as_number (VUInt32 w) = Some (f64_of_int (uint w))"
  "as_number (VInt64 d) = Some (f64_of_int (sint d))"
  "as_number (VUInt64 d) = Some (f64_of_int (uint d))"
  by (simp_all add: as_number_def f64_word_finite)



section \<open>Alarm flags\<close>

lemma uint_pos_iff: "(0 < uint x) = (x \<noteq> 0)" for x :: "'a::len word"
  by (metis less_le uint_0_iff uint_ge_0)

text \<open>
  An alarm is active exactly when an integer value is above zero, whatever its width and sign;
  a Boolean is its own flag, and a string is active only when it spells \<open>true\<close>.
\<close>

theorem value_as_bool_spec:
  "value_as_bool (VBoolean b) = Some b \<and>
   value_as_bool (VString s) = Some (to_ascii_lowercase s = ''true'') \<and>
   value_as_bool (VSByte x1) = Some (0 < sint x1) \<and> value_as_bool (VByte x1) = Some (x1 \<noteq> 0) \<and>
   value_as_bool (VInt16 x2) = Some (0 < sint x2) \<and> value_as_bool (VUInt16 x2) = Some (x2 \<noteq> 0) \<and>
   value_as_bool (VInt32 x3) = Some (0 < sint x3) \<and> value_as_bool (VUInt32 x3) = Some (x3 \<noteq> 0) \<and>
   value_as_bool (VInt64 x4) = Some (0 < sint x4) \<and> value_as_bool (VUInt64 x4) = Some (x4 \<noteq> 0)"
proof -
  have "to_ascii_lowercase ''true'' = ''true''" by code_simp
  then show ?thesis
    by (simp add: value_as_bool_def as_number_int f64_word_gt_zero
        uint_pos_iff eq_ignore_ascii_case_def)
qed

text \<open>
  A value is rendered as a JSON number only through \<open>as_number\<close>; the fall-back to text for a
  number JSON cannot hold is unreachable.
\<close>

lemma as_json_number:
  "as_json lib v = JNum k \<Longrightarrow> \<exists>n. as_number v = Some n \<and> k = Flt n"
  by (auto simp: as_json_def num_from_f64_def split: variant.splits option.splits if_splits)

end
