(* ===== verification/Payload.thy ===== *)
theory Payload
  imports Device_Model Opc_Value
begin

text \<open>
  The thin-edge payloads: \<open>crates/mapping/src/payload.rs\<close>. The clock is \<open>lib_now\<close>. A
  \<open>serde_json\<close> map is a \<open>BTreeMap\<close>.
\<close>

type_synonym fragments = "(string, json) btree"

definition timestamp :: "opc_lib \<Rightarrow> data_value \<Rightarrow> string" where
  "timestamp lib v =
     lib_rfc3339 lib
       (unwrap_or (lib_now lib) (opt_or (dv_source_timestamp v) (dv_server_timestamp v)))"

section \<open>Measurements\<close>

record measurement_builder =
  mb_fragments :: fragments
  mb_time :: "string option"
  mb_series_count :: nat

definition mb_new :: measurement_builder where
  "mb_new = \<lparr>mb_fragments = [], mb_time = None, mb_series_count = 0\<rparr>"

text \<open>\<open>entry(..).or_insert_with(..).as_object_mut().map(|f| f.insert(..))\<close>.\<close>

definition insert_series :: "string \<Rightarrow> string \<Rightarrow> json \<Rightarrow> fragments \<Rightarrow> fragments" where
  "insert_series fragment series n m =
     (let m = bt_or_insert fragment (JObj []) m in
      case bt_get m fragment of
        Some (JObj f) \<Rightarrow> bt_insert fragment (JObj (bt_insert series n f)) m
      | _ \<Rightarrow> m)"

definition add_static_fragments :: "string list option \<Rightarrow> fragments \<Rightarrow> fragments" where
  "add_static_fragments fs m = fold (\<lambda>f. bt_or_insert f (JObj [])) (unwrap_or [] fs) m"

definition mb_add ::
    "opc_lib \<Rightarrow> measurement_creation \<Rightarrow> string \<Rightarrow> data_value \<Rightarrow> measurement_builder \<Rightarrow>
     bool \<times> measurement_builder" where
  "mb_add lib creation node_id v b =
     (case dv_value v of
        None \<Rightarrow> (False, b)
      | Some variant \<Rightarrow>
          (case as_number variant of
             None \<Rightarrow> (False, b)
           | Some x \<Rightarrow>
               (case num_from_f64 x of
                  None \<Rightarrow> (False, b)
                | Some n \<Rightarrow>
                    (let m = insert_series (fragment_name creation node_id)
                               (series_name creation node_id) (JNum n) (mb_fragments b);
                         time = (case mb_time b of
                                   None \<Rightarrow> Some (timestamp lib v) | Some t \<Rightarrow> Some t) in
                     (True,
                      \<lparr>mb_fragments = add_static_fragments (mc_static_fragments creation) m,
                       mb_time = time, mb_series_count = mb_series_count b + 1\<rparr>)))))"

definition mb_is_empty :: "measurement_builder \<Rightarrow> bool" where
  "mb_is_empty b \<longleftrightarrow> mb_series_count b = 0"

definition mb_build :: "opc_lib \<Rightarrow> measurement_builder \<Rightarrow> json option" where
  "mb_build lib b =
     (if mb_series_count b = 0 then None
      else Some (JObj (bt_insert ''time''
             (JStr (unwrap_or (lib_rfc3339 lib (lib_now lib)) (mb_time b))) (mb_fragments b))))"

definition measurement_meta :: "(string \<times> string) list \<Rightarrow> json option" where
  "measurement_meta series_units =
     (if series_units = [] then None
      else Some (JObj (fold (\<lambda>(series, u). bt_insert series (json_object [(''unit'', JStr u)]))
             series_units [])))"

section \<open>Events and alarms\<close>

definition node_id_fragment_prefix :: string where
  "node_id_fragment_prefix = ''c8y_ua_SourceNodeId_''"

definition value_placeholder :: string where
  "value_placeholder = ''${value}''"

definition opt_str_json :: "string option \<Rightarrow> json" where
  "opt_str_json x = (case x of None \<Rightarrow> JNull | Some s \<Rightarrow> JStr s)"

definition event_payload :: "opc_lib \<Rightarrow> event_creation \<Rightarrow> string \<Rightarrow> data_value \<Rightarrow> json" where
  "event_payload lib creation node_id v =
     (let variant = unwrap_or VEmpty (dv_value v);
          txt = replace_str value_placeholder (as_text lib variant)
                   (unwrap_or [] (ec_text creation));
          data = json_object
            [(''value'', as_json lib variant),
             (''statusCode'',
                case dv_status v of None \<Rightarrow> JNull | Some s \<Rightarrow> JNum (PosInt (ucast s))),
             (''sourceTimestamp'',
                opt_str_json (map_option (lib_rfc3339 lib) (dv_source_timestamp v))),
             (''serverTimestamp'',
                opt_str_json (map_option (lib_rfc3339 lib) (dv_server_timestamp v)))];
          out = bt_insert ''time'' (JStr (timestamp lib v)) [];
          out = bt_insert ''text'' (JStr txt) out;
          out = bt_insert (node_id_fragment_prefix @ node_id) (JObj []) out;
          out = bt_insert ''c8y_DataValue'' data out in
      JObj (add_static_fragments (ec_static_fragments creation) out))"

definition severity :: "opc_lib \<Rightarrow> alarm_creation \<Rightarrow> string" where
  "severity lib creation =
     to_lowercase (lib_lower lib) (unwrap_or ''major'' (non_blank (ac_severity creation)))"

definition alarm_payload :: "opc_lib \<Rightarrow> alarm_creation \<Rightarrow> string \<Rightarrow> data_value \<Rightarrow> json" where
  "alarm_payload lib creation node_id v =
     (let out = bt_insert ''time'' (JStr (timestamp lib v)) [];
          out = bt_insert ''text'' (JStr (unwrap_or [] (ac_text creation))) out;
          out = bt_insert ''severity'' (JStr (severity lib creation)) out;
          out = bt_insert (node_id_fragment_prefix @ node_id) (JObj []) out in
      JObj (add_static_fragments (ac_static_fragments creation) out))"

section \<open>What a measurement message holds\<close>

lemma bt_get_add_static [simp]:
  "bt_get (add_static_fragments fs m) k =
     (case bt_get m k of
        Some v \<Rightarrow> Some v
      | None \<Rightarrow> (if k \<in> set (unwrap_or [] fs) then Some (JObj []) else None))"
proof -
  have "bt_get (fold (\<lambda>f. bt_or_insert f (JObj [])) l m) k =
     (case bt_get m k of Some v \<Rightarrow> Some v
      | None \<Rightarrow> (if k \<in> set l then Some (JObj []) else None))" for l
    by (induction l arbitrary: m) (auto split: option.splits)
  then show ?thesis by (simp add: add_static_fragments_def)
qed

text \<open>The value a set of fragments has for a series.\<close>

definition series_value :: "fragments \<Rightarrow> string \<Rightarrow> string \<Rightarrow> json option" where
  "series_value m fragment series =
     (case bt_get m fragment of Some (JObj f) \<Rightarrow> bt_get f series | _ \<Rightarrow> None)"

definition all_objects :: "fragments \<Rightarrow> bool" where
  "all_objects m \<longleftrightarrow> (\<forall>k v. bt_get m k = Some v \<longrightarrow> (\<exists>f. v = JObj f))"

lemma all_objectsD: "all_objects m \<Longrightarrow> bt_get m k = Some v \<Longrightarrow> \<exists>f. v = JObj f"
  by (simp add: all_objects_def)

lemma insert_series_value:
  assumes "all_objects m"
  shows "series_value (insert_series f s n m) f' s' =
    (if (f', s') = (f, s) then Some n else series_value m f' s')"
  using all_objectsD [OF assms, of f]
  by (cases "bt_get m f") (auto simp: insert_series_def series_value_def Let_def)

lemma insert_series_objects: "all_objects m \<Longrightarrow> all_objects (insert_series f s n m)"
proof -
  assume m: "all_objects m"
  then obtain g where "unwrap_or (JObj []) (bt_get m f) = JObj g"
    using all_objectsD [OF m, of f] by (cases "bt_get m f") auto
  then show ?thesis
    using m by (auto simp: insert_series_def Let_def all_objects_def)
qed

lemma add_static_value: "series_value (add_static_fragments fs m) f s = series_value m f s"
  by (auto simp: series_value_def split: option.splits)

lemma add_static_objects: "all_objects m \<Longrightarrow> all_objects (add_static_fragments fs m)"
  by (auto simp: all_objects_def split: option.splits if_splits)

text \<open>
  The reference: the readings whose value is a number, in order, each with the fragment and the
  series it is published under.
\<close>

type_synonym reading = "measurement_creation \<times> string \<times> data_value"

definition numeric :: "reading \<Rightarrow> ((string \<times> string) \<times> json) option" where
  "numeric r =
     (case r of (c, n, v) \<Rightarrow>
        map_option (\<lambda>x. ((fragment_name c n, series_name c n), JNum (Flt x)))
          (Option.bind (dv_value v) as_number))"

definition mb_adds :: "opc_lib \<Rightarrow> reading list \<Rightarrow> measurement_builder \<Rightarrow> measurement_builder" where
  "mb_adds lib rs b = fold (\<lambda>(c, n, v) b. snd (mb_add lib c n v b)) rs b"

lemma as_number_finite: "as_number v = Some x \<Longrightarrow> f64_is_finite x"
  by (simp add: as_number_def)

lemma mb_add_cases:
  "mb_add lib c n v b =
     (case numeric (c, n, v) of
        None \<Rightarrow> (False, b)
      | Some ((f, s), x) \<Rightarrow>
          (True,
           \<lparr>mb_fragments =
              add_static_fragments (mc_static_fragments c) (insert_series f s x (mb_fragments b)),
            mb_time = Some (unwrap_or (timestamp lib v) (mb_time b)),
            mb_series_count = mb_series_count b + 1\<rparr>))"
  by (auto simp: mb_add_def numeric_def num_from_f64_def Let_def split: option.splits
      dest: as_number_finite)

lemma mb_adds_value:
  assumes "all_objects (mb_fragments b)"
  shows "all_objects (mb_fragments (mb_adds lib rs b)) \<and>
    series_value (mb_fragments (mb_adds lib rs b)) f s =
      (case map_of (rev (filter_map numeric rs)) (f, s) of
         Some v \<Rightarrow> Some v
       | None \<Rightarrow> series_value (mb_fragments b) f s)"
  using assms
proof (induction rs arbitrary: b)
  case Nil
  then show ?case by (simp add: mb_adds_def)
next
  case (Cons r rs)
  obtain c n v where r: "r = (c, n, v)" by (cases r)
  have step: "mb_adds lib (r # rs) b = mb_adds lib rs (snd (mb_add lib c n v b))"
    by (simp add: mb_adds_def r)
  show ?case
  proof (cases "numeric r")
    case None
    with Cons step r show ?thesis by (simp add: mb_add_cases)
  next
    case (Some fx)
    obtain g t x where fx: "fx = ((g, t), x)" by (metis prod.exhaust)
    let ?b = "snd (mb_add lib c n v b)"
    have "mb_fragments ?b =
      add_static_fragments (mc_static_fragments c) (insert_series g t x (mb_fragments b))"
      using Some fx r by (simp add: mb_add_cases)
    then have "all_objects (mb_fragments ?b)"
      "series_value (mb_fragments ?b) f s =
       (if (f, s) = (g, t) then Some x else series_value (mb_fragments b) f s)"
      using Cons.prems
      by (simp_all only: add_static_value insert_series_value add_static_objects
          insert_series_objects)
    with Cons.IH [of ?b] step Some fx r show ?thesis
      by (auto simp: map_add_def split: option.splits)
  qed
qed

lemma mb_adds_count:
  "mb_series_count (mb_adds lib rs b) = mb_series_count b + length (filter_map numeric rs)"
  by (induction rs arbitrary: b) (auto simp: mb_adds_def mb_add_cases split: option.splits)

lemma mb_adds_time:
  "mb_time (mb_adds lib rs b) =
     (case mb_time b of
        Some t \<Rightarrow> Some t
      | None \<Rightarrow>
          (case filter (\<lambda>r. numeric r \<noteq> None) rs of
             [] \<Rightarrow> None
           | (c, n, v) # _ \<Rightarrow> Some (timestamp lib v)))"
  by (induction rs arbitrary: b) (auto simp: mb_adds_def mb_add_cases split: option.splits)

text \<open>
  C21. A measurement message is built exactly when at least one reading was a number, and then
  every series but those of a fragment named \<open>time\<close> has the value of its last numeric reading:
  no series is lost, no static fragment replaces one, and \<open>time\<close> is that of the first.
\<close>

theorem measurement_message:
  "case filter (\<lambda>r. numeric r \<noteq> None) rs of
     [] \<Rightarrow> mb_build lib (mb_adds lib rs mb_new) = None
   | (c, n, v) # _ \<Rightarrow>
       (\<exists>m. mb_build lib (mb_adds lib rs mb_new) = Some (JObj m) \<and>
          bt_get m ''time'' = Some (JStr (timestamp lib v)) \<and>
          (\<forall>f s. f = ''time'' \<or>
                 series_value m f s = map_of (rev (filter_map numeric rs)) (f, s)))"
proof -
  let ?b = "mb_adds lib rs mb_new"
  have len: "length (filter_map numeric xs) = length (filter (\<lambda>r. numeric r \<noteq> None) xs)" for xs
    by (induction xs) (auto split: option.splits)
  show ?thesis
  proof (cases "filter (\<lambda>r. numeric r \<noteq> None) rs")
    case Nil
    with len [of rs] show ?thesis by (simp add: mb_build_def mb_adds_count mb_new_def)
  next
    case (Cons r rest)
    obtain c n v where r: "r = (c, n, v)" by (cases r)
    let ?m = "bt_insert ''time'' (JStr (timestamp lib v)) (mb_fragments ?b)"
    have "mb_build lib ?b = Some (JObj ?m)"
      using Cons len [of rs] r by (simp add: mb_build_def mb_adds_count mb_adds_time mb_new_def)
    moreover have "series_value ?m f s = map_of (rev (filter_map numeric rs)) (f, s)"
      if "f \<noteq> ''time''" for f s
      using that mb_adds_value [of mb_new lib rs f s]
      by (simp add: series_value_def mb_new_def all_objects_def split: option.splits)
    ultimately show ?thesis using Cons r by auto
  qed
qed

section \<open>What an event and an alarm hold\<close>

text \<open>
  An event carries its timestamp, its text with the value substituted, the node it came from
  and the value itself; an alarm its severity. Static fragments only add members, they never
  replace one of these.
\<close>

theorem event_and_alarm_fields:
  "jget ''time'' (event_payload lib e n v) = Some (JStr (timestamp lib v)) \<and>
   jget ''text'' (event_payload lib e n v) =
     Some (JStr (replace_str value_placeholder (as_text lib (unwrap_or VEmpty (dv_value v)))
       (unwrap_or [] (ec_text e)))) \<and>
   jget (node_id_fragment_prefix @ n) (event_payload lib e n v) = Some (JObj []) \<and>
   Option.bind (jget ''c8y_DataValue'' (event_payload lib e n v)) (jget ''value'') =
     Some (as_json lib (unwrap_or VEmpty (dv_value v))) \<and>
   jget ''time'' (alarm_payload lib a n v) = Some (JStr (timestamp lib v)) \<and>
   jget ''text'' (alarm_payload lib a n v) = Some (JStr (unwrap_or [] (ac_text a))) \<and>
   jget ''severity'' (alarm_payload lib a n v) = Some (JStr (severity lib a)) \<and>
   jget (node_id_fragment_prefix @ n) (alarm_payload lib a n v) = Some (JObj [])"
  by (simp add: event_payload_def alarm_payload_def Let_def node_id_fragment_prefix_def
      jget_json_object)

end
