(* ===== verification/Source.thy ===== *)
theory Source
  imports Device_Model Namespace
begin

text \<open>
  Where device types come from: \<open>crates/mapping/src/source.rs\<close>. The JSON text parser of
  \<open>serde_json\<close> is the argument \<open>parse\<close>, which yields the document as a value. A directory is what
  the file system calls of \<open>load_dir\<close> and \<open>load_file\<close> return for its entries.
\<close>

datatype origin = Pull | Push

record loaded =
  ld_id :: string
  ld_origin :: origin
  ld_fingerprint :: string
  ld_device_type :: device_type

definition from_managed_object :: "managed_object \<Rightarrow> loaded option" where
  "from_managed_object mo =
     (case mo_device_type mo of
        None \<Rightarrow> None
      | Some dt \<Rightarrow>
          Some \<lparr>ld_id = mo_id mo, ld_origin = Pull,
                ld_fingerprint = unwrap_or [] (mo_last_updated mo), ld_device_type = dt\<rparr>)"

section \<open>Mapping files\<close>

record file_meta =
  fm_len :: nat
  fm_modified_ms :: "nat option"

record dir_entry =
  fe_path :: string
  fe_extension :: "string option"
  fe_stem :: "string option"
  fe_text :: "string option"
  fe_meta :: "file_meta option"

datatype read_dir = NotFound | Unreadable | Entries "dir_entry list"

definition fingerprint_of :: "file_meta option \<Rightarrow> string" where
  "fingerprint_of m =
     (case m of
        None \<Rightarrow> []
      | Some m \<Rightarrow>
          show_nat (fm_len m) @ '':'' @ show_nat (unwrap_or 0 (fm_modified_ms m)))"

definition load_file ::
    "(string \<Rightarrow> json option) \<Rightarrow> dir_entry \<Rightarrow> mapping_error + loaded" where
  "load_file parse path =
     (case fe_text path of
        None \<Rightarrow> Inl (ReadFile (fe_path path))
      | Some txt \<Rightarrow>
          (let fingerprint = fingerprint_of (fe_meta path);
               fallback_id = unwrap_or ''unnamed'' (fe_stem path);
               as_mo = Option.bind (parse txt) de_managed_object in
           case Option.bind as_mo mo_device_type of
             Some dt \<Rightarrow>
               (let i = mo_id (the as_mo) in
                Inr \<lparr>ld_id = (if i = [] then fallback_id else i), ld_origin = Push,
                     ld_fingerprint = fingerprint, ld_device_type = dt\<rparr>)
           | None \<Rightarrow>
               (case Option.bind (parse txt) de_device_type of
                  None \<Rightarrow> Inl (ParseFile (fe_path path))
                | Some dt \<Rightarrow>
                    Inr \<lparr>ld_id = fallback_id, ld_origin = Push, ld_fingerprint = fingerprint,
                         ld_device_type = dt\<rparr>)))"

definition load_dir :: "(string \<Rightarrow> json option) \<Rightarrow> read_dir \<Rightarrow> loaded list" where
  "load_dir parse dir =
     (case dir of
        NotFound \<Rightarrow> []
      | Unreadable \<Rightarrow> []
      | Entries es \<Rightarrow>
          (let out = filter_map
                 (\<lambda>e. if is_none_or (\<lambda>x. x \<noteq> ''json'') (fe_extension e) then None
                      else case load_file parse e of Inr l \<Rightarrow> Some l | Inl _ \<Rightarrow> None) es
           in sort_key ld_id out))"

section \<open>Revisions\<close>

type_synonym revision = "(string, origin \<times> string) btree"

definition revision_of :: "loaded list \<Rightarrow> revision" where
  "revision_of ls = fold (\<lambda>l. bt_insert (ld_id l) (ld_origin l, ld_fingerprint l)) ls []"

record revision_diff =
  rd_added :: "string list"
  rd_removed :: "string list"
  rd_changed :: "string list"

definition diff_step ::
    "revision \<Rightarrow> string \<times> (origin \<times> string) \<Rightarrow> revision_diff \<Rightarrow> revision_diff" where
  "diff_step before kv diff =
     (case kv of
        (i, marker) \<Rightarrow>
          (case bt_get before i of
             None \<Rightarrow> diff\<lparr>rd_added := rd_added diff @ [i]\<rparr>
           | Some previous \<Rightarrow>
               (if previous \<noteq> marker then diff\<lparr>rd_changed := rd_changed diff @ [i]\<rparr> else diff)))"

definition between :: "revision \<Rightarrow> revision \<Rightarrow> revision_diff" where
  "between before after =
     fold (\<lambda>(i, _) diff.
             if bt_get after i = None then diff\<lparr>rd_removed := rd_removed diff @ [i]\<rparr> else diff)
       before
       (fold (diff_step before) after \<lparr>rd_added = [], rd_removed = [], rd_changed = []\<rparr>)"

definition diff_is_empty :: "revision_diff \<Rightarrow> bool" where
  "diff_is_empty d \<longleftrightarrow> rd_added d = [] \<and> rd_removed d = [] \<and> rd_changed d = []"

section \<open>Merging\<close>

definition shadowed :: "loaded list \<Rightarrow> loaded list \<Rightarrow> string list" where
  "shadowed pulled merged =
     map ld_id
       (filter (\<lambda>p. list_ex (\<lambda>m. ld_id m = ld_id p \<and> ld_origin m = Push) merged) pulled)"

definition merge :: "loaded list \<Rightarrow> loaded list \<Rightarrow> loaded list" where
  "merge pulled pushed =
     (let by_id = fold (\<lambda>l. bt_insert (ld_id l) l) pulled [];
          by_id = fold (\<lambda>l. bt_insert (ld_id l) l) pushed by_id
      in map snd by_id)"

section \<open>What merging promises\<close>

text \<open>The last of a list of device types with a given id.\<close>

definition last_with :: "string \<Rightarrow> loaded list \<Rightarrow> loaded option" where
  "last_with i ls = map_of (rev (map (\<lambda>l. (ld_id l, l)) ls)) i"

lemma last_with_SomeD: "last_with i ls = Some l \<Longrightarrow> l \<in> set ls \<and> ld_id l = i"
  by (auto simp: last_with_def dest!: map_of_SomeD)

lemma last_with_None: "last_with i ls = None \<longleftrightarrow> i \<notin> ld_id ` set ls"
  by (simp add: last_with_def map_of_eq_None_iff image_image)

lemma fold_by_id:
  "fold (\<lambda>l. bt_insert (ld_id l) l) ls m =
   fold (\<lambda>(k, v). bt_insert k v) (map (\<lambda>l. (ld_id l, l)) ls) m"
  by (induction ls arbitrary: m) auto

lemma by_id_inv: "bt_inv m \<Longrightarrow> bt_inv (fold (\<lambda>l. bt_insert (ld_id l) l) ls m)"
  unfolding fold_by_id by (rule bt.inv_put_list)

lemma by_id_get:
  "bt_inv m \<Longrightarrow> bt_get (fold (\<lambda>l. bt_insert (ld_id l) l) ls m) i =
     (case last_with i ls of Some l \<Rightarrow> Some l | None \<Rightarrow> bt_get m i)"
  unfolding fold_by_id
  by (subst bt.get_put_list) (auto simp: last_with_def map_add_def split: option.splits)

definition merged_tree :: "loaded list \<Rightarrow> loaded list \<Rightarrow> (string, loaded) btree" where
  "merged_tree pulled pushed =
     fold (\<lambda>l. bt_insert (ld_id l) l) pushed (fold (\<lambda>l. bt_insert (ld_id l) l) pulled [])"

lemma merge_tree: "merge pulled pushed = map snd (merged_tree pulled pushed)"
  by (simp add: merge_def merged_tree_def Let_def)

lemma merged_tree_inv: "bt_inv (merged_tree pulled pushed)"
  unfolding merged_tree_def by (intro by_id_inv bt.inv_emp)

lemma merged_tree_get:
  "bt_get (merged_tree pulled pushed) i = opt_or (last_with i pushed) (last_with i pulled)"
  unfolding merged_tree_def
  by (simp add: by_id_get by_id_inv bt.inv_emp opt_or_def split: option.splits)

lemma merged_tree_keys: "map fst (merged_tree pulled pushed) = map ld_id (merge pulled pushed)"
proof -
  have "ld_id v = k" if "(k, v) \<in> set (merged_tree pulled pushed)" for k v
    using that bt.entries_iff [OF merged_tree_inv] merged_tree_get [of pulled pushed k]
      last_with_SomeD by (auto simp: opt_or_def split: option.splits)
  then show ?thesis by (auto simp: merge_tree)
qed

lemma merge_member:
  "l \<in> set (merge pulled pushed) \<longleftrightarrow>
     opt_or (last_with (ld_id l) pushed) (last_with (ld_id l) pulled) = Some l"
proof -
  have "l \<in> set (merge pulled pushed) \<longleftrightarrow> (\<exists>k. bt_get (merged_tree pulled pushed) k = Some l)"
    unfolding merge_tree using bt.entries_iff [OF merged_tree_inv] by force
  also have "\<dots> \<longleftrightarrow> opt_or (last_with (ld_id l) pushed) (last_with (ld_id l) pulled) = Some l"
  proof -
    have "ld_id l = k" if "opt_or (last_with k pushed) (last_with k pulled) = Some l" for k
      using that by (auto simp: opt_or_def dest: last_with_SomeD split: option.splits)
    then show ?thesis unfolding merged_tree_get by metis
  qed
  finally show ?thesis .
qed

text \<open>
  C20. The merged set has one device type for every id of either source, in id order: the pushed one
  where there is one, else the pulled one, so a file on the device overrides the inventory.
\<close>

theorem merge_pushed_wins:
  "sorted_wrt (<) (map ld_id (merge pulled pushed)) \<and>
   (\<forall>l. l \<in> set (merge pulled pushed) \<longleftrightarrow>
        opt_or (last_with (ld_id l) pushed) (last_with (ld_id l) pulled) = Some l) \<and>
   ld_id ` set (merge pulled pushed) = ld_id ` (set pulled \<union> set pushed)"
proof -
  have sorted: "sorted_wrt (<) (map ld_id (merge pulled pushed))"
    using merged_tree_inv [of pulled pushed]
    by (simp only: bt_inv_def merged_tree_keys)
  have "i \<in> ld_id ` set (merge pulled pushed) \<longleftrightarrow> i \<in> ld_id ` (set pulled \<union> set pushed)" for i
  proof -
    have "i \<in> ld_id ` set (merge pulled pushed) \<longleftrightarrow> i \<in> set (map fst (merged_tree pulled pushed))"
      by (simp add: merged_tree_keys)
    also have "\<dots> \<longleftrightarrow> bt_get (merged_tree pulled pushed) i \<noteq> None"
      by (rule bt.keys_iff [OF merged_tree_inv])
    also have "\<dots> \<longleftrightarrow> i \<in> ld_id ` (set pulled \<union> set pushed)"
      using last_with_None [of i pulled] last_with_None [of i pushed]
      by (auto simp: merged_tree_get opt_or_def split: option.splits)
    finally show ?thesis .
  qed
  then have "ld_id ` set (merge pulled pushed) = ld_id ` (set pulled \<union> set pushed)"
    by (rule set_eqI)
  with sorted show ?thesis using merge_member by blast
qed

text \<open>
  What is reported as shadowed is exactly what a pushed file replaced: the pulled device types
  whose id a pushed one has too.
\<close>

theorem shadowed_iff_pushed:
  assumes "\<forall>l \<in> set pulled. ld_origin l = Pull" "\<forall>l \<in> set pushed. ld_origin l = Push"
  shows "shadowed pulled (merge pulled pushed) =
    map ld_id (filter (\<lambda>p. ld_id p \<in> ld_id ` set pushed) pulled)"
proof -
  have "list_ex (\<lambda>m. ld_id m = i \<and> ld_origin m = Push) (merge pulled pushed) \<longleftrightarrow>
      i \<in> ld_id ` set pushed" for i
  proof
    assume "list_ex (\<lambda>m. ld_id m = i \<and> ld_origin m = Push) (merge pulled pushed)"
    then obtain m where m: "m \<in> set (merge pulled pushed)" "ld_id m = i" "ld_origin m = Push"
      by (auto simp: list_ex_iff)
    with assms have "last_with i pulled \<noteq> Some m" by (auto dest: last_with_SomeD)
    with m have "last_with i pushed \<noteq> None"
      by (cases "last_with i pushed") (auto simp: merge_member)
    then show "i \<in> ld_id ` set pushed" by (simp add: last_with_None)
  next
    assume "i \<in> ld_id ` set pushed"
    then obtain m where m: "last_with i pushed = Some m"
      using last_with_None [of i pushed] by auto
    with assms have "ld_id m = i" "ld_origin m = Push" by (auto dest: last_with_SomeD)
    with m show "list_ex (\<lambda>m. ld_id m = i \<and> ld_origin m = Push) (merge pulled pushed)"
      by (auto simp: list_ex_iff merge_member intro!: bexI [of _ m])
  qed
  then show ?thesis by (simp add: shadowed_def)
qed

definition demo_loaded :: "string \<Rightarrow> origin \<Rightarrow> loaded" where
  "demo_loaded i orig =
     \<lparr>ld_id = i, ld_origin = orig, ld_fingerprint = ''t1'',
      ld_device_type = the (de_device_type (JObj []))\<rparr>"

lemma shadowed_iff_pushed_witness:
  "shadowed [demo_loaded ''a'' Pull, demo_loaded ''b'' Pull]
     (merge [demo_loaded ''a'' Pull, demo_loaded ''b'' Pull] [demo_loaded ''b'' Push]) = [''b'']"
  using shadowed_iff_pushed
    [of "[demo_loaded ''a'' Pull, demo_loaded ''b'' Pull]" "[demo_loaded ''b'' Push]"]
  by (simp add: demo_loaded_def)

section \<open>What a revision difference says\<close>

definition ids_where :: "(string \<Rightarrow> (origin \<times> string) \<Rightarrow> bool) \<Rightarrow> revision \<Rightarrow> string list" where
  "ids_where p r = map fst (filter (\<lambda>(i, m). p i m) r)"

lemma diff_after:
  "fold (diff_step before) r d =
     d\<lparr>rd_added := rd_added d @ ids_where (\<lambda>i m. bt_get before i = None) r,
       rd_changed := rd_changed d @
         ids_where (\<lambda>i m. bt_get before i \<noteq> None \<and> bt_get before i \<noteq> Some m) r\<rparr>"
  by (induction r arbitrary: d) (auto simp: ids_where_def diff_step_def split: option.splits)

lemma diff_before:
  "fold (\<lambda>(i, _) diff.
      if bt_get after i = None then diff\<lparr>rd_removed := rd_removed diff @ [i]\<rparr> else diff) r d =
     d\<lparr>rd_removed := rd_removed d @ ids_where (\<lambda>i m. bt_get after i = None) r\<rparr>"
  by (induction r arbitrary: d) (auto simp: ids_where_def)

lemma between_ids:
  "between before after =
     \<lparr>rd_added = ids_where (\<lambda>i m. bt_get before i = None) after,
      rd_removed = ids_where (\<lambda>i m. bt_get after i = None) before,
      rd_changed = ids_where (\<lambda>i m. bt_get before i \<noteq> None \<and> bt_get before i \<noteq> Some m) after\<rparr>"
  by (simp add: between_def diff_after diff_before)

lemma set_ids_where:
  "bt_inv r \<Longrightarrow> i \<in> set (ids_where p r) \<longleftrightarrow> is_some_and (p i) (bt_get r i)"
  using bt.entries_iff [of r] by (force simp: ids_where_def is_some_and_iff)

lemma revision_of_fold:
  "revision_of ls =
     fold (\<lambda>(k, v). bt_insert k v)
       (map (\<lambda>l. (ld_id l, (ld_origin l, ld_fingerprint l))) ls) []"
proof -
  have "fold (\<lambda>l. bt_insert (ld_id l) (ld_origin l, ld_fingerprint l)) ls m =
     fold (\<lambda>(k, v). bt_insert k v)
       (map (\<lambda>l. (ld_id l, (ld_origin l, ld_fingerprint l))) ls) m" for m
    by (induction ls arbitrary: m) auto
  then show ?thesis by (simp add: revision_of_def)
qed

lemma revision_of_inv: "bt_inv (revision_of ls)"
  unfolding revision_of_fold by (rule bt.inv_put_list) (rule bt.inv_emp)

lemma between_sets:
  "set (rd_added (between (revision_of a) (revision_of b))) =
     {i. bt_get (revision_of a) i = None \<and> bt_get (revision_of b) i \<noteq> None}"
  "set (rd_removed (between (revision_of a) (revision_of b))) =
     {i. bt_get (revision_of a) i \<noteq> None \<and> bt_get (revision_of b) i = None}"
  "set (rd_changed (between (revision_of a) (revision_of b))) =
     {i. bt_get (revision_of a) i \<noteq> None \<and> bt_get (revision_of b) i \<noteq> None \<and>
         bt_get (revision_of a) i \<noteq> bt_get (revision_of b) i}"
  by (auto simp: between_ids set_ids_where revision_of_inv is_some_and_iff)

lemma diff_empty_iff:
  "diff_is_empty (between (revision_of a) (revision_of b)) \<longleftrightarrow> revision_of a = revision_of b"
proof -
  let ?d = "between (revision_of a) (revision_of b)"
  have "diff_is_empty ?d \<longleftrightarrow>
      set (rd_added ?d) = {} \<and> set (rd_removed ?d) = {} \<and> set (rd_changed ?d) = {}"
    by (simp add: diff_is_empty_def)
  also have "\<dots> \<longleftrightarrow> bt_get (revision_of a) = bt_get (revision_of b)"
    unfolding between_sets by (simp add: set_eq_iff fun_eq_iff del: not_None_eq) metis
  also have "\<dots> \<longleftrightarrow> revision_of a = revision_of b"
    using bt.entries_ext [OF revision_of_inv revision_of_inv] by auto
  finally show ?thesis .
qed

text \<open>
  The difference of two revisions is complete: an id is reported as added, removed or changed
  exactly when it appeared, disappeared, or changed its source or fingerprint; and the difference
  is empty exactly when the revisions are equal, so a reload is neither missed nor spurious.
\<close>

theorem revision_diff_complete:
  "(diff_is_empty (between (revision_of a) (revision_of b)) \<longleftrightarrow> revision_of a = revision_of b) \<and>
   set (rd_added (between (revision_of a) (revision_of b))) =
     {i. bt_get (revision_of a) i = None \<and> bt_get (revision_of b) i \<noteq> None} \<and>
   set (rd_removed (between (revision_of a) (revision_of b))) =
     {i. bt_get (revision_of a) i \<noteq> None \<and> bt_get (revision_of b) i = None} \<and>
   set (rd_changed (between (revision_of a) (revision_of b))) =
     {i. bt_get (revision_of a) i \<noteq> None \<and> bt_get (revision_of b) i \<noteq> None \<and>
         bt_get (revision_of a) i \<noteq> bt_get (revision_of b) i}"
  by (simp only: diff_empty_iff between_sets simp_thms)

section \<open>What loading a directory yields\<close>

definition json_files :: "read_dir \<Rightarrow> dir_entry list" where
  "json_files d =
     (case d of Entries es \<Rightarrow> filter (\<lambda>e. fe_extension e = Some ''json'') es | _ \<Rightarrow> [])"

definition loadable :: "(string \<Rightarrow> json option) \<Rightarrow> dir_entry \<Rightarrow> loaded option" where
  "loadable parse e = (case load_file parse e of Inr l \<Rightarrow> Some l | Inl _ \<Rightarrow> None)"

text \<open>
  Loading a directory yields every JSON file that can be read as a device type, each once and
  in id order, and nothing else; a missing or unreadable directory yields nothing.
\<close>

theorem load_dir_complete:
  "sorted (map ld_id (load_dir parse d)) \<and>
   mset (load_dir parse d) = mset (filter_map (loadable parse) (json_files d))"
proof -
  have "filter_map (\<lambda>e. if is_none_or (\<lambda>x. x \<noteq> ''json'') (fe_extension e) then None
          else case load_file parse e of Inr l \<Rightarrow> Some l | Inl _ \<Rightarrow> None) es =
      filter_map (loadable parse) (filter (\<lambda>e. fe_extension e = Some ''json'') es)" for es
  proof (induction es)
    case Nil
    then show ?case by simp
  next
    case (Cons e es)
    then show ?case
      by (cases "fe_extension e") (auto simp: loadable_def split: option.splits)
  qed
  then show ?thesis by (simp add: load_dir_def json_files_def split: read_dir.splits)
qed

text \<open>
  A managed object whose device type fragment cannot be read is not refused: the second attempt
  reads the managed object itself as a device type without mappings.
\<close>

definition demo_export :: json where
  "demo_export =
     JObj [(''id'', JStr ''4711''), (''name'', JStr ''Pump''),
           (device_type_fragment, JObj [(''mappings'', JStr ''bad'')])]"

lemma load_file_unreadable_fragment:
  "case load_file (\<lambda>_. Some demo_export)
      \<lparr>fe_path = ''p.json'', fe_extension = Some ''json'', fe_stem = Some ''p'',
       fe_text = Some [], fe_meta = None\<rparr> of
     Inr l \<Rightarrow> ld_id l = ''p'' \<and> dt_mappings (ld_device_type l) = []
   | Inl e \<Rightarrow> False"
  by code_simp

end
