(* ===== verification/Topic.thy ===== *)
theory Topic
  imports Rust_Str
begin

text \<open>Entity topic identifiers: \<open>crates/tedge/src/topic.rs\<close>.\<close>

definition te_root :: string where
  "te_root = ''te''"

datatype entity_topic_id = EntityTopicId string

definition main_device :: entity_topic_id where
  "main_device = EntityTopicId ''device/main//''"

definition child_device :: "string \<Rightarrow> entity_topic_id" where
  "child_device i = EntityTopicId (''device/'' @ i @ ''//'')"

definition main_service :: "string \<Rightarrow> entity_topic_id" where
  "main_service name = EntityTopicId (''device/main/service/'' @ name)"

primrec topic_str :: "entity_topic_id \<Rightarrow> string" where
  "topic_str (EntityTopicId s) = s"

definition registration_topic :: "entity_topic_id \<Rightarrow> string" where
  "registration_topic t = te_root @ ''/'' @ topic_str t"

definition channel_topic :: "entity_topic_id \<Rightarrow> string \<Rightarrow> string" where
  "channel_topic t channel = te_root @ ''/'' @ topic_str t @ ''/'' @ channel"

section \<open>Sanitizing identifiers\<close>

text \<open>The loop runs over characters: all bytes but the continuation bytes of the UTF-8 encoding.\<close>

definition is_continuation :: "char \<Rightarrow> bool" where
  "is_continuation c \<longleftrightarrow> char_code c div 64 = 2"

definition sanitize_char :: "char \<Rightarrow> char" where
  "sanitize_char c =
     (if is_lower c \<or> is_digit c \<or> c = CHR ''-'' \<or> c = CHR ''_'' then c
      else if is_upper c then ascii_lower c
      else CHR ''-'')"

lemma replace_dashes_length:
  "length (replace_str ''--'' ''-'' s) \<le> length s"
proof (induction "''--''" "''-''" s rule: replace_str.induct)
  case 1
  then show ?case by simp
next
  case (2 c cs)
  then show ?case
    by (auto simp: strip_prefix_Some split: option.splits)
qed

lemma replace_dashes_less:
  "contains_str ''--'' s \<Longrightarrow> length (replace_str ''--'' ''-'' s) < length s"
proof (induction "''--''" "''-''" s rule: replace_str.induct)
  case 1
  then show ?case by simp
next
  case (2 c cs)
  show ?case
  proof (cases "strip_prefix ''--'' (c # cs)")
    case (Some t)
    then have "c # cs = ''--'' @ t" by (simp only: strip_prefix_Some)
    with Some show ?thesis using replace_dashes_length [of t] by simp
  next
    case None
    with 2 show ?thesis by (auto simp: strip_prefix_None)
  qed
qed

function collapse_dashes :: "string \<Rightarrow> string" where
  "collapse_dashes out =
     (if contains_str ''--'' out then collapse_dashes (replace_str ''--'' ''-'' out) else out)"
  by pat_completeness auto
termination
  by (relation "measure length") (auto simp: replace_dashes_less)

declare collapse_dashes.simps [simp del]

text \<open>\<open>trim_matches\<close> of one character.\<close>

definition trim_matches :: "char \<Rightarrow> string \<Rightarrow> string" where
  "trim_matches d s = rev (dropWhile (\<lambda>c. c = d) (rev (dropWhile (\<lambda>c. c = d) s)))"

definition sanitize_id :: "string \<Rightarrow> string" where
  "sanitize_id input =
     (let out = map sanitize_char (filter (\<lambda>c. \<not> is_continuation c) input);
          trimmed = trim_matches CHR ''-'' (collapse_dashes out)
      in if trimmed = [] then ''unnamed'' else trimmed)"

section \<open>The words of an identifier\<close>

definition dash_words :: "string \<Rightarrow> string list" where
  "dash_words s = filter (\<lambda>w. w \<noteq> []) (str_split CHR ''-'' s)"

lemma split_hd_tl: "str_split d s = hd (str_split d s) # tl (str_split d s)"
  by simp

lemma split_case [simp]:
  "(case str_split d s of [] \<Rightarrow> a | p # ps \<Rightarrow> f p ps) =
   f (hd (str_split d s)) (tl (str_split d s))"
  using split_hd_tl [of d s] by (metis list.simps(5))

lemma replace_dashes_split:
  "hd (str_split CHR ''-'' (replace_str ''--'' ''-'' s)) = hd (str_split CHR ''-'' s) \<and>
   filter (\<lambda>w. w \<noteq> []) (tl (str_split CHR ''-'' (replace_str ''--'' ''-'' s))) =
   filter (\<lambda>w. w \<noteq> []) (tl (str_split CHR ''-'' s))"
proof (induction "''--''" "''-''" s rule: replace_str.induct)
  case 1
  then show ?case by simp
next
  case (2 c cs)
  have all: "filter (\<lambda>w. w \<noteq> []) (str_split CHR ''-'' x) = filter (\<lambda>w. w \<noteq> []) (str_split CHR ''-'' y)"
    if "hd (str_split CHR ''-'' x) = hd (str_split CHR ''-'' y)"
      "filter (\<lambda>w. w \<noteq> []) (tl (str_split CHR ''-'' x)) =
       filter (\<lambda>w. w \<noteq> []) (tl (str_split CHR ''-'' y))" for x y
    using that split_hd_tl [of _ x] split_hd_tl [of _ y] by (metis filter.simps(2))
  show ?case
  proof (cases "strip_prefix ''--'' (c # cs)")
    case (Some t)
    then have "c # cs = ''--'' @ t" by (simp only: strip_prefix_Some)
    moreover have "hd (str_split CHR ''-'' (replace_str ''--'' ''-'' t)) = hd (str_split CHR ''-'' t)"
      "filter (\<lambda>w. w \<noteq> []) (tl (str_split CHR ''-'' (replace_str ''--'' ''-'' t))) =
       filter (\<lambda>w. w \<noteq> []) (tl (str_split CHR ''-'' t))"
      using 2 Some \<open>c # cs = ''--'' @ t\<close> by simp_all
    from all [OF this] Some \<open>c # cs = ''--'' @ t\<close> show ?thesis by simp
  next
    case None
    have ih: "hd (str_split CHR ''-'' (replace_str ''--'' ''-'' cs)) = hd (str_split CHR ''-'' cs)"
      "filter (\<lambda>w. w \<noteq> []) (tl (str_split CHR ''-'' (replace_str ''--'' ''-'' cs))) =
       filter (\<lambda>w. w \<noteq> []) (tl (str_split CHR ''-'' cs))"
      using 2 None by simp_all
    show ?thesis
      using None ih all [OF ih] by (cases "c = CHR ''-''") simp_all
  qed
qed

lemma replace_dashes_words: "dash_words (replace_str ''--'' ''-'' s) = dash_words s"
proof -
  have w: "dash_words u = filter (\<lambda>w. w \<noteq> []) [hd (str_split CHR ''-'' u)] @
      filter (\<lambda>w. w \<noteq> []) (tl (str_split CHR ''-'' u))" for u
    unfolding dash_words_def by (cases "str_split CHR ''-'' u") auto
  show ?thesis unfolding w using replace_dashes_split [of s] by simp
qed

lemma collapse_dashes_words: "dash_words (collapse_dashes s) = dash_words s"
  by (induction s rule: collapse_dashes.induct)
    (subst collapse_dashes.simps, simp add: replace_dashes_words)

lemma collapse_dashes_no_run: "\<not> contains_str ''--'' (collapse_dashes s)"
  by (induction s rule: collapse_dashes.induct) (subst collapse_dashes.simps, simp)

lemma dash_words_dash: "dash_words (CHR ''-'' # s) = dash_words s"
  by (simp add: dash_words_def)

lemma str_split_snoc: "str_split d (s @ [d]) = str_split d s @ [[]]"
proof (induction s)
  case Nil
  then show ?case by simp
next
  case (Cons c s)
  then show ?case by (cases "str_split d s") auto
qed

lemma dash_words_snoc: "dash_words (s @ [CHR ''-'']) = dash_words s"
  by (simp add: dash_words_def str_split_snoc)

lemma dash_words_dropWhile: "dash_words (dropWhile (\<lambda>c. c = CHR ''-'') s) = dash_words s"
  by (induction s) (auto simp: dash_words_dash)

lemma dash_words_dropWhile_end:
  "dash_words (rev (dropWhile (\<lambda>c. c = CHR ''-'') s)) = dash_words (rev s)"
  by (induction s) (auto simp: dash_words_snoc)

lemma dash_words_trim: "dash_words (trim_matches CHR ''-'' s) = dash_words s"
  by (simp only: trim_matches_def dash_words_dropWhile_end rev_rev_ident dash_words_dropWhile)

lemma empty_piece_tl:
  "[] \<in> set (tl (str_split d s)) \<Longrightarrow> s \<noteq> [] \<and> (last s = d \<or> contains_str [d, d] s)"
proof (induction s)
  case Nil
  then show ?case by simp
next
  case (Cons c cs)
  show ?case
  proof (cases "c = d")
    case True
    then have "[] \<in> set (str_split d cs)" using Cons.prems by simp
    then consider "hd (str_split d cs) = []" | "[] \<in> set (tl (str_split d cs))"
      using split_hd_tl [of d cs] by (metis set_ConsD)
    then show ?thesis
    proof cases
      case 1
      then have "cs = [] \<or> hd cs = d" by (cases cs) (auto split: if_splits list.splits)
      with True show ?thesis by (cases cs) auto
    next
      case 2
      with Cons.IH show ?thesis by auto
    qed
  next
    case False
    with Cons.prems have "[] \<in> set (tl (str_split d cs))" by simp
    with Cons.IH show ?thesis by auto
  qed
qed

lemma dropWhile_contains: "contains_str p (dropWhile P s) \<Longrightarrow> contains_str p s"
  by (induction s) (auto split: if_splits)

lemma trim_matches_sublist: "sublist (trim_matches d s) s"
proof -
  have "suffix (dropWhile (\<lambda>c. c = d) s) s" by (rule suffix_dropWhile)
  moreover have "prefix (trim_matches d s) (dropWhile (\<lambda>c. c = d) s)"
    using suffix_dropWhile [of "\<lambda>c. c = d" "rev (dropWhile (\<lambda>c. c = d) s)"]
    by (simp add: trim_matches_def suffix_to_prefix)
  ultimately show ?thesis
    by (meson prefix_imp_sublist suffix_imp_sublist sublist_order.order_trans)
qed

lemma trim_matches_ends:
  assumes "trim_matches d s \<noteq> []"
  shows "hd (trim_matches d s) \<noteq> d \<and> last (trim_matches d s) \<noteq> d"
proof -
  define u where "u = dropWhile (\<lambda>c. c = d) s"
  have t: "trim_matches d s = rev (dropWhile (\<lambda>c. c = d) (rev u))"
    by (simp add: trim_matches_def u_def)
  then have ne: "dropWhile (\<lambda>c. c = d) (rev u) \<noteq> []" using assms by simp
  then have last: "last (trim_matches d s) \<noteq> d"
    using hd_dropWhile [of "\<lambda>c. c = d" "rev u"] by (simp add: t last_rev)
  have "u \<noteq> []" using ne by auto
  then have "hd u \<noteq> d" unfolding u_def by (rule hd_dropWhile)
  moreover have "prefix (trim_matches d s) u"
    using suffix_dropWhile [of "\<lambda>c. c = d" "rev u"] by (simp add: t suffix_to_prefix)
  ultimately show ?thesis using assms last by (auto simp: prefix_def)
qed

lemma trimmed_words:
  assumes "\<not> contains_str ''--'' s" and ne: "trim_matches CHR ''-'' s \<noteq> []"
  shows "dash_words s \<noteq> [] \<and> join_with ''-'' (dash_words s) = trim_matches CHR ''-'' s"
proof -
  let ?t = "trim_matches CHR ''-'' s"
  have no: "\<not> contains_str ''--'' ?t"
    using assms(1) trim_matches_sublist [of "CHR ''-''" s]
    by (meson contains_str_sublist sublist_order.order_trans)
  note ends = trim_matches_ends [OF ne]
  have "[] \<notin> set (tl (str_split CHR ''-'' ?t))"
    using empty_piece_tl [of "CHR ''-''" ?t] no ends by auto
  moreover have "hd (str_split CHR ''-'' ?t) \<noteq> []"
    using ne ends by (cases ?t) simp_all
  ultimately have "[] \<notin> set (str_split CHR ''-'' ?t)"
    using split_hd_tl [of "CHR ''-''" ?t] by (metis set_ConsD)
  then have "dash_words ?t = str_split CHR ''-'' ?t"
    unfolding dash_words_def by (intro filter_True) auto
  then show ?thesis
    using dash_words_trim [of s] join_str_split [of "CHR ''-''" ?t] by simp
qed

lemma trimmed_empty: "trim_matches CHR ''-'' s = [] \<Longrightarrow> dash_words s = []"
  using dash_words_trim [of s] by (simp add: dash_words_def)

text \<open>
  C29. A sanitized identifier is the dash-separated words of the lower-cased input: every run of
  characters outside letters, digits and underscore becomes one dash, none is left at the ends,
  and an input with no word is \<open>unnamed\<close>.
\<close>

theorem sanitize_id_words:
  "sanitize_id s =
     (let ws = dash_words (map sanitize_char (filter (\<lambda>c. \<not> is_continuation c) s))
      in if ws = [] then ''unnamed'' else join_with ''-'' ws)"
proof -
  define out where "out = map sanitize_char (filter (\<lambda>c. \<not> is_continuation c) s)"
  show ?thesis
    using trimmed_words [OF collapse_dashes_no_run, of out] trimmed_empty [of "collapse_dashes out"]
    unfolding sanitize_id_def out_def [symmetric] Let_def collapse_dashes_words by auto
qed

end
