(* ===== verification/Step_Machines.thy ===== *)
theory Step_Machines
  imports Prelude
begin

text \<open>
  Event loops as step functions: what every turn keeps, a run keeps; a loop that has ended stays as
  it is; and a loop that mirrors a specification turn by turn mirrors it over a run. The component
  theories interpret these on their own steps.
\<close>

locale stepping =
  fixes step :: "'e \<Rightarrow> 's \<Rightarrow> 's" and inv :: "'s \<Rightarrow> bool"
  assumes inv_step: "inv s \<Longrightarrow> inv (step e s)"
begin

lemma inv_run: "inv s \<Longrightarrow> inv (fold step es s)"
  by (induction es arbitrary: s) (simp_all add: inv_step)

end

locale ending =
  fixes step :: "'e \<Rightarrow> 's \<Rightarrow> 's" and over :: "'s \<Rightarrow> bool"
  assumes over_step: "over s \<Longrightarrow> step e s = s"
begin

lemma over_run: "over s \<Longrightarrow> fold step es s = s"
  by (induction es) (simp_all add: over_step)

end

text \<open>
  A loop that ends at some events, next to a specification of its turns. What follows the event
  that ends it is not looked at.
\<close>

locale mirroring = ending step over
  for step :: "'e \<Rightarrow> 's \<Rightarrow> 's" and over :: "'s \<Rightarrow> bool" +
  fixes last_event :: "'e \<Rightarrow> bool" and spec :: "'e \<Rightarrow> 'a \<Rightarrow> 'a" and rel :: "'s \<Rightarrow> 'a \<Rightarrow> bool"
  assumes over_last: "\<not> over s \<Longrightarrow> over (step e s) = last_event e"
    and rel_step: "rel s a \<Longrightarrow> \<not> over s \<Longrightarrow> rel (step e s) (spec e a)"
begin

lemma rel_run:
  "rel s a \<Longrightarrow> \<not> over s \<Longrightarrow>
     rel (fold step es s)
       (fold spec (takeWhile (\<lambda>e. \<not> last_event e) es @
          take 1 (dropWhile (\<lambda>e. \<not> last_event e) es)) a)"
proof (induction es arbitrary: s a)
  case (Cons e es)
  note now = rel_step [OF Cons.prems, of e] over_last [OF Cons.prems(2), of e]
  show ?case
  proof (cases "last_event e")
    case True
    with now show ?thesis by (simp add: over_run)
  next
    case False
    with now Cons.IH [of "step e s" "spec e a"] show ?thesis by simp
  qed
qed simp

end

text \<open>
  A bounded channel between two loops that take turns. \<open>room_for\<close> is what the channel has room for, of
  what is offered while \<open>n\<close> items wait; \<open>taken_by\<close> is what is taken out of it.
\<close>

fun room_for ::
    "('e \<Rightarrow> 'm option) \<Rightarrow> ('e \<Rightarrow> bool) \<Rightarrow> nat \<Rightarrow> nat \<Rightarrow> 'e list \<Rightarrow> 'm list" where
  "room_for offers takes cap n [] = []"
| "room_for offers takes cap n (e # es) =
     (case offers e of
        Some m \<Rightarrow>
          (if n < cap then m # room_for offers takes cap (Suc n) es
           else room_for offers takes cap n es)
      | None \<Rightarrow> room_for offers takes cap (if takes e then n - 1 else n) es)"

fun taken_by ::
    "('e \<Rightarrow> 's \<Rightarrow> 's) \<Rightarrow> ('s \<Rightarrow> 'm list) \<Rightarrow> ('e \<Rightarrow> bool) \<Rightarrow> 'e list \<Rightarrow> 's \<Rightarrow> 'm list" where
  "taken_by step queue takes [] s = []"
| "taken_by step queue takes (e # es) s =
     (if takes e then take 1 (queue s) else []) @ taken_by step queue takes es (step e s)"

lemma room_for_all:
  "n + length (filter_map offers es) \<le> cap \<Longrightarrow>
     room_for offers takes cap n es = filter_map offers es"
  by (induction es arbitrary: n) (auto split: option.splits)

lemma room_for_length: "length (room_for offers takes cap n es) \<le> length (filter_map offers es)"
  by (induction es arbitrary: n) (auto split: option.splits intro: le_SucI)

locale piping =
  fixes step :: "'e \<Rightarrow> 's \<Rightarrow> 's" and queue :: "'s \<Rightarrow> 'm list" and offers :: "'e \<Rightarrow> 'm option"
    and takes :: "'e \<Rightarrow> bool" and cap :: nat and live :: "'s \<Rightarrow> bool"
  assumes live_before: "live (step e s) \<Longrightarrow> live s"
    and takes_not_offered: "takes e \<Longrightarrow> offers e = None"
    and queue_offer:
      "live (step e s) \<Longrightarrow> offers e = Some m \<Longrightarrow>
         queue (step e s) = (if length (queue s) < cap then queue s @ [m] else queue s)"
    and queue_other:
      "live (step e s) \<Longrightarrow> offers e = None \<Longrightarrow>
         queue (step e s) = (if takes e then tl (queue s) else queue s)"
begin

lemma live_run: "live (fold step es s) \<Longrightarrow> live s"
  by (induction es arbitrary: s) (auto dest: live_before)

lemma queue_run:
  "live (fold step es s) \<Longrightarrow>
     taken_by step queue takes es s @ queue (fold step es s) =
       queue s @ room_for offers takes cap (length (queue s)) es"
proof (induction es arbitrary: s)
  case (Cons e es)
  then have live: "live (step e s)" by (auto dest: live_run)
  show ?case
  proof (cases "offers e")
    case None
    with Cons.IH [of "step e s"] Cons.prems queue_other [OF live None] show ?thesis
      by (cases "queue s") auto
  next
    case (Some m)
    with Cons.IH [of "step e s"] Cons.prems queue_offer [OF live Some] takes_not_offered [of e]
    show ?thesis by auto
  qed
qed simp

lemma queue_bounded:
  "live (fold step es s) \<Longrightarrow> length (queue s) \<le> cap \<Longrightarrow> length (queue (fold step es s)) \<le> cap"
proof (induction es arbitrary: s)
  case (Cons e es)
  then have live: "live (step e s)" by (auto dest: live_run)
  then have "length (queue (step e s)) \<le> cap"
    using Cons.prems(2) queue_offer [OF live] queue_other [OF live] by (cases "offers e") auto
  with Cons show ?case by simp
qed simp

end

end
