(* ===== verification/Mqtt.thy ===== *)
theory Mqtt
  imports Topic Json Step_Machines
begin

text \<open>
  Publishing to the local broker: \<open>crates/tedge/src/mqtt.rs\<close>. What \<open>rumqttc\<close> does with a publish
  or a subscribe is the function \<open>mq_accepts\<close> of the client state: the \<open>n\<close>-th call succeeds or
  fails as it says, and an accepted message is appended to \<open>mq_sent\<close>, the sequence of messages
  handed to the broker. Every message is sent at least once (QoS 1).
\<close>

definition service_type :: string where
  "service_type = ''service''"

definition opcua_server_entity_type :: string where
  "opcua_server_entity_type = ''opcua-server''"

definition opcua_device_entity_type :: string where
  "opcua_device_entity_type = ''opcua-device''"

definition gateway_mo_type :: string where
  "gateway_mo_type = ''c8y_OPCUA_Device_Agent''"

definition opcua_server_mo_type :: string where
  "opcua_server_mo_type = ''c8y_OpcuaServer''"

definition opcua_device_mo_type :: string where
  "opcua_device_mo_type = ''c8y_OpcuaDevice''"

definition c8y_operation_topic :: string where
  "c8y_operation_topic = ''c8y/devicecontrol/notifications''"

definition smartrest_topic :: "string \<Rightarrow> string" where
  "smartrest_topic external_id = ''c8y/s/us/'' @ external_id"

section \<open>Messages and the client\<close>

datatype body = JsonBody json | TextBody string | EmptyBody

record message =
  ms_topic :: string
  ms_body :: body
  ms_retain :: bool

record incoming_message =
  im_topic :: string
  im_payload :: string

datatype mqtt_error = PublishFailed string

record mqtt =
  mq_service :: entity_topic_id
  mq_accepts :: "nat \<Rightarrow> bool"
  mq_calls :: nat
  mq_sent :: "message list"
  mq_subscribed :: "string list"

text \<open>\<open>TedgeMqtt::new\<close>, with the last will the broker publishes when the gateway vanishes.\<close>

definition mqtt_new :: "string \<Rightarrow> (nat \<Rightarrow> bool) \<Rightarrow> mqtt \<times> message" where
  "mqtt_new service_name accepts =
     (let service = main_service service_name in
      (\<lparr>mq_service = service, mq_accepts = accepts, mq_calls = 0, mq_sent = [],
        mq_subscribed = []\<rparr>,
       \<lparr>ms_topic = channel_topic service ''status/health'',
        ms_body = JsonBody (json_object [(''status'', JStr ''down'')]), ms_retain = True\<rparr>))"

definition client_publish :: "string \<Rightarrow> bool \<Rightarrow> body \<Rightarrow> mqtt \<Rightarrow> (mqtt_error + unit) \<times> mqtt" where
  "client_publish topic retain b m =
     (let m' = m\<lparr>mq_calls := mq_calls m + 1\<rparr> in
      if mq_accepts m (mq_calls m)
      then (Inr (),
            m'\<lparr>mq_sent := mq_sent m @
                 [\<lparr>ms_topic = topic, ms_body = b, ms_retain = retain\<rparr>]\<rparr>)
      else (Inl (PublishFailed topic), m'))"

definition publish :: "string \<Rightarrow> json \<Rightarrow> bool \<Rightarrow> mqtt \<Rightarrow> (mqtt_error + unit) \<times> mqtt" where
  "publish topic payload retain m = client_publish topic retain (JsonBody payload) m"

definition publish_retained :: "string \<Rightarrow> json \<Rightarrow> mqtt \<Rightarrow> (mqtt_error + unit) \<times> mqtt" where
  "publish_retained topic payload m = publish topic payload True m"

definition subscribe :: "string \<Rightarrow> mqtt \<Rightarrow> (mqtt_error + unit) \<times> mqtt" where
  "subscribe topic m =
     (let m' = m\<lparr>mq_calls := mq_calls m + 1\<rparr> in
      if mq_accepts m (mq_calls m)
      then (Inr (), m'\<lparr>mq_subscribed := mq_subscribed m @ [topic]\<rparr>)
      else (Inl (PublishFailed topic), m'))"

section \<open>What the gateway publishes\<close>

definition register_service :: "mqtt \<Rightarrow> (mqtt_error + unit) \<times> mqtt" where
  "register_service m =
     (let name = last (str_split CHR ''/'' (topic_str (mq_service m))) in
      publish_retained (registration_topic (mq_service m))
        (json_object
          [(''@type'', JStr service_type),
           (''@parent'', JStr (topic_str main_device)),
           (''name'', JStr name),
           (''type'', JStr ''systemd'')]) m)"

definition child_payload ::
    "entity_topic_id \<Rightarrow> string \<Rightarrow> string \<Rightarrow> string option \<Rightarrow> json" where
  "child_payload parent name ty external_id =
     (let payload =
            [(''@type'', JStr ''child-device''), (''@parent'', JStr (topic_str parent)),
             (''name'', JStr name), (''type'', JStr ty)] in
      json_object
        (case external_id of
           Some i \<Rightarrow> payload @ [(''@id'', JStr i)]
         | None \<Rightarrow> payload))"

definition register_child_device ::
    "entity_topic_id \<Rightarrow> entity_topic_id \<Rightarrow> string \<Rightarrow> string \<Rightarrow> string option \<Rightarrow> mqtt \<Rightarrow>
     (mqtt_error + unit) \<times> mqtt" where
  "register_child_device entity parent name ty external_id m =
     publish_retained (registration_topic entity) (child_payload parent name ty external_id) m"

definition publish_twin ::
    "entity_topic_id \<Rightarrow> string \<Rightarrow> json \<Rightarrow> mqtt \<Rightarrow> (mqtt_error + unit) \<times> mqtt" where
  "publish_twin entity fragment payload m =
     publish_retained (channel_topic entity (''twin/'' @ fragment)) payload m"

definition clear_twin ::
    "entity_topic_id \<Rightarrow> string \<Rightarrow> mqtt \<Rightarrow> (mqtt_error + unit) \<times> mqtt" where
  "clear_twin entity fragment m =
     client_publish (channel_topic entity (''twin/'' @ fragment)) True EmptyBody m"

definition publish_smartrest :: "string \<Rightarrow> string \<Rightarrow> mqtt \<Rightarrow> (mqtt_error + unit) \<times> mqtt" where
  "publish_smartrest external_id rec m =
     client_publish (smartrest_topic external_id) False (TextBody rec) m"

definition publish_health_up :: "u32 \<Rightarrow> u64 \<Rightarrow> mqtt \<Rightarrow> (mqtt_error + unit) \<times> mqtt" where
  "publish_health_up pid time m =
     publish_retained (channel_topic (mq_service m) ''status/health'')
       (json_object
         [(''status'', JStr ''up''), (''pid'', JNum (PosInt (ucast pid))),
          (''time'', JNum (PosInt time))]) m"

definition publish_measurement ::
    "entity_topic_id \<Rightarrow> string \<Rightarrow> json \<Rightarrow> mqtt \<Rightarrow> (mqtt_error + unit) \<times> mqtt" where
  "publish_measurement entity ty payload m =
     publish (channel_topic entity (''m/'' @ ty)) payload False m"

definition publish_measurement_meta ::
    "entity_topic_id \<Rightarrow> string \<Rightarrow> json \<Rightarrow> mqtt \<Rightarrow> (mqtt_error + unit) \<times> mqtt" where
  "publish_measurement_meta entity ty payload m =
     publish_retained (channel_topic entity (''m/'' @ ty @ ''/meta'')) payload m"

definition publish_event ::
    "entity_topic_id \<Rightarrow> string \<Rightarrow> json \<Rightarrow> mqtt \<Rightarrow> (mqtt_error + unit) \<times> mqtt" where
  "publish_event entity ty payload m =
     publish (channel_topic entity (''e/'' @ ty)) payload False m"

definition raise_alarm ::
    "entity_topic_id \<Rightarrow> string \<Rightarrow> json \<Rightarrow> mqtt \<Rightarrow> (mqtt_error + unit) \<times> mqtt" where
  "raise_alarm entity ty payload m =
     publish (channel_topic entity (''a/'' @ ty)) payload False m"

definition clear_alarm :: "entity_topic_id \<Rightarrow> string \<Rightarrow> mqtt \<Rightarrow> (mqtt_error + unit) \<times> mqtt" where
  "clear_alarm entity ty m =
     client_publish (channel_topic entity (''a/'' @ ty)) True EmptyBody m"

lemmas publish_defs =
  publish_def publish_retained_def register_child_device_def publish_twin_def clear_twin_def
  publish_smartrest_def publish_measurement_def publish_measurement_meta_def publish_event_def
  raise_alarm_def clear_alarm_def

lemma client_publish_accepts [simp]: "mq_accepts (snd (client_publish t r b m)) = mq_accepts m"
  and client_publish_service [simp]: "mq_service (snd (client_publish t r b m)) = mq_service m"
  by (simp_all add: client_publish_def Let_def)

lemma client_publish_sent:
  "mq_sent (snd (client_publish t r b m)) =
     mq_sent m @ (case fst (client_publish t r b m) of
                    Inr _ \<Rightarrow> [\<lparr>ms_topic = t, ms_body = b, ms_retain = r\<rparr>] | Inl _ \<Rightarrow> [])"
  by (simp add: client_publish_def Let_def)

section \<open>The event loop\<close>

text \<open>
  One turn of \<open>run_event_loop\<close> per event of the connection. \<open>Handled\<close> is the handler taking the
  next message from the bounded channel; \<open>Cancelled\<close> ends the loop. A full or closed channel makes
  \<open>try_send\<close> fail.
\<close>

datatype mqtt_event =
    ConnAck
  | Incoming incoming_message
  | OtherEvent
  | ConnectionLost
  | Handled
  | Cancelled

record event_loop =
  el_mqtt :: mqtt
  el_connected :: bool
  el_forwards :: bool
  el_capacity :: nat
  el_queue :: "incoming_message list"
  el_done :: bool

definition resubscribe :: "string list \<Rightarrow> mqtt \<Rightarrow> mqtt" where
  "resubscribe topics m = fold (\<lambda>t m. snd (subscribe t m)) topics m"

fun event_step :: "string list \<Rightarrow> mqtt_event \<Rightarrow> event_loop \<Rightarrow> event_loop" where
  "event_step subs ev l =
     (if el_done l then l
      else case ev of
        ConnAck \<Rightarrow> l\<lparr>el_connected := True, el_mqtt := resubscribe subs (el_mqtt l)\<rparr>
      | Incoming im \<Rightarrow>
          (if el_forwards l \<and> length (el_queue l) < el_capacity l
           then l\<lparr>el_queue := el_queue l @ [im]\<rparr> else l)
      | OtherEvent \<Rightarrow> l
      | ConnectionLost \<Rightarrow> l\<lparr>el_connected := False\<rparr>
      | Handled \<Rightarrow> l\<lparr>el_queue := tl (el_queue l)\<rparr>
      | Cancelled \<Rightarrow> l\<lparr>el_done := True\<rparr>)"

definition run_events :: "string list \<Rightarrow> mqtt_event list \<Rightarrow> event_loop \<Rightarrow> event_loop" where
  "run_events subs evs l = fold (event_step subs) evs l"

lemma event_step_queue:
  "length (el_queue l) \<le> el_capacity l \<Longrightarrow>
     length (el_queue (event_step subs ev l)) \<le> el_capacity l \<and>
     el_capacity (event_step subs ev l) = el_capacity l"
  by (auto split: mqtt_event.splits)

interpretation incoming: stepping "event_step subs"
    "\<lambda>l. el_capacity l = c \<and> length (el_queue l) \<le> c" for subs c
  using event_step_queue by unfold_locales metis

lemma run_events_queue:
  "length (el_queue l) \<le> el_capacity l \<Longrightarrow>
     length (el_queue (run_events subs evs l)) \<le> el_capacity l"
  using incoming.inv_run [of l "el_capacity l" subs evs] by (simp add: run_events_def)

lemma resubscribe_all:
  assumes "\<And>n. mq_accepts m n"
  shows "mq_subscribed (resubscribe topics m) = mq_subscribed m @ topics"
  using assms
proof (induction topics arbitrary: m)
  case Nil
  then show ?case by (simp add: resubscribe_def)
next
  case (Cons t ts)
  have "mq_accepts (snd (subscribe t m)) = mq_accepts m"
    "mq_subscribed (snd (subscribe t m)) = mq_subscribed m @ [t]"
    using Cons.prems by (simp_all add: subscribe_def Let_def)
  with Cons show ?case by (simp add: resubscribe_def)
qed

text \<open>
  Whatever the broker sends, the channel to the operation handler never holds more than its
  capacity, and every connection acknowledged while the loop runs renews every subscription once.
\<close>

theorem event_loop_bounded:
  assumes "length (el_queue l) \<le> el_capacity l" "\<And>n. mq_accepts (el_mqtt l) n" "\<not> el_done l"
  shows "length (el_queue (run_events subs evs l)) \<le> el_capacity l \<and>
    mq_subscribed (el_mqtt (event_step subs ConnAck l)) = mq_subscribed (el_mqtt l) @ subs"
  using assms by (simp add: run_events_queue resubscribe_all)

definition demo_mqtt :: mqtt where
  "demo_mqtt = fst (mqtt_new ''opcua-gateway'' (\<lambda>_. True))"

definition demo_loop :: event_loop where
  "demo_loop =
     \<lparr>el_mqtt = demo_mqtt, el_connected = False, el_forwards = True, el_capacity = 1,
      el_queue = [], el_done = False\<rparr>"

lemma event_loop_bounded_witness:
  "length (el_queue (run_events [c8y_operation_topic]
      [ConnAck, Incoming \<lparr>im_topic = ''t'', im_payload = []\<rparr>,
       Incoming \<lparr>im_topic = ''t'', im_payload = []\<rparr>] demo_loop)) \<le> 1 \<and>
   mq_subscribed (el_mqtt (event_step [c8y_operation_topic] ConnAck demo_loop)) =
     [c8y_operation_topic]"
  using event_loop_bounded [of demo_loop "[c8y_operation_topic]"
      "[ConnAck, Incoming \<lparr>im_topic = ''t'', im_payload = []\<rparr>,
        Incoming \<lparr>im_topic = ''t'', im_payload = []\<rparr>]"]
  by (simp add: demo_loop_def demo_mqtt_def mqtt_new_def Let_def del: event_step.simps)

end
