(* ===== verification/Proxy.thy ===== *)
theory Proxy
  imports Json Rust_Str
begin

text \<open>
  Cumulocity through the thin-edge proxy: \<open>crates/tedge/src/proxy.rs\<close>. The HTTP client of
  \<open>reqwest\<close> is a record of two functions on an arbitrary state \<open>'w\<close> of the world: a request
  either fails to be sent or yields a status and a body, which is \<open>None\<close> where it is not JSON.
\<close>

datatype http_response = SendFailed | Response u16 "json option"

record 'w http =
  http_get :: "string \<Rightarrow> 'w \<Rightarrow> http_response \<times> 'w"
  http_post :: "string \<Rightarrow> json \<Rightarrow> 'w \<Rightarrow> http_response \<times> 'w"
  http_base_url :: string
  http_urlencode :: "string \<Rightarrow> string"

datatype proxy_error =
    ClientError
  | ReadFileError string
  | RequestError string
  | CloudUnreachable
  | StatusError string u16

definition is_transient :: "proxy_error \<Rightarrow> bool" where
  "is_transient e =
     (case e of
        CloudUnreachable \<Rightarrow> True
      | RequestError _ \<Rightarrow> True
      | StatusError _ status \<Rightarrow> status = 401 \<or> 500 \<le> status
      | ClientError \<Rightarrow> False
      | ReadFileError _ \<Rightarrow> False)"

section \<open>The client\<close>

record proxy_config =
  px_base_url :: string
  px_client_cert :: "string option"
  px_client_key :: "string option"
  px_ca_cert :: "string option"

definition trim_end_matches :: "char \<Rightarrow> string \<Rightarrow> string" where
  "trim_end_matches d s = rev (dropWhile (\<lambda>c. c = d) (rev s))"

definition read_file :: "(string \<Rightarrow> string option) \<Rightarrow> string \<Rightarrow> proxy_error + string" where
  "read_file fs path = (case fs path of None \<Rightarrow> Inl (ReadFileError path) | Some s \<Rightarrow> Inr s)"

text \<open>
  \<open>C8yProxy::new\<close>: \<open>fs\<close> reads files, \<open>identity_ok\<close>, \<open>bundle_ok\<close> and \<open>build_ok\<close> say whether
  \<open>reqwest\<close> accepts a certificate, a bundle and the configuration. The result is the base URL.
\<close>

definition proxy_new ::
    "(string \<Rightarrow> string option) \<Rightarrow> (string \<Rightarrow> bool) \<Rightarrow> (string \<Rightarrow> bool) \<Rightarrow> bool \<Rightarrow>
     proxy_config \<Rightarrow> proxy_error + string" where
  "proxy_new fs identity_ok bundle_ok build_ok c =
     (let cert_result =
            (case (px_client_cert c, px_client_key c) of
               (Some cert, Some key) \<Rightarrow>
                 (case read_file fs cert of
                    Inl e \<Rightarrow> Inl e
                  | Inr pem \<Rightarrow>
                      (case read_file fs key of
                         Inl e \<Rightarrow> Inl e
                       | Inr pem' \<Rightarrow>
                           (if identity_ok (pem @ pem') then Inr () else Inl ClientError)))
             | _ \<Rightarrow> Inr ()) in
      case cert_result of
        Inl e \<Rightarrow> Inl e
      | Inr _ \<Rightarrow>
          (case (case px_ca_cert c of
                   None \<Rightarrow> Inr ()
                 | Some ca \<Rightarrow>
                     (case read_file fs ca of
                        Inl e \<Rightarrow> Inl e
                      | Inr pem \<Rightarrow> (if bundle_ok pem then Inr () else Inl ClientError))) of
             Inl e \<Rightarrow> Inl e
           | Inr _ \<Rightarrow>
               (if build_ok then Inr (trim_end_matches CHR ''/'' (px_base_url c))
                else Inl ClientError)))"

section \<open>Requests\<close>

definition is_success :: "u16 \<Rightarrow> bool" where
  "is_success status \<longleftrightarrow> 200 \<le> status \<and> status < 300"

definition get_json_once :: "'w http \<Rightarrow> string \<Rightarrow> 'w \<Rightarrow> (proxy_error + json) \<times> 'w" where
  "get_json_once h url w =
     (case http_get h url w of
        (SendFailed, w) \<Rightarrow> (Inl (RequestError url), w)
      | (Response status b, w) \<Rightarrow>
          (if status = 502 then (Inl CloudUnreachable, w)
           else if \<not> is_success status then (Inl (StatusError url status), w)
           else case b of
                  None \<Rightarrow> (Inl (RequestError url), w)
                | Some v \<Rightarrow> (Inr v, w)))"

definition post_json_once :: "'w http \<Rightarrow> string \<Rightarrow> json \<Rightarrow> 'w \<Rightarrow> (proxy_error + unit) \<times> 'w" where
  "post_json_once h url payload w =
     (case http_post h url payload w of
        (SendFailed, w) \<Rightarrow> (Inl (RequestError url), w)
      | (Response status _, w) \<Rightarrow>
          (if status = 502 then (Inl CloudUnreachable, w)
           else if \<not> is_success status then (Inl (StatusError url status), w)
           else (Inr (), w)))"

fun is_401 :: "proxy_error + 'a \<Rightarrow> bool" where
  "is_401 (Inl (StatusError _ status)) = (status = 401)"
| "is_401 _ = False"

definition get_json :: "'w http \<Rightarrow> string \<Rightarrow> 'w \<Rightarrow> (proxy_error + json) \<times> 'w" where
  "get_json h url w =
     (let (r, w) = get_json_once h url w in
      if is_401 r then get_json_once h url w else (r, w))"

definition post_json :: "'w http \<Rightarrow> string \<Rightarrow> json \<Rightarrow> 'w \<Rightarrow> (proxy_error + unit) \<times> 'w" where
  "post_json h url payload w =
     (let (r, w) = post_json_once h url payload w in
      if is_401 r then post_json_once h url payload w else (r, w))"

definition show_u32 :: "u32 \<Rightarrow> string" where
  "show_u32 n = show_nat (unat n)"

definition device_types ::
    "'w http \<Rightarrow> string \<Rightarrow> string \<Rightarrow> u32 \<Rightarrow> u32 \<Rightarrow> 'w \<Rightarrow> (proxy_error + json) \<times> 'w" where
  "device_types h mo_type fragment_type page page_size w =
     get_json h
       (http_base_url h @ ''/inventory/managedObjects?type='' @ mo_type @ ''&fragmentType='' @
        fragment_type @ ''&pageSize='' @ show_u32 page_size @ ''&currentPage='' @
        show_u32 page @ ''&withTotalPages=true'') w"

definition get_managed_object :: "'w http \<Rightarrow> string \<Rightarrow> 'w \<Rightarrow> (proxy_error + json) \<times> 'w" where
  "get_managed_object h i w =
     get_json h (http_base_url h @ ''/inventory/managedObjects/'' @ i) w"

definition child_devices ::
    "'w http \<Rightarrow> string \<Rightarrow> u32 \<Rightarrow> u32 \<Rightarrow> 'w \<Rightarrow> (proxy_error + json) \<times> 'w" where
  "child_devices h i page page_size w =
     get_json h
       (http_base_url h @ ''/inventory/managedObjects/'' @ i @ ''/childDevices?pageSize='' @
        show_u32 page_size @ ''&currentPage='' @ show_u32 page @ ''&withTotalPages=true'') w"

definition managed_object_id ::
    "'w http \<Rightarrow> string \<Rightarrow> string \<Rightarrow> 'w \<Rightarrow> (proxy_error + string option) \<times> 'w" where
  "managed_object_id h id_type external_id w =
     (case get_json h
             (http_base_url h @ ''/identity/externalIds/'' @ id_type @ ''/'' @
              http_urlencode h external_id) w of
        (Inr v, w) \<Rightarrow>
          (Inr (Option.bind (Option.bind (jget ''managedObject'' v) (jget ''id'')) as_str), w)
      | (Inl e, w) \<Rightarrow>
          (case e of
             StatusError url status \<Rightarrow> if status = 404 then (Inr None, w) else (Inl e, w)
           | _ \<Rightarrow> (Inl e, w)))"

definition create_external_id ::
    "'w http \<Rightarrow> string \<Rightarrow> string \<Rightarrow> string \<Rightarrow> 'w \<Rightarrow> (proxy_error + unit) \<times> 'w" where
  "create_external_id h mo_id id_type external_id w =
     (case post_json h (http_base_url h @ ''/identity/globalIds/'' @ mo_id @ ''/externalIds'')
             (json_object [(''type'', JStr id_type), (''externalId'', JStr external_id)]) w of
        (Inr _, w) \<Rightarrow> (Inr (), w)
      | (Inl e, w) \<Rightarrow>
          (case e of
             StatusError url status \<Rightarrow> if status = 409 then (Inr (), w) else (Inl e, w)
           | _ \<Rightarrow> (Inl e, w)))"

section \<open>Retries and outcomes\<close>

text \<open>A client that records the URL of every request.\<close>

definition logged :: "'w http \<Rightarrow> ('w \<times> string list) http" where
  "logged h =
     \<lparr>http_get = (\<lambda>url (w, l). (case http_get h url w of (r, w) \<Rightarrow> (r, w, l @ [url]))),
      http_post = (\<lambda>url b (w, l). (case http_post h url b w of (r, w) \<Rightarrow> (r, w, l @ [url]))),
      http_base_url = http_base_url h, http_urlencode = http_urlencode h\<rparr>"

lemma get_json_once_logged:
  "get_json_once (logged h) url (w, l) =
     (case get_json_once h url w of (r, w) \<Rightarrow> (r, w, l @ [url]))"
  by (auto simp: get_json_once_def logged_def split: prod.splits http_response.splits option.splits)

lemma post_json_once_logged:
  "post_json_once (logged h) url b (w, l) =
     (case post_json_once h url b w of (r, w) \<Rightarrow> (r, w, l @ [url]))"
  by (auto simp: post_json_once_def logged_def split: prod.splits http_response.splits)


lemma get_json_once_error:
  "get_json_once h url w = (Inl e, w') \<Longrightarrow>
     e = RequestError url \<or> e = CloudUnreachable \<or>
     (\<exists>s. e = StatusError url s \<and> s \<noteq> 502 \<and> \<not> is_success s)"
  by (auto simp: get_json_once_def split: prod.splits http_response.splits option.splits if_splits)

lemma get_json_error:
  "get_json h url w = (Inl e, w') \<Longrightarrow>
     e = RequestError url \<or> e = CloudUnreachable \<or>
     (\<exists>s. e = StatusError url s \<and> s \<noteq> 502 \<and> \<not> is_success s)"
  using get_json_once_error [of h url]
  by (auto simp: get_json_def Let_def split: prod.splits if_splits)

lemma post_json_once_error:
  "post_json_once h url b w = (Inl e, w') \<Longrightarrow>
     e = RequestError url \<or> e = CloudUnreachable \<or>
     (\<exists>s. e = StatusError url s \<and> s \<noteq> 502 \<and> \<not> is_success s)"
  by (auto simp: post_json_once_def split: prod.splits http_response.splits if_splits)

lemma post_json_error:
  "post_json h url b w = (Inl e, w') \<Longrightarrow>
     e = RequestError url \<or> e = CloudUnreachable \<or>
     (\<exists>s. e = StatusError url s \<and> s \<noteq> 502 \<and> \<not> is_success s)"
  using post_json_once_error [of h url b]
  by (auto simp: post_json_def Let_def split: prod.splits if_splits)

text \<open>Errors that retrying later may not cure: a status below 500 that the server chose.\<close>

definition permanent_status :: "proxy_error \<Rightarrow> u16 \<Rightarrow> bool" where
  "permanent_status e s \<longleftrightarrow>
     (\<exists>url. e = StatusError url s) \<and> s < 500 \<and> \<not> is_success s \<and> s \<noteq> 401"

lemma request_error_kinds:
  assumes "e = RequestError url \<or> e = CloudUnreachable \<or>
     (\<exists>s. e = StatusError url s \<and> s \<noteq> 502 \<and> \<not> is_success s)"
  shows "is_transient e \<or> (\<exists>s. permanent_status e s)"
  using assms by (auto simp: is_transient_def permanent_status_def)

text \<open>
  Looking up and planting an external id treat the answer that means the wanted state as
  success: no lookup fails with 404 and no planting with 409. Any other failure either asks for
  another try later or is a status below 500 the server chose, never 401.
\<close>

theorem external_id_errors:
  "(case fst (managed_object_id h ty i w) of
      Inr _ \<Rightarrow> True
    | Inl e \<Rightarrow> is_transient e \<or> (\<exists>s. permanent_status e s \<and> s \<noteq> 404)) \<and>
   (case fst (create_external_id h mo ty i w) of
      Inr _ \<Rightarrow> True
    | Inl e \<Rightarrow> is_transient e \<or> (\<exists>s. permanent_status e s \<and> s \<noteq> 409))"
proof (rule conjI)
  let ?get = "get_json h (http_base_url h @ ''/identity/externalIds/'' @ ty @ ''/'' @
    http_urlencode h i) w"
  obtain r w' where r: "?get = (r, w')" by fastforce
  show "case fst (managed_object_id h ty i w) of
      Inr _ \<Rightarrow> True
    | Inl e \<Rightarrow> is_transient e \<or> (\<exists>s. permanent_status e s \<and> s \<noteq> 404)"
  proof (cases r)
    case (Inl e)
    with r have "is_transient e \<or> (\<exists>s. permanent_status e s)"
      by (intro request_error_kinds get_json_error) simp
    with r Inl show ?thesis
      by (cases e) (auto simp: managed_object_id_def permanent_status_def)
  qed (use r in \<open>simp add: managed_object_id_def\<close>)
next
  let ?post = "post_json h (http_base_url h @ ''/identity/globalIds/'' @ mo @ ''/externalIds'')
    (json_object [(''type'', JStr ty), (''externalId'', JStr i)]) w"
  obtain r w' where r: "?post = (r, w')" by fastforce
  show "case fst (create_external_id h mo ty i w) of
      Inr _ \<Rightarrow> True
    | Inl e \<Rightarrow> is_transient e \<or> (\<exists>s. permanent_status e s \<and> s \<noteq> 409)"
  proof (cases r)
    case (Inl e)
    with r have "is_transient e \<or> (\<exists>s. permanent_status e s)"
      by (intro request_error_kinds post_json_error) simp
    with r Inl show ?thesis
      by (cases e) (auto simp: create_external_id_def permanent_status_def)
  qed (use r in \<open>simp add: create_external_id_def\<close>)
qed

end
