(* ===== verification/Opcua_Conn.thy ===== *)
theory Opcua_Conn
  imports Opc_Types Device_Model Step_Machines
begin

text \<open>
  The OPC UA connection: \<open>crates/opcua-conn/src/lib.rs\<close>. The session of \<open>async-opcua\<close> is a record
  of its service calls on an arbitrary state \<open>'w\<close> of the server; each call returns an error text
  or its response.
\<close>

definition hierarchical_references :: u32 where
  "hierarchical_references = 33"

definition path_fully_resolved :: u32 where
  "path_fully_resolved = - 1"

definition drop_report_interval :: nat where
  "drop_report_interval = 30000"

definition bad_unexpected_error :: status_code where
  "bad_unexpected_error = 0x80010000"

datatype conn_error =
    ConnConfig string
  | ConnRequest string
  | NoNamespaceArray
  | ConnectTimeout nat
  | InvalidRange string

record credentials =
  cd_user :: string
  cd_password :: string

datatype security_mode = ModeNone | ModeSignAndEncrypt

record server_endpoint =
  ep_id :: string
  ep_url :: string
  ep_security_policy :: string
  ep_security_mode :: security_mode
  ep_user :: "credentials option"

section \<open>Requests and responses\<close>

record path_element =
  pe_reference_type :: node_id
  pe_is_inverse :: bool
  pe_include_subtypes :: bool
  pe_target_name :: qualified_name

record browse_path =
  bp_starting_node :: node_id
  bp_elements :: "path_element list"

record expanded_node_id =
  xn_namespace_uri :: string
  xn_node_id :: node_id

record browse_target =
  bt_target_id :: expanded_node_id
  bt_remaining_path_index :: u32

record browse_result =
  br_status :: status_code
  br_targets :: "browse_target list option"

record sub_params =
  su_publishing_interval :: nat
  su_lifetime_count :: u32
  su_max_keep_alive_count :: u32
  su_max_notifications :: u32
  su_priority :: u8

definition sub_params_default :: sub_params where
  "sub_params_default =
     \<lparr>su_publishing_interval = 100, su_lifetime_count = 600, su_max_keep_alive_count = 200,
      su_max_notifications = 500, su_priority = 0\<rparr>"

record item_spec =
  is_node_id :: node_id
  is_sampling_interval_ms :: "f64 option"
  is_queue_size :: u32
  is_discard_oldest :: bool
  is_trigger :: data_change_trigger
  is_deadband :: "(deadband \<times> f64) option"
  is_index_range :: "string option"

text \<open>A \<open>DataChangeFilter\<close>; the deadband type \<open>None\<close> is \<open>None\<close>.\<close>

record data_filter =
  df_trigger :: data_change_trigger
  df_deadband_type :: "deadband option"
  df_deadband_value :: f64

record item_request =
  ir_node_id :: node_id
  ir_index_range :: "string option"
  ir_client_handle :: u32
  ir_sampling_interval :: f64
  ir_filter :: "data_filter option"
  ir_queue_size :: u32
  ir_discard_oldest :: bool

record created_item =
  ci_status :: status_code
  ci_client_handle :: u32

record 'w session =
  ss_translate :: "browse_path list \<Rightarrow> 'w \<Rightarrow> (string + browse_result list) \<times> 'w"
  ss_read :: "node_id list \<Rightarrow> f64 \<Rightarrow> 'w \<Rightarrow> (string + data_value list) \<times> 'w"
  ss_create_subscription :: "sub_params \<Rightarrow> 'w \<Rightarrow> (string + u32) \<times> 'w"
  ss_create_items :: "u32 \<Rightarrow> item_request list \<Rightarrow> 'w \<Rightarrow> (string + created_item list) \<times> 'w"
  ss_range_ok :: "string \<Rightarrow> bool"

definition of_request :: "(string + 'a) \<times> 'w \<Rightarrow> (conn_error + 'a) \<times> 'w" where
  "of_request r = (case r of (Inl e, w) \<Rightarrow> (Inl (ConnRequest e), w) | (Inr x, w) \<Rightarrow> (Inr x, w))"

section \<open>Connecting\<close>

text \<open>
  \<open>connect\<close> on what the client library did: whether it accepts the configuration, what connecting
  to the endpoint yields within the timeout (\<open>None\<close> past it), and whether the session activated.
\<close>

definition connect ::
    "nat \<Rightarrow> string list option \<Rightarrow> (string + 's) option \<Rightarrow> bool \<Rightarrow> conn_error + 's" where
  "connect connect_timeout config_errors attempt activated =
     (case config_errors of
        Some es \<Rightarrow> Inl (ConnConfig (join_with '', '' es))
      | None \<Rightarrow>
          (case attempt of
             None \<Rightarrow> Inl (ConnectTimeout connect_timeout)
           | Some (Inl e) \<Rightarrow> Inl (ConnRequest e)
           | Some (Inr s) \<Rightarrow>
               (if \<not> activated then Inl (ConnectTimeout connect_timeout) else Inr s)))"

definition server_namespace_array :: node_id where
  "server_namespace_array = NodeId 0 (Numeric 2255)"

definition namespace_array ::
    "opc_lib \<Rightarrow> 'w session \<Rightarrow> 'w \<Rightarrow> (conn_error + string list) \<times> 'w" where
  "namespace_array lib s w =
     (case of_request (ss_read s [server_namespace_array] 0 w) of
        (Inl e, w) \<Rightarrow> (Inl e, w)
      | (Inr vals, w) \<Rightarrow>
          (case Option.bind (slice_get vals 0) dv_value of
             Some (VArray vs) \<Rightarrow>
               (Inr (map (\<lambda>v. case v of VString t \<Rightarrow> t | other \<Rightarrow> lib_debug lib other) vs), w)
           | _ \<Rightarrow> (Inl NoNamespaceArray, w)))"

section \<open>Browse paths and reads\<close>

definition to_node_id :: "expanded_node_id \<Rightarrow> node_id option" where
  "to_node_id x = (if xn_namespace_uri x \<noteq> [] then None else Some (xn_node_id x))"

definition path_request :: "node_id \<Rightarrow> qualified_name list \<Rightarrow> browse_path" where
  "path_request root path =
     \<lparr>bp_starting_node = root,
      bp_elements = map (\<lambda>name.
        \<lparr>pe_reference_type = NodeId 0 (Numeric hierarchical_references), pe_is_inverse = False,
         pe_include_subtypes = True, pe_target_name = name\<rparr>) path\<rparr>"

definition path_target :: "opc_lib \<Rightarrow> browse_result option \<Rightarrow> node_id option" where
  "path_target lib r =
     (case r of
        None \<Rightarrow> None
      | Some result \<Rightarrow>
          (if \<not> lib_is_good lib (br_status result) then None
           else Option.bind
                  (find (\<lambda>t. bt_remaining_path_index t = path_fully_resolved)
                    (unwrap_or [] (br_targets result)))
                  (\<lambda>t. to_node_id (bt_target_id t))))"

definition translate_browse_paths ::
    "opc_lib \<Rightarrow> 'w session \<Rightarrow> node_id \<Rightarrow> qualified_name list list \<Rightarrow> 'w \<Rightarrow>
     (conn_error + node_id option list) \<times> 'w" where
  "translate_browse_paths lib s root paths w =
     (if paths = [] then (Inr [], w)
      else case of_request (ss_translate s (map (path_request root) paths) w) of
             (Inl e, w) \<Rightarrow> (Inl e, w)
           | (Inr results, w) \<Rightarrow>
               (Inr (map (\<lambda>(i, _). path_target lib (slice_get results i)) (enumerate 0 paths)), w))"

definition read_values ::
    "'w session \<Rightarrow> node_id list \<Rightarrow> f64 \<Rightarrow> 'w \<Rightarrow> (conn_error + data_value list) \<times> 'w" where
  "read_values s nodes age w =
     (if nodes = [] then (Inr [], w) else of_request (ss_read s nodes age w))"

section \<open>Subscriptions\<close>

text \<open>What the callback of the subscription does is \<open>notify_step\<close> below.\<close>

definition create_subscription ::
    "'w session \<Rightarrow> sub_params \<Rightarrow> 'w \<Rightarrow> (conn_error + u32) \<times> 'w" where
  "create_subscription s params w = of_request (ss_create_subscription s params w)"

section \<open>Monitored items\<close>

definition data_change_filter :: "item_spec \<Rightarrow> data_filter option" where
  "data_change_filter item =
     (if is_trigger item = TrStatusValue \<and> is_deadband item = None then None
      else Some \<lparr>df_trigger = is_trigger item,
                 df_deadband_type = map_option fst (is_deadband item),
                 df_deadband_value = unwrap_or 0 (map_option snd (is_deadband item))\<rparr>)"

definition item_request_of :: "item_spec \<Rightarrow> item_request" where
  "item_request_of item =
     \<lparr>ir_node_id = is_node_id item, ir_index_range = is_index_range item, ir_client_handle = 0,
      ir_sampling_interval = unwrap_or (f64_of_int (- 1)) (is_sampling_interval_ms item),
      ir_filter = data_change_filter item, ir_queue_size = is_queue_size item,
      ir_discard_oldest = is_discard_oldest item\<rparr>"

fun item_requests :: "'w session \<Rightarrow> item_spec list \<Rightarrow> conn_error + item_request list" where
  "item_requests s [] = Inr []"
| "item_requests s (item # items) =
     (case opt_filter (\<lambda>r. \<not> ss_range_ok s r) (is_index_range item) of
        Some r \<Rightarrow> Inl (InvalidRange r)
      | None \<Rightarrow>
          (case item_requests s items of
             Inl e \<Rightarrow> Inl e
           | Inr rs \<Rightarrow> Inr (item_request_of item # rs)))"

definition item_result :: "opc_lib \<Rightarrow> created_item option \<Rightarrow> status_code + u32" where
  "item_result lib c =
     (case c of
        Some item \<Rightarrow>
          (if lib_is_good lib (ci_status item) then Inr (ci_client_handle item)
           else Inl (ci_status item))
      | None \<Rightarrow> Inl bad_unexpected_error)"

definition create_monitored_items ::
    "opc_lib \<Rightarrow> 'w session \<Rightarrow> u32 \<Rightarrow> item_spec list \<Rightarrow> 'w \<Rightarrow>
     (conn_error + (status_code + u32) list) \<times> 'w" where
  "create_monitored_items lib s subscription items w =
     (if items = [] then (Inr [], w)
      else case item_requests s items of
             Inl e \<Rightarrow> (Inl e, w)
           | Inr requests \<Rightarrow>
               (case of_request (ss_create_items s subscription requests w) of
                  (Inl e, w) \<Rightarrow> (Inl e, w)
                | (Inr created, w) \<Rightarrow>
                    (Inr (map (\<lambda>(i, _). item_result lib (slice_get created i))
                       (enumerate 0 items)), w)))"

section \<open>The notification callback\<close>

record data_change =
  ch_client_handle :: u32
  ch_node_id :: node_id
  ch_value :: data_value

text \<open>
  The state the callback closes over, the bounded channel it fills, and the counts of the warnings
  it has issued. Time is in milliseconds.
\<close>

record notifier =
  no_dropped :: u64
  no_last_report :: nat
  no_capacity :: nat
  no_queue :: "data_change list"
  no_reports :: "u64 list"

datatype notice = Notify nat data_change | Taken

fun notify_step :: "notice \<Rightarrow> notifier \<Rightarrow> notifier" where
  "notify_step (Notify now change) n =
     (if length (no_queue n) < no_capacity n then n\<lparr>no_queue := no_queue n @ [change]\<rparr>
      else
        (let dropped = no_dropped n + 1 in
         if now - no_last_report n \<ge> drop_report_interval
         then n\<lparr>no_dropped := 0, no_last_report := now, no_reports := no_reports n @ [dropped]\<rparr>
         else n\<lparr>no_dropped := dropped\<rparr>))"
| "notify_step Taken n = n\<lparr>no_queue := tl (no_queue n)\<rparr>"

section \<open>Alignment\<close>

text \<open>
  C22. A translation answers every path in its place, and binds a node only where the server
  reported success with a target that resolves the whole path and is given by namespace index: a
  short, failed or partial answer never shifts or invents a node.
\<close>

theorem translate_aligned:
  assumes "translate_browse_paths lib s root paths w = (Inr rs, w')"
  shows "length rs = length paths \<and>
    (\<forall>i < length paths. \<forall>n. rs ! i = Some n \<longrightarrow>
       (\<exists>results result t.
          fst (ss_translate s (map (path_request root) paths) w) = Inr results \<and>
          i < length results \<and> results ! i = result \<and>
          lib_is_good lib (br_status result) \<and> t \<in> set (unwrap_or [] (br_targets result)) \<and>
          bt_remaining_path_index t = - 1 \<and>
          bt_target_id t = \<lparr>xn_namespace_uri = [], xn_node_id = n\<rparr>))"
proof (cases "paths = []")
  case True
  with assms show ?thesis by (simp add: translate_browse_paths_def)
next
  case False
  then obtain results where
    r: "fst (ss_translate s (map (path_request root) paths) w) = Inr results" and
    rs: "rs = map (\<lambda>(i, _). path_target lib (slice_get results i)) (enumerate 0 paths)"
    using assms
    by (auto simp: translate_browse_paths_def of_request_def split: prod.splits sum.splits)
  have "\<exists>t. i < length results \<and> lib_is_good lib (br_status (results ! i)) \<and>
      t \<in> set (unwrap_or [] (br_targets (results ! i))) \<and> bt_remaining_path_index t = - 1 \<and>
      bt_target_id t = \<lparr>xn_namespace_uri = [], xn_node_id = n\<rparr>"
    if "i < length paths" "rs ! i = Some n" for i n
  proof -
    from that have "path_target lib (slice_get results i) = Some n"
      by (simp add: rs nth_enumerate_eq)
    then obtain t where t: "i < length results" "lib_is_good lib (br_status (results ! i))"
      "find (\<lambda>t. bt_remaining_path_index t = path_fully_resolved)
         (unwrap_or [] (br_targets (results ! i))) = Some t"
      "to_node_id (bt_target_id t) = Some n"
      by (auto simp: path_target_def slice_get_def bind_eq_Some_conv split: option.splits if_splits)
    from t(3) have "t \<in> set (unwrap_or [] (br_targets (results ! i)))"
      "bt_remaining_path_index t = - 1"
      by (auto simp: find_Some_iff path_fully_resolved_def)
    moreover from t(4) have "bt_target_id t = \<lparr>xn_namespace_uri = [], xn_node_id = n\<rparr>"
      by (cases "bt_target_id t") (auto simp: to_node_id_def split: if_splits)
    ultimately show ?thesis using t(1, 2) by blast
  qed
  with r rs show ?thesis by auto
qed

definition demo_session :: "unit session" where
  "demo_session =
     \<lparr>ss_translate = (\<lambda>ps w.
        (Inr (map (\<lambda>p. \<lparr>br_status = 0,
           br_targets = Some [\<lparr>bt_target_id = \<lparr>xn_namespace_uri = [], xn_node_id = NodeId 2 (Numeric 7)\<rparr>,
                               bt_remaining_path_index = - 1\<rparr>]\<rparr>) ps), w)),
      ss_read = (\<lambda>ns a w. (Inr (map (\<lambda>_.
        \<lparr>dv_value = Some (VInt32 42), dv_status = Some 0, dv_source_timestamp = None,
         dv_server_timestamp = None\<rparr>) ns), w)),
      ss_create_subscription = (\<lambda>p w. (Inr 1, w)),
      ss_create_items = (\<lambda>i rs w.
        (Inr (map (\<lambda>_. \<lparr>ci_status = 0, ci_client_handle = 5\<rparr>) rs), w)),
      ss_range_ok = (\<lambda>r. True)\<rparr>"

lemma translate_aligned_witness:
  "length [Some (NodeId 2 (Numeric 7))] = length [[QName 2 ''Flow'']]"
proof -
  have "translate_browse_paths demo_lib demo_session (NodeId 0 (Numeric 84)) [[QName 2 ''Flow'']] () =
      (Inr [Some (NodeId 2 (Numeric 7))], ())"
    by code_simp
  from translate_aligned [OF this] show ?thesis by simp
qed

lemma item_requests_Inr:
  "item_requests s items = Inr rs \<longleftrightarrow>
     rs = map item_request_of items \<and>
     (\<forall>item \<in> set items. is_none_or (ss_range_ok s) (is_index_range item))"
proof (induction items arbitrary: rs)
  case Nil
  then show ?case by auto
next
  case (Cons item items)
  show ?case
  proof (cases "is_none_or (ss_range_ok s) (is_index_range item)")
    case True
    then have "opt_filter (\<lambda>r. \<not> ss_range_ok s r) (is_index_range item) = None"
      by (simp add: opt_filter_None)
    with True Cons.IH show ?thesis by (cases "item_requests s items") auto
  next
    case False
    then obtain r where "opt_filter (\<lambda>r. \<not> ss_range_ok s r) (is_index_range item) = Some r"
      by (cases "is_index_range item") auto
    with False show ?thesis by auto
  qed
qed

lemma item_requests_Inl:
  "item_requests s items = Inl e \<Longrightarrow> \<exists>item \<in> set items. \<exists>r.
     is_index_range item = Some r \<and> \<not> ss_range_ok s r \<and> e = InvalidRange r"
  by (induction items) (auto split: option.splits sum.splits)

lemma create_monitored_items_Inr:
  assumes "create_monitored_items lib s sub items w = (Inr rs, w')" "items \<noteq> []"
  shows "\<exists>created. fst (ss_create_items s sub (map item_request_of items) w) = Inr created \<and>
    rs = map (\<lambda>i. item_result lib (slice_get created i)) [0..<length items]"
proof -
  obtain requests created where "item_requests s items = Inr requests"
    "fst (ss_create_items s sub requests w) = Inr created"
    "rs = map (\<lambda>(i, _). item_result lib (slice_get created i)) (enumerate 0 items)"
    using assms
    by (auto simp: create_monitored_items_def of_request_def split: sum.splits prod.splits)
  moreover have "map (\<lambda>(i, _). item_result lib (slice_get created i)) (enumerate 0 items) =
      map (\<lambda>i. item_result lib (slice_get created i)) [0..<length items]"
    by (rule nth_equalityI) (auto simp: nth_enumerate_eq)
  ultimately show ?thesis by (auto simp: item_requests_Inr)
qed

text \<open>
  Creating monitored items answers every item in its place: the handle the server assigned
  where it accepted the item, its status where it refused it, and an unexpected error where it did
  not answer; and nothing is asked of the server when one of the ranges is malformed. An item with
  the default trigger and no deadband carries no filter, every other one its own.
\<close>

theorem monitored_items_aligned:
  "(case create_monitored_items lib s sub items w of
      (Inr rs, _) \<Rightarrow>
        items = [] \<and> rs = [] \<or>
        (\<exists>created. fst (ss_create_items s sub (map item_request_of items) w) = Inr created \<and>
           rs = map (\<lambda>i. item_result lib (slice_get created i)) [0..<length items])
    | (Inl (InvalidRange r), w') \<Rightarrow>
        w' = w \<and> (\<exists>item \<in> set items. is_index_range item = Some r \<and> \<not> ss_range_ok s r)
    | (Inl (ConnRequest e), _) \<Rightarrow>
        fst (ss_create_items s sub (map item_request_of items) w) = Inl e
    | (Inl _, _) \<Rightarrow> False) \<and>
   (ir_filter (item_request_of item) = None \<longleftrightarrow>
      is_trigger item = TrStatusValue \<and> is_deadband item = None)"
proof -
  have aligned: "map (\<lambda>(i, _). item_result lib (slice_get created i)) (enumerate 0 items) =
      map (\<lambda>i. item_result lib (slice_get created i)) [0..<length items]" for created
    by (rule nth_equalityI) (auto simp: nth_enumerate_eq)
  have filter: "ir_filter (item_request_of item) = None \<longleftrightarrow>
      is_trigger item = TrStatusValue \<and> is_deadband item = None"
    by (simp add: item_request_of_def data_change_filter_def)
  show ?thesis
  proof (cases "items = []")
    case True
    with filter show ?thesis by (simp add: create_monitored_items_def)
  next
    case ne: False
    show ?thesis
    proof (cases "item_requests s items")
      case (Inl e)
      with item_requests_Inl [OF Inl] filter ne show ?thesis
        by (auto simp: create_monitored_items_def)
    next
      case (Inr requests)
      then have "requests = map item_request_of items" by (simp add: item_requests_Inr)
      with Inr filter ne show ?thesis
        by (cases "ss_create_items s sub (map item_request_of items) w")
          (auto simp: create_monitored_items_def of_request_def aligned split: sum.splits)
    qed
  qed
qed

section \<open>Dropped notifications\<close>

fun refused :: "notice \<Rightarrow> notifier \<Rightarrow> bool" where
  "refused (Notify _ _) n = (\<not> length (no_queue n) < no_capacity n)"
| "refused Taken n = False"

fun count_refused :: "notice list \<Rightarrow> notifier \<Rightarrow> nat" where
  "count_refused [] n = 0"
| "count_refused (x # xs) n = (if refused x n then 1 else 0) + count_refused xs (notify_step x n)"

lemma notify_step_counts:
  "no_dropped (notify_step x n) + sum_list (no_reports (notify_step x n)) =
     no_dropped n + sum_list (no_reports n) + (if refused x n then 1 else 0)"
  by (cases x) (auto simp: Let_def)

lemma notify_step_queue:
  "length (no_queue n) \<le> no_capacity n \<Longrightarrow>
     length (no_queue (notify_step x n)) \<le> no_capacity (notify_step x n) \<and>
     no_capacity (notify_step x n) = no_capacity n"
  by (cases x) (auto simp: Let_def)

interpretation channel: stepping notify_step
    "\<lambda>n. length (no_queue n) \<le> no_capacity n \<and> no_capacity n = cap" for cap
  using notify_step_queue by unfold_locales metis

lemma notify_steps_count:
  "no_dropped (fold notify_step xs n) + sum_list (no_reports (fold notify_step xs n)) =
     no_dropped n + sum_list (no_reports n) + of_nat (count_refused xs n)"
proof (induction xs arbitrary: n)
  case (Cons x xs)
  from Cons.IH [of "notify_step x n"] notify_step_counts [of x n] show ?case
    by (simp add: algebra_simps)
qed simp

text \<open>
  However notifications and the consumer interleave, the channel never holds more than its
  capacity, and no dropped notification goes uncounted: what the warnings reported plus what the
  counter still holds is the number of notifications refused.
\<close>

theorem drops_accounted:
  assumes "length (no_queue n) \<le> no_capacity n"
  shows "length (no_queue (fold notify_step xs n)) \<le> no_capacity n \<and>
    no_dropped (fold notify_step xs n) + sum_list (no_reports (fold notify_step xs n)) =
      no_dropped n + sum_list (no_reports n) + of_nat (count_refused xs n)"
  using channel.inv_run [of n "no_capacity n" xs] assms notify_steps_count by auto

definition demo_change :: data_change where
  "demo_change =
     \<lparr>ch_client_handle = 5, ch_node_id = NodeId 2 (Numeric 7),
      ch_value = \<lparr>dv_value = Some (VInt32 42), dv_status = Some 0, dv_source_timestamp = None,
        dv_server_timestamp = None\<rparr>\<rparr>"

definition demo_notifier :: notifier where
  "demo_notifier =
     \<lparr>no_dropped = 0, no_last_report = 0, no_capacity = 1, no_queue = [], no_reports = []\<rparr>"

lemma drops_accounted_witness:
  "no_dropped (fold notify_step
      [Notify 1 demo_change, Notify 2 demo_change, Notify 40000 demo_change] demo_notifier) +
   sum_list (no_reports (fold notify_step
      [Notify 1 demo_change, Notify 2 demo_change, Notify 40000 demo_change] demo_notifier)) = 2"
  using drops_accounted [of demo_notifier
      "[Notify 1 demo_change, Notify 2 demo_change, Notify 40000 demo_change]"]
  by (simp add: demo_notifier_def drop_report_interval_def Let_def)

end
