(* ===== verification/Config.thy ===== *)
theory Config
  imports Topic Proxy Opcua_Conn
begin

text \<open>
  The configuration: \<open>crates/gateway/src/config.rs\<close>. What \<open>figment\<close> and \<open>toml\<close> read, what the
  file system holds and what the \<open>tedge\<close> command prints are arguments of the definitions that use
  them; every \<open>bail!\<close> is a value of \<open>config_error\<close>.
\<close>

section \<open>Records\<close>

record gateway_config =
  gc_enabled :: bool
  gc_id :: string
  gc_name :: string
  gc_device_id :: string
  gc_server_poll_interval_secs :: nat
  gc_supported_operations :: "string list"

definition gateway_config_default :: gateway_config where
  "gateway_config_default =
     \<lparr>gc_enabled = True, gc_id = ''opcua-gateway'', gc_name = ''OPC UA Gateway'',
      gc_device_id = [], gc_server_poll_interval_secs = 60,
      gc_supported_operations = [''c8y_OpcuaConfiguration'']\<rparr>"

definition gateway_external_id :: "gateway_config \<Rightarrow> string" where
  "gateway_external_id g = gc_device_id g @ '':device:'' @ gc_id g"

definition server_external_id :: "gateway_config \<Rightarrow> string \<Rightarrow> string" where
  "server_external_id g i =
     gc_device_id g @ '':device:'' @ gc_id g @ '':device:'' @ i"

record runtime_config =
  rc_worker_threads :: nat
  rc_connect_timeout_secs :: nat
  rc_max_backoff_secs :: nat

definition runtime_config_default :: runtime_config where
  "runtime_config_default =
     \<lparr>rc_worker_threads = 2, rc_connect_timeout_secs = 30, rc_max_backoff_secs = 60\<rparr>"

record mqtt_config =
  mqc_host :: string
  mqc_port :: u16
  mqc_client_id :: string
  mqc_service_name :: string
  mqc_capacity :: nat
  mqc_keep_alive_secs :: nat

definition mqtt_config_default :: mqtt_config where
  "mqtt_config_default =
     \<lparr>mqc_host = ''127.0.0.1'', mqc_port = 1883, mqc_client_id = ''c8y-opcua-gateway'',
      mqc_service_name = ''opcua-gateway'', mqc_capacity = 1024, mqc_keep_alive_secs = 60\<rparr>"

record pull_config =
  pc_enabled :: bool
  pc_base_url :: string
  pc_poll_interval_secs :: nat
  pc_timeout_secs :: nat
  pc_device_type_ids :: "string list"
  pc_client_cert :: "string option"
  pc_client_key :: "string option"
  pc_ca_cert :: "string option"

definition pull_config_default :: pull_config where
  "pull_config_default =
     \<lparr>pc_enabled = True, pc_base_url = ''http://127.0.0.1:8001/c8y'', pc_poll_interval_secs = 60,
      pc_timeout_secs = 30, pc_device_type_ids = [], pc_client_cert = None,
      pc_client_key = None, pc_ca_cert = None\<rparr>"

record subscription_config =
  sb_publishing_interval_ms :: nat
  sb_lifetime_count :: u32
  sb_max_keep_alive_count :: u32
  sb_max_notifications :: u32
  sb_priority :: u8
  sb_default_queue_size :: u32
  sb_channel_capacity :: nat
  sb_flush_interval_ms :: nat
  sb_flush_max_series :: nat

definition subscription_config_default :: subscription_config where
  "subscription_config_default =
     \<lparr>sb_publishing_interval_ms = 100, sb_lifetime_count = 600, sb_max_keep_alive_count = 200,
      sb_max_notifications = 500, sb_priority = 0, sb_default_queue_size = 10,
      sb_channel_capacity = 4096, sb_flush_interval_ms = 1000, sb_flush_max_series = 200\<rparr>"

definition to_sub_params :: "subscription_config \<Rightarrow> sub_params" where
  "to_sub_params c =
     \<lparr>su_publishing_interval = sb_publishing_interval_ms c,
      su_lifetime_count = sb_lifetime_count c,
      su_max_keep_alive_count = sb_max_keep_alive_count c,
      su_max_notifications = sb_max_notifications c, su_priority = sb_priority c\<rparr>"

record server_config =
  sc_id :: string
  sc_name :: string
  sc_url :: string
  sc_security_policy :: string
  sc_user :: "string option"
  sc_password :: "string option"
  sc_device_types :: "string list"
  sc_external_id :: "string option"
  sc_topic_id :: "string option"

definition server_topic_id :: "server_config \<Rightarrow> string" where
  "server_topic_id s = sanitize_id (unwrap_or (sc_name s) (sc_topic_id s))"

definition is_adopted :: "server_config \<Rightarrow> bool" where
  "is_adopted s \<longleftrightarrow> sc_external_id s \<noteq> None"

definition accepts_device_type :: "server_config \<Rightarrow> string \<Rightarrow> bool" where
  "accepts_device_type s device_type_id \<longleftrightarrow>
     sc_device_types s = [] \<or> list_ex (\<lambda>a. trim a = device_type_id) (sc_device_types s)"

definition endpoint :: "server_config \<Rightarrow> server_endpoint" where
  "endpoint s =
     \<lparr>ep_id = sc_id s, ep_url = sc_url s, ep_security_policy = sc_security_policy s,
      ep_security_mode =
        (if eq_ignore_ascii_case (sc_security_policy s) ''None'' then ModeNone
         else ModeSignAndEncrypt),
      ep_user =
        (case (sc_user s, sc_password s) of
           (Some u, Some p) \<Rightarrow> Some \<lparr>cd_user = u, cd_password = p\<rparr>
         | _ \<Rightarrow> None)\<rparr>"

record config =
  cf_runtime :: runtime_config
  cf_mqtt :: mqtt_config
  cf_proxy :: pull_config
  cf_subscription :: subscription_config
  cf_mappings_dir :: string
  cf_gateway :: gateway_config
  cf_servers :: "server_config list"

definition config_default :: config where
  "config_default =
     \<lparr>cf_runtime = runtime_config_default, cf_mqtt = mqtt_config_default,
      cf_proxy = pull_config_default, cf_subscription = subscription_config_default,
      cf_mappings_dir = ''/etc/tedge/opcua'', cf_gateway = gateway_config_default,
      cf_servers = []\<rparr>"

definition to_proxy_config :: "pull_config \<Rightarrow> proxy_config" where
  "to_proxy_config c =
     \<lparr>px_base_url = pc_base_url c, px_client_cert = pc_client_cert c,
      px_client_key = pc_client_key c, px_ca_cert = pc_ca_cert c\<rparr>"

definition connect_timeout :: "config \<Rightarrow> nat" where
  "connect_timeout c = rc_connect_timeout_secs (cf_runtime c)"

definition max_backoff :: "config \<Rightarrow> nat" where
  "max_backoff c = rc_max_backoff_secs (cf_runtime c)"

definition server_poll_interval :: "config \<Rightarrow> nat" where
  "server_poll_interval c = max (gc_server_poll_interval_secs (cf_gateway c)) 1"

section \<open>Validation\<close>

datatype config_error =
    MissingFile string
  | InvalidConfiguration
  | UnreadableServerDir
  | UnreadableServerFile string
  | MalformedServerFile string
  | UnknownDeviceId
  | NoServers
  | EmptyGatewayId
  | EmptyDeviceId
  | ZeroServerPollInterval
  | ZeroWorkerThreads
  | ZeroChannelCapacity
  | ZeroPublishingInterval
  | ZeroFlushInterval
  | EmptyServerId
  | DuplicateServerId string
  | UnsupportedUrl string
  | EmptyServerName string
  | SecuredEndpoint string
  | NoMappingSource

fun validate_servers :: "string list \<Rightarrow> server_config list \<Rightarrow> config_error + unit" where
  "validate_servers seen [] = Inr ()"
| "validate_servers seen (s # ss) =
     (if trim (sc_id s) = [] then Inl EmptyServerId
      else if sc_id s \<in> set seen then Inl (DuplicateServerId (sc_id s))
      else if \<not> starts_with (sc_url s) ''opc.tcp://'' then Inl (UnsupportedUrl (sc_id s))
      else if trim (sc_name s) = [] then Inl (EmptyServerName (sc_id s))
      else if \<not> eq_ignore_ascii_case (sc_security_policy s) ''None''
        then Inl (SecuredEndpoint (sc_id s))
      else validate_servers (seen @ [sc_id s]) ss)"

definition validate_gateway :: "gateway_config \<Rightarrow> config_error + unit" where
  "validate_gateway g =
     (if gc_enabled g then
        (if trim (gc_id g) = [] then Inl EmptyGatewayId
         else if trim (gc_device_id g) = [] then Inl EmptyDeviceId
         else if gc_server_poll_interval_secs g = 0 then Inl ZeroServerPollInterval
         else Inr ())
      else Inr ())"

text \<open>\<open>dir_exists\<close> says whether the mapping directory exists.\<close>

definition validate :: "bool \<Rightarrow> config \<Rightarrow> config_error + unit" where
  "validate dir_exists c =
     (if cf_servers c = [] \<and> \<not> gc_enabled (cf_gateway c) then Inl NoServers
      else case validate_gateway (cf_gateway c) of
        Inl e \<Rightarrow> Inl e
      | Inr _ \<Rightarrow>
          (if rc_worker_threads (cf_runtime c) = 0 then Inl ZeroWorkerThreads
           else if sb_channel_capacity (cf_subscription c) = 0 then Inl ZeroChannelCapacity
           else if sb_publishing_interval_ms (cf_subscription c) = 0
             then Inl ZeroPublishingInterval
           else if sb_flush_interval_ms (cf_subscription c) = 0 then Inl ZeroFlushInterval
           else case validate_servers [] (cf_servers c) of
             Inl e \<Rightarrow> Inl e
           | Inr _ \<Rightarrow>
               (if \<not> pc_enabled (cf_proxy c) \<and> \<not> dir_exists then Inl NoMappingSource
                else Inr ())))"

section \<open>Loading\<close>

text \<open>The files of a server directory: file name, extension and text.\<close>

record server_file =
  sf_name :: string
  sf_extension :: "string option"
  sf_text :: "string option"

datatype server_dir = SDNotFound | SDUnreadable | SDFiles "server_file list"

fun load_server_files ::
    "(string \<Rightarrow> server_config option) \<Rightarrow> server_file list \<Rightarrow> config_error + server_config list" where
  "load_server_files parse [] = Inr []"
| "load_server_files parse (f # fs) =
     (case sf_text f of
        None \<Rightarrow> Inl (UnreadableServerFile (sf_name f))
      | Some txt \<Rightarrow>
          (case parse txt of
             None \<Rightarrow> Inl (MalformedServerFile (sf_name f))
           | Some s \<Rightarrow>
               (case load_server_files parse fs of
                  Inl e \<Rightarrow> Inl e
                | Inr ss \<Rightarrow> Inr (s # ss))))"

definition load_server_dir ::
    "(string \<Rightarrow> server_config option) \<Rightarrow> server_dir \<Rightarrow> config_error + server_config list" where
  "load_server_dir parse dir =
     (case dir of
        SDNotFound \<Rightarrow> Inr []
      | SDUnreadable \<Rightarrow> Inl UnreadableServerDir
      | SDFiles fs \<Rightarrow>
          load_server_files parse
            (sort_key sf_name (filter (\<lambda>f. sf_extension f = Some ''toml'') fs)))"

definition merge_server :: "server_config \<Rightarrow> server_config list \<Rightarrow> server_config list" where
  "merge_server s out =
     (case position (\<lambda>x. sc_id x = sc_id s) out of
        Some i \<Rightarrow> out[i := s]
      | None \<Rightarrow> out @ [s])"

definition merge_servers :: "server_config list \<Rightarrow> server_config list \<Rightarrow> server_config list" where
  "merge_servers inline pushed = fold merge_server pushed inline"

text \<open>
  \<open>tedge config get device.id\<close>: \<open>None\<close> where the command cannot run or fails, else what it
  printed.
\<close>

definition discover_device_id :: "string option \<Rightarrow> config_error + string" where
  "discover_device_id output =
     (case map_option trim output of
        None \<Rightarrow> Inl UnknownDeviceId
      | Some i \<Rightarrow> (if i = [] then Inl UnknownDeviceId else Inr i))"

text \<open>
  \<open>Config::load\<close>: \<open>missing\<close> is the path of a configuration file that does not exist,
  \<open>extracted\<close> what \<open>figment\<close> makes of the defaults, the file and the environment.
\<close>

definition load_config ::
    "string option \<Rightarrow> config option \<Rightarrow> (string \<Rightarrow> server_config option) \<Rightarrow> server_dir \<Rightarrow>
     string option \<Rightarrow> bool \<Rightarrow> config_error + config" where
  "load_config missing extracted parse dir tedge_output dir_exists =
     (case missing of
        Some path \<Rightarrow> Inl (MissingFile path)
      | None \<Rightarrow>
          (case extracted of
             None \<Rightarrow> Inl InvalidConfiguration
           | Some c \<Rightarrow>
               (case load_server_dir parse dir of
                  Inl e \<Rightarrow> Inl e
                | Inr pushed \<Rightarrow>
                    (let c = c\<lparr>cf_servers := merge_servers (cf_servers c) pushed\<rparr> in
                     case (if gc_enabled (cf_gateway c) \<and> trim (gc_device_id (cf_gateway c)) = []
                           then map_sum id (\<lambda>i. c\<lparr>cf_gateway := (cf_gateway c)\<lparr>gc_device_id := i\<rparr>\<rparr>)
                                  (discover_device_id tedge_output)
                           else Inr c) of
                       Inl e \<Rightarrow> Inl e
                     | Inr c \<Rightarrow>
                         (case validate dir_exists c of
                            Inl e \<Rightarrow> Inl e
                          | Inr _ \<Rightarrow> Inr c)))))"

section \<open>What a loaded configuration guarantees\<close>

text \<open>A server the gateway can run.\<close>

definition server_ok :: "server_config \<Rightarrow> bool" where
  "server_ok s \<longleftrightarrow>
     trim (sc_id s) \<noteq> [] \<and> starts_with (sc_url s) ''opc.tcp://'' \<and> trim (sc_name s) \<noteq> [] \<and>
     ep_security_mode (endpoint s) = ModeNone"

lemma validate_servers_ok:
  "validate_servers seen ss = Inr () \<longleftrightarrow>
     distinct (map sc_id ss) \<and> set seen \<inter> sc_id ` set ss = {} \<and> list_all server_ok ss"
  by (induction ss arbitrary: seen) (auto simp: server_ok_def endpoint_def)

lemma validate_ok:
  "validate dir_exists c = Inr () \<longleftrightarrow>
     (cf_servers c \<noteq> [] \<or> gc_enabled (cf_gateway c)) \<and>
     (gc_enabled (cf_gateway c) \<longrightarrow>
        trim (gc_id (cf_gateway c)) \<noteq> [] \<and> trim (gc_device_id (cf_gateway c)) \<noteq> [] \<and>
        0 < gc_server_poll_interval_secs (cf_gateway c)) \<and>
     0 < rc_worker_threads (cf_runtime c) \<and> 0 < sb_channel_capacity (cf_subscription c) \<and>
     0 < sb_publishing_interval_ms (cf_subscription c) \<and>
     0 < sb_flush_interval_ms (cf_subscription c) \<and>
     distinct (map sc_id (cf_servers c)) \<and> list_all server_ok (cf_servers c) \<and>
     (pc_enabled (cf_proxy c) \<or> dir_exists)"
  using validate_servers_ok [of "[]" "cf_servers c"]
  by (auto simp: validate_def validate_gateway_def split: sum.splits)


definition demo_server :: server_config where
  "demo_server =
     \<lparr>sc_id = ''plc'', sc_name = ''PLC 1'', sc_url = ''opc.tcp://plc:4840'',
      sc_security_policy = ''None'', sc_user = None, sc_password = None, sc_device_types = [],
      sc_external_id = None, sc_topic_id = None\<rparr>"

definition demo_config :: config where
  "demo_config =
     config_default\<lparr>cf_servers := [demo_server],
       cf_gateway := gateway_config_default\<lparr>gc_device_id := ''tedge001''\<rparr>\<rparr>"

lemma demo_config_loads:
  "load_config None (Some (config_default\<lparr>cf_servers := [demo_server]\<rparr>)) (\<lambda>_. None) SDNotFound
     (Some '' tedge001'') True = Inr demo_config"
  by code_simp


section \<open>Merging servers\<close>

definition last_server :: "string \<Rightarrow> server_config list \<Rightarrow> server_config option" where
  "last_server i ss = find (\<lambda>s. sc_id s = i) (rev ss)"

lemma last_server_snoc:
  "last_server i (ss @ [s]) = (if sc_id s = i then Some s else last_server i ss)"
  by (simp add: last_server_def)

lemma last_server_None: "last_server i ss = None \<longleftrightarrow> i \<notin> sc_id ` set ss"
  by (auto simp: last_server_def find_None_iff)

lemma merge_server_ids:
  "map sc_id (merge_server s out) =
     (if sc_id s \<in> sc_id ` set out then map sc_id out else map sc_id out @ [sc_id s])"
proof (cases "position (\<lambda>x. sc_id x = sc_id s) out")
  case None
  then have "sc_id s \<notin> sc_id ` set out" by (auto simp: position_None)
  with None show ?thesis by (simp add: merge_server_def)
next
  case (Some i)
  then have i: "i < length out" "sc_id (out ! i) = sc_id s" by (auto simp: position_Some)
  then have "sc_id s \<in> sc_id ` set out" by (metis image_eqI nth_mem)
  moreover have "map sc_id (out[i := s]) = map sc_id out"
    using i by (simp add: map_update list_update_same_conv)
  ultimately show ?thesis using Some by (simp add: merge_server_def)
qed

lemma merge_server_set:
  assumes "distinct (map sc_id out)"
  shows "set (merge_server s out) = insert s {x \<in> set out. sc_id x \<noteq> sc_id s}"
proof (cases "position (\<lambda>x. sc_id x = sc_id s) out")
  case None
  then have "sc_id x \<noteq> sc_id s" if "x \<in> set out" for x
    using that by (simp add: position_None)
  with None show ?thesis by (auto simp: merge_server_def)
next
  case (Some i)
  then have i: "i < length out" "sc_id (out ! i) = sc_id s" by (auto simp: position_Some)
  have uniq: "j = i" if "j < length out" "sc_id (out ! j) = sc_id s" for j
    using that i nth_eq_iff_index_eq [OF assms, of j i] by simp
  have "x \<in> set (out[i := s]) \<longleftrightarrow> x = s \<or> x \<in> set out \<and> sc_id x \<noteq> sc_id s" for x
  proof -
    have "x \<in> set (out[i := s]) \<longleftrightarrow> x = s \<or> (\<exists>j < length out. j \<noteq> i \<and> x = out ! j)"
      using i(1) by (auto simp: in_set_conv_nth nth_list_update)
    also have "\<dots> \<longleftrightarrow> x = s \<or> x \<in> set out \<and> sc_id x \<noteq> sc_id s"
    proof -
      have "(\<exists>j < length out. j \<noteq> i \<and> x = out ! j) \<longleftrightarrow> x \<in> set out \<and> sc_id x \<noteq> sc_id s"
        unfolding in_set_conv_nth using i uniq by metis
      then show ?thesis by (rule arg_cong)
    qed
    finally show ?thesis .
  qed
  with Some show ?thesis by (auto simp: merge_server_def)
qed

lemma merge_servers_distinct [inv_rules]:
  "distinct (map sc_id inline) \<Longrightarrow> distinct (map sc_id (merge_servers inline pushed))"
  by (induction pushed rule: rev_induct) (simp_all add: merge_servers_def merge_server_ids)

text \<open>
  Merging servers keeps one server for every id of either list: the last pushed one where there
  is one, else the inline one; and no server that was there moves.
\<close>

theorem merge_servers_pushed_wins:
  assumes "distinct (map sc_id inline)"
  shows "distinct (map sc_id (merge_servers inline pushed)) \<and>
    take (length inline) (map sc_id (merge_servers inline pushed)) = map sc_id inline \<and>
    (\<forall>s. s \<in> set (merge_servers inline pushed) \<longleftrightarrow>
       last_server (sc_id s) pushed = Some s \<or>
       last_server (sc_id s) pushed = None \<and> s \<in> set inline)"
proof (induction pushed rule: rev_induct)
  case Nil
  with assms show ?case by (simp add: merge_servers_def last_server_def)
next
  case (snoc p pushed)
  let ?m = "merge_servers inline pushed"
  have m: "merge_servers inline (pushed @ [p]) = merge_server p ?m"
    by (simp add: merge_servers_def)
  from snoc have d: "distinct (map sc_id ?m)"
    and t: "take (length inline) (map sc_id ?m) = map sc_id inline"
    and s: "\<And>s. s \<in> set ?m \<longleftrightarrow> last_server (sc_id s) pushed = Some s \<or>
       last_server (sc_id s) pushed = None \<and> s \<in> set inline" by blast+
  from t have "length inline \<le> length ?m" by (metis length_map length_take min.cobounded1 min_def)
  with t have "take (length inline) (map sc_id (merge_server p ?m)) = map sc_id inline"
    by (simp add: merge_server_ids)
  moreover have "distinct (map sc_id (merge_server p ?m))"
    using d by (simp add: merge_server_ids)
  moreover have "x \<in> set (merge_server p ?m) \<longleftrightarrow>
      last_server (sc_id x) (pushed @ [p]) = Some x \<or>
      last_server (sc_id x) (pushed @ [p]) = None \<and> x \<in> set inline" for x
    using s [of x] by (auto simp: merge_server_set [OF d] last_server_snoc)
  ultimately show ?case by (simp add: m)
qed

lemma merge_servers_pushed_wins_witness:
  "map sc_name (merge_servers [demo_server] [demo_server\<lparr>sc_name := ''PLC 2''\<rparr>]) = [''PLC 2''] \<and>
   distinct (map sc_id (merge_servers [demo_server] [demo_server\<lparr>sc_name := ''PLC 2''\<rparr>]))"
  using merge_servers_pushed_wins [of "[demo_server]" "[demo_server\<lparr>sc_name := ''PLC 2''\<rparr>]"]
  by (simp add: merge_servers_def merge_server_def demo_server_def)

end
