(* ===== verification/Device_Types.thy ===== *)
theory Device_Types
  imports Source Proxy Config
begin

text \<open>
  The device type provider: \<open>crates/gateway/src/device_types.rs\<close>. One turn of its loop is
  \<open>poll_step\<close>: it fetches through the proxy where there is one, reads the mapping directory, and
  says what was sent to the consumers and how long the loop sleeps. Seconds are natural numbers.
\<close>

definition dt_page_size :: u32 where
  "dt_page_size = 1000"

definition dt_max_pages :: nat where
  "dt_max_pages = 50"

section \<open>Fetching\<close>

definition read_managed_object :: "json \<Rightarrow> loaded option" where
  "read_managed_object v =
     (case de_managed_object v of
        None \<Rightarrow> None
      | Some mo \<Rightarrow> from_managed_object mo)"

fun fetch_ids ::
    "'w http \<Rightarrow> string list \<Rightarrow> loaded list \<Rightarrow> 'w \<Rightarrow> (proxy_error + loaded list) \<times> 'w" where
  "fetch_ids h [] out w = (Inr out, w)"
| "fetch_ids h (i # is) out w =
     (case get_managed_object h i w of
        (Inl e, w) \<Rightarrow> (Inl e, w)
      | (Inr v, w) \<Rightarrow>
          fetch_ids h is
            (out @ (case read_managed_object v of None \<Rightarrow> [] | Some l \<Rightarrow> [l])) w)"

text \<open>At most \<open>n\<close> further pages, from \<open>page\<close> on.\<close>

fun fetch_pages ::
    "'w http \<Rightarrow> nat \<Rightarrow> u32 \<Rightarrow> loaded list \<Rightarrow> 'w \<Rightarrow> (proxy_error + loaded list) \<times> 'w" where
  "fetch_pages h 0 page out w = (Inr out, w)"
| "fetch_pages h (Suc n) page out w =
     (case device_types h device_type_mo_type device_type_fragment page dt_page_size w of
        (Inl e, w) \<Rightarrow> (Inl e, w)
      | (Inr v, w) \<Rightarrow>
          (case de_managed_object_page v of
             None \<Rightarrow> (Inr out, w)
           | Some pg \<Rightarrow>
               (let out = out @ filter_map read_managed_object (pg_managed_objects pg);
                    last_page = is_some_and (\<lambda>total. total \<le> page)
                      (Option.bind (pg_statistics pg) stat_total_pages) in
                if last_page \<or> length (pg_managed_objects pg) < unat dt_page_size
                then (Inr out, w) else fetch_pages h n (page + 1) out w)))"

definition fetch_device_types ::
    "'w http \<Rightarrow> config \<Rightarrow> 'w \<Rightarrow> (proxy_error + loaded list) \<times> 'w" where
  "fetch_device_types h c w =
     (if pc_device_type_ids (cf_proxy c) \<noteq> []
      then fetch_ids h (pc_device_type_ids (cf_proxy c)) [] w
      else fetch_pages h dt_max_pages 1 [] w)"

section \<open>The poll loop\<close>

record provider =
  pr_revision :: revision
  pr_backoff :: nat
  pr_pulled :: "loaded list"

definition provider_init :: provider where
  "provider_init = \<lparr>pr_revision = [], pr_backoff = 1, pr_pulled = []\<rparr>"

datatype poll_end = Sleep nat | NoConsumers

definition next_backoff :: "config \<Rightarrow> nat \<Rightarrow> nat" where
  "next_backoff c backoff = min (backoff * 2) (max_backoff c)"

text \<open>What a fetch result does to the state, and the delay it asks for.\<close>

definition after_fetch ::
    "config \<Rightarrow> proxy_error + loaded list \<Rightarrow> provider \<Rightarrow> provider \<times> nat" where
  "after_fetch c r p =
     (let poll_interval = max (pc_poll_interval_secs (cf_proxy c)) 1 in
      case r of
        Inr fresh \<Rightarrow> (p\<lparr>pr_pulled := fresh, pr_backoff := 1\<rparr>, poll_interval)
      | Inl e \<Rightarrow>
          (if is_transient e
           then (p\<lparr>pr_backoff := next_backoff c (pr_backoff p)\<rparr>, pr_backoff p)
           else (p, poll_interval)))"

definition publish_merged ::
    "loaded list \<Rightarrow> bool \<Rightarrow> nat \<Rightarrow> provider \<Rightarrow> provider \<times> loaded list option \<times> poll_end" where
  "publish_merged pushed consumers delay p =
     (let merged = merge (pr_pulled p) pushed;
          fresh = revision_of merged in
      if diff_is_empty (between (pr_revision p) fresh) then (p, None, Sleep delay)
      else
        (p\<lparr>pr_revision := fresh\<rparr>, Some merged, if consumers then Sleep delay else NoConsumers))"

text \<open>One turn, given what was fetched (\<open>None\<close> without a proxy) and what the directory holds.\<close>

definition poll_with ::
    "config \<Rightarrow> (proxy_error + loaded list) option \<Rightarrow> loaded list \<Rightarrow> bool \<Rightarrow> provider \<Rightarrow>
     provider \<times> loaded list option \<times> poll_end" where
  "poll_with c fetched pushed consumers p =
     (case (case fetched of
              None \<Rightarrow> (p, max (pc_poll_interval_secs (cf_proxy c)) 1)
            | Some r \<Rightarrow> after_fetch c r p) of
        (p, delay) \<Rightarrow> publish_merged pushed consumers delay p)"

definition poll_step ::
    "config \<Rightarrow> 'w http option \<Rightarrow> (string \<Rightarrow> json option) \<Rightarrow> read_dir \<Rightarrow> bool \<Rightarrow> provider \<Rightarrow> 'w \<Rightarrow>
     (provider \<times> loaded list option \<times> poll_end) \<times> 'w" where
  "poll_step c h parse dir consumers p w =
     (case h of
        None \<Rightarrow> (poll_with c None (load_dir parse dir) consumers p, w)
      | Some h \<Rightarrow>
          (case fetch_device_types h c w of
             (r, w) \<Rightarrow> (poll_with c (Some r) (load_dir parse dir) consumers p, w)))"

section \<open>What the consumers see\<close>

text \<open>The revision of the provider is always one of a set, so differences are complete.\<close>

definition provider_ok :: "config \<Rightarrow> provider \<Rightarrow> bool" where
  "provider_ok c p \<longleftrightarrow>
     (\<exists>ls. pr_revision p = revision_of ls) \<and> pr_backoff p \<le> max 1 (max_backoff c)"

lemma provider_ok_init: "provider_ok c provider_init"
  by (auto simp: provider_ok_def provider_init_def revision_of_def intro!: exI [of _ "[]"])

lemma after_fetch_ok: "provider_ok c p \<Longrightarrow> provider_ok c (fst (after_fetch c r p))"
  by (auto simp: provider_ok_def after_fetch_def next_backoff_def Let_def split: sum.splits)

lemma publish_merged_eq:
  assumes "pr_revision p = revision_of ls"
  shows "publish_merged pushed consumers delay p =
    (let merged = merge (pr_pulled p) pushed in
     (p\<lparr>pr_revision := revision_of merged\<rparr>,
      if revision_of merged = pr_revision p then None else Some merged,
      if consumers \<or> revision_of merged = pr_revision p then Sleep delay else NoConsumers))"
  using assms by (auto simp: publish_merged_def Let_def diff_empty_iff)

text \<open>The states the provider reaches, whatever the proxy and the file system answer.\<close>

inductive provider_reaches :: "config \<Rightarrow> provider \<Rightarrow> bool" for c where
  provider_start: "provider_reaches c provider_init"
| provider_poll:
    "provider_reaches c p \<Longrightarrow> poll_with c fetched pushed consumers p = (p', sent, e) \<Longrightarrow>
     provider_reaches c p'"

lemma poll_with_eq:
  assumes "provider_ok c p"
  shows "poll_with c fetched pushed consumers p =
    (let (q, delay) = (case fetched of
              None \<Rightarrow> (p, max (pc_poll_interval_secs (cf_proxy c)) 1)
            | Some r \<Rightarrow> after_fetch c r p);
         merged = merge (pr_pulled q) pushed in
     (q\<lparr>pr_revision := revision_of merged\<rparr>,
      if revision_of merged = pr_revision p then None else Some merged,
      if consumers \<or> revision_of merged = pr_revision p then Sleep delay else NoConsumers))"
proof -
  obtain q delay where q: "(case fetched of
      None \<Rightarrow> (p, max (pc_poll_interval_secs (cf_proxy c)) 1)
    | Some r \<Rightarrow> after_fetch c r p) = (q, delay)" by fastforce
  then have "pr_revision q = pr_revision p"
    by (auto simp: after_fetch_def Let_def split: option.splits sum.splits if_splits)
  moreover from this assms obtain ls where "pr_revision q = revision_of ls"
    by (auto simp: provider_ok_def)
  ultimately show ?thesis
    using q publish_merged_eq [of q ls pushed consumers delay] by (simp add: poll_with_def Let_def)
qed

lemma poll_with_ok:
  assumes "provider_ok c p" "poll_with c fetched pushed consumers p = (p', sent, e)"
  shows "provider_ok c p'"
proof -
  have "provider_ok c (fst (case fetched of
      None \<Rightarrow> (p, max (pc_poll_interval_secs (cf_proxy c)) 1)
    | Some r \<Rightarrow> after_fetch c r p))"
    using assms(1) after_fetch_ok by (auto split: option.splits)
  with assms(2) show ?thesis
    unfolding poll_with_eq [OF assms(1)]
    by (auto simp: provider_ok_def Let_def split: prod.splits)
qed

lemma provider_reaches_ok: "provider_reaches c p \<Longrightarrow> provider_ok c p"
  by (induction rule: provider_reaches.induct) (auto intro: provider_ok_init poll_with_ok)

text \<open>
  C15. Device types survive a cloud outage: a failed fetch keeps the ones in memory, and the retry
  delay doubles up to the configured bound. The consumers are sent the merged set of both sources
  exactly when its revision differs from what they hold, and the provider's revision is always
  that of the merged set.
\<close>

theorem outage_keeps_types:
  assumes "provider_reaches c p" "poll_with c fetched pushed consumers p = (p', sent, e)"
  shows "pr_backoff p' \<le> max 1 (max_backoff c) \<and>
    pr_revision p' = revision_of (merge (pr_pulled p') pushed) \<and>
    sent = (if pr_revision p' = pr_revision p then None else Some (merge (pr_pulled p') pushed)) \<and>
    (case fetched of
       Some (Inr fresh) \<Rightarrow> pr_pulled p' = fresh \<and> pr_backoff p' = 1
     | Some (Inl err) \<Rightarrow>
         pr_pulled p' = pr_pulled p \<and>
         (if is_transient err
          then e \<in> {Sleep (pr_backoff p), NoConsumers} \<and>
               pr_backoff p' = min (2 * pr_backoff p) (max_backoff c)
          else pr_backoff p' = pr_backoff p)
     | None \<Rightarrow> pr_pulled p' = pr_pulled p)"
proof -
  note ok = provider_reaches_ok [OF assms(1)]
  from poll_with_ok [OF ok assms(2)] have "pr_backoff p' \<le> max 1 (max_backoff c)"
    by (simp add: provider_ok_def)
  with assms(2) show ?thesis
    unfolding poll_with_eq [OF ok]
    by (auto simp: Let_def after_fetch_def next_backoff_def
        split: option.splits sum.splits prod.splits if_splits)
qed

lemma outage_keeps_types_witness:
  "pr_backoff \<lparr>pr_revision = [], pr_backoff = 2, pr_pulled = []\<rparr> \<le> max 1 (max_backoff demo_config)"
proof -
  have "poll_with demo_config (Some (Inl CloudUnreachable)) [] True provider_init =
      (\<lparr>pr_revision = [], pr_backoff = 2, pr_pulled = []\<rparr>, None, Sleep 1)"
    by code_simp
  from outage_keeps_types [OF provider_start this] show ?thesis by blast
qed

text \<open>
  A page that cannot be read is not an error: the poll ends with the types of the pages before it,
  which replace those that were known.
\<close>

lemma unreadable_page_drops_types:
  assumes "device_types h device_type_mo_type device_type_fragment 1 dt_page_size w = (Inr v, w')"
    and "de_managed_object_page v = None" "pc_device_type_ids (cf_proxy c) = []"
  shows "fetch_device_types h c w = (Inr [], w') \<and> pr_pulled (fst (after_fetch c (Inr []) p)) = []"
  using assms by (simp add: fetch_device_types_def dt_max_pages_def numeral_eq_Suc after_fetch_def Let_def)

section \<open>Requests of a poll\<close>

lemma get_json_log:
  "\<exists>r w' k. get_json (logged h) url (w, l) = (r, w', l @ replicate k url) \<and> k \<le> 2"
proof -
  obtain r1 w1 where 1: "get_json_once h url w = (r1, w1)" by fastforce
  obtain r2 w2 where 2: "get_json_once h url w1 = (r2, w2)" by fastforce
  show ?thesis
  proof (cases "is_401 r1")
    case True
    with 1 2 have "get_json (logged h) url (w, l) = (r2, w2, l @ replicate 2 url)"
      by (simp add: get_json_def get_json_once_logged Let_def numeral_2_eq_2)
    then show ?thesis by blast
  next
    case False
    with 1 have "get_json (logged h) url (w, l) = (r1, w1, l @ replicate 1 url)"
      by (simp add: get_json_def get_json_once_logged Let_def)
    then show ?thesis by (metis one_le_numeral)
  qed
qed

lemma device_types_log:
  "\<exists>r w' l'. device_types (logged h) a b page n (w, l) = (r, w', l') \<and>
     length l' \<le> length l + 2"
  using get_json_log [of h _ w l] unfolding device_types_def by fastforce

lemma fetch_pages_log:
  "\<exists>r w' l'. fetch_pages (logged h) n page out (w, l) = (r, w', l') \<and>
     length l' \<le> length l + 2 * n"
proof (induction n arbitrary: page out w l)
  case 0
  show ?case by simp
next
  case (Suc n)
  obtain r w1 l1 where d: "device_types (logged h) device_type_mo_type device_type_fragment page
      dt_page_size (w, l) = (r, w1, l1)" and len: "length l1 \<le> length l + 2"
    using device_types_log
      [of h device_type_mo_type device_type_fragment page dt_page_size w l] by auto
  show ?case
  proof (cases r)
    case (Inl e)
    with d len show ?thesis by simp
  next
    case (Inr v)
    show ?thesis
    proof (cases "de_managed_object_page v")
      case None
      with d Inr len show ?thesis by simp
    next
      case (Some pg)
      obtain r2 w2 l2 where "fetch_pages (logged h) n (page + 1)
          (out @ filter_map read_managed_object (pg_managed_objects pg)) (w1, l1) = (r2, w2, l2)"
        "length l2 \<le> length l1 + 2 * n"
        using Suc.IH [of "page + 1"
            "out @ filter_map read_managed_object (pg_managed_objects pg)" w1 l1] by auto
      with d Inr Some len show ?thesis by (auto simp: Let_def)
    qed
  qed
qed


end
