(* ===== verification/Cloud_Servers.thy ===== *)
theory Cloud_Servers
  imports Device_Types
begin

text \<open>
  Servers registered in Cumulocity: \<open>crates/gateway/src/cloud_servers.rs\<close>. One turn of its loop is
  \<open>cloud_step\<close>.
\<close>

definition id_type :: string where
  "id_type = ''c8y_Serial''"

definition server_mo_type :: string where
  "server_mo_type = ''c8y_OpcuaServer''"

definition client_config_fragment :: string where
  "client_config_fragment = ''c8y_ua_ClientConfig''"

definition cs_page_size :: u32 where
  "cs_page_size = 100"

definition cs_max_pages :: nat where
  "cs_max_pages = 20"

section \<open>From a managed object to a server\<close>

text \<open>\<open>Inl ()\<close> for a server that must not be started.\<close>

definition server_credentials :: "json \<Rightarrow> unit + string option \<times> string option" where
  "server_credentials cc =
     (let mode = unwrap_or ''Anonymous'' (jget_str ''userIdentityMode'' cc) in
      if eq_ignore_ascii_case mode ''anonymous'' then Inr (None, None)
      else if unwrap_or False (Option.bind (jget ''passwordEncrypted'' cc) as_bool) then Inl ()
      else
        (let user = opt_filter (\<lambda>u. trim u \<noteq> []) (jget_str ''userName'' cc);
             password = opt_filter (\<lambda>p. p \<noteq> []) (jget_str ''userPassword'' cc) in
         if user = None \<or> password = None then Inl () else Inr (user, password)))"

definition to_server_config :: "config \<Rightarrow> string \<Rightarrow> json \<Rightarrow> server_config option" where
  "to_server_config c i mo =
     (let name = unwrap_or i (jget_str ''name'' mo) in
      case jget client_config_fragment mo of
        None \<Rightarrow> None
      | Some cc \<Rightarrow>
          (case opt_filter (\<lambda>u. trim u \<noteq> []) (jget_str ''serverUrl'' cc) of
             None \<Rightarrow> None
           | Some url \<Rightarrow>
               (if is_some_and (\<lambda>s. eq_ignore_ascii_case s ''disabled'')
                     (jget_str ''targetConnectionState'' cc)
                then None
                else if \<not> is_none_or (\<lambda>m. eq_ignore_ascii_case m ''none'')
                          (jget_str ''securityMode'' cc)
                then None
                else case server_credentials cc of
                       Inl _ \<Rightarrow> None
                     | Inr (user, password) \<Rightarrow>
                         Some \<lparr>sc_id = i, sc_name = name, sc_url = url,
                               sc_security_policy = ''None'', sc_user = user,
                               sc_password = password, sc_device_types = [],
                               sc_external_id = Some (server_external_id (cf_gateway c) i),
                               sc_topic_id = Some i\<rparr>)))"

section \<open>Fetching and adopting\<close>

definition adopt :: "'w http \<Rightarrow> config \<Rightarrow> string \<Rightarrow> 'w \<Rightarrow> 'w" where
  "adopt h c i w =
     (let external_id = server_external_id (cf_gateway c) i in
      case managed_object_id h id_type external_id w of
        (Inr (Some existing), w) \<Rightarrow> w
      | (Inl _, w) \<Rightarrow> w
      | (Inr None, w) \<Rightarrow> snd (create_external_id h i id_type external_id w))"

definition reference_id :: "json \<Rightarrow> string option" where
  "reference_id r = Option.bind (Option.bind (jget ''managedObject'' r) (jget ''id'')) as_str"

definition fetch_reference ::
    "'w http \<Rightarrow> config \<Rightarrow> json \<Rightarrow> 'w \<Rightarrow> server_config option \<times> 'w" where
  "fetch_reference h c r w =
     (case reference_id r of
        None \<Rightarrow> (None, w)
      | Some i \<Rightarrow>
          (case get_managed_object h i w of
             (Inl _, w) \<Rightarrow> (None, w)
           | (Inr mo, w) \<Rightarrow>
               (if jget_str ''type'' mo \<noteq> Some server_mo_type then (None, w)
                else case to_server_config c i mo of
                       None \<Rightarrow> (None, w)
                     | Some s \<Rightarrow> (Some s, adopt h c i w))))"

fun fetch_references ::
    "'w http \<Rightarrow> config \<Rightarrow> json list \<Rightarrow> server_config list \<Rightarrow> 'w \<Rightarrow> server_config list \<times> 'w" where
  "fetch_references h c [] out w = (out, w)"
| "fetch_references h c (r # rs) out w =
     (case fetch_reference h c r w of
        (s, w) \<Rightarrow>
          fetch_references h c rs (out @ (case s of None \<Rightarrow> [] | Some s \<Rightarrow> [s])) w)"

fun fetch_server_pages ::
    "'w http \<Rightarrow> config \<Rightarrow> string \<Rightarrow> nat \<Rightarrow> u32 \<Rightarrow> server_config list \<Rightarrow> 'w \<Rightarrow>
     (proxy_error + server_config list) \<times> 'w" where
  "fetch_server_pages h c g 0 page out w = (Inr out, w)"
| "fetch_server_pages h c g (Suc n) page out w =
     (case child_devices h g page cs_page_size w of
        (Inl e, w) \<Rightarrow> (Inl e, w)
      | (Inr v, w) \<Rightarrow>
          (let references = unwrap_or [] (Option.bind (jget ''references'' v) as_array) in
           if references = [] then (Inr out, w)
           else case fetch_references h c references out w of
                  (out, w) \<Rightarrow>
                    (if length references < unat cs_page_size then (Inr out, w)
                     else fetch_server_pages h c g n (page + 1) out w)))"

definition fetch_servers ::
    "'w http \<Rightarrow> config \<Rightarrow> string \<Rightarrow> 'w \<Rightarrow> (proxy_error + server_config list) \<times> 'w" where
  "fetch_servers h c g w = fetch_server_pages h c g cs_max_pages 1 [] w"

section \<open>The poll loop\<close>

definition server_record :: "server_config \<Rightarrow> string" where
  "server_record s =
     sc_id s @ [CHR 0x01] @ sc_name s @ [CHR 0x01] @ sc_url s @ [CHR 0x01] @
     sc_security_policy s @ [CHR 0x01] @ unwrap_or [] (sc_user s) @ [CHR 0x01] @
     unwrap_or [] (sc_password s) @ [CHR 0x02]"

definition servers_revision :: "server_config list \<Rightarrow> string" where
  "servers_revision ss = concat (map server_record ss)"

record cloud =
  cl_gateway_mo_id :: "string option"
  cl_revision :: string
  cl_misses :: u32
  cl_backoff :: nat

definition cloud_init :: cloud where
  "cloud_init = \<lparr>cl_gateway_mo_id = None, cl_revision = [], cl_misses = 0, cl_backoff = 1\<rparr>"

definition lookup_done ::
    "config \<Rightarrow> proxy_error + string option \<Rightarrow> nat \<Rightarrow> cloud \<Rightarrow> cloud \<times> nat" where
  "lookup_done c r delay s =
     (case r of
        Inr (Some i) \<Rightarrow> (s\<lparr>cl_gateway_mo_id := Some i, cl_misses := 0, cl_backoff := 1\<rparr>, delay)
      | Inr None \<Rightarrow>
          (s\<lparr>cl_misses := cl_misses s + 1, cl_backoff := next_backoff c (cl_backoff s)\<rparr>,
           cl_backoff s)
      | Inl _ \<Rightarrow> (s\<lparr>cl_backoff := next_backoff c (cl_backoff s)\<rparr>, cl_backoff s))"

fun is_404 :: "proxy_error \<Rightarrow> bool" where
  "is_404 (StatusError _ status) = (status = 404)"
| "is_404 _ = False"

definition servers_done ::
    "config \<Rightarrow> proxy_error + server_config list \<Rightarrow> bool \<Rightarrow> nat \<Rightarrow> cloud \<Rightarrow>
     cloud \<times> server_config list option \<times> poll_end" where
  "servers_done c r consumers delay s =
     (case r of
        Inr servers \<Rightarrow>
          (let s = s\<lparr>cl_backoff := 1\<rparr>; fresh = servers_revision servers in
           if fresh \<noteq> cl_revision s
           then (s\<lparr>cl_revision := fresh\<rparr>, Some servers,
                 if consumers then Sleep delay else NoConsumers)
           else (s, None, Sleep delay))
      | Inl e \<Rightarrow>
          (if is_transient e
           then (s\<lparr>cl_backoff := next_backoff c (cl_backoff s)\<rparr>, None, Sleep (cl_backoff s))
           else if is_404 e then (s\<lparr>cl_gateway_mo_id := None\<rparr>, None, Sleep delay)
           else (s, None, Sleep delay)))"

definition cloud_step ::
    "config \<Rightarrow> 'w http \<Rightarrow> bool \<Rightarrow> cloud \<Rightarrow> 'w \<Rightarrow>
     (cloud \<times> server_config list option \<times> poll_end) \<times> 'w" where
  "cloud_step c h consumers s w =
     (case (case cl_gateway_mo_id s of
              Some _ \<Rightarrow> ((s, server_poll_interval c), w)
            | None \<Rightarrow>
                (case managed_object_id h id_type (gateway_external_id (cf_gateway c)) w of
                   (r, w) \<Rightarrow> (lookup_done c r (server_poll_interval c) s, w))) of
        ((s, delay), w) \<Rightarrow>
          (case cl_gateway_mo_id s of
             None \<Rightarrow> ((s, None, Sleep delay), w)
           | Some i \<Rightarrow>
               (case fetch_servers h c i w of
                  (r, w) \<Rightarrow> (servers_done c r consumers delay s, w))))"

section \<open>What an adopted server is\<close>


definition demo_object :: json where
  "demo_object =
     json_object
       [(''name'', JStr ''PLC''),
        (client_config_fragment,
           json_object [(''serverUrl'', JStr ''opc.tcp://plc:4840''),
                        (''securityMode'', JStr ''NONE'')])]"

definition demo_adopted :: server_config where
  "demo_adopted =
     \<lparr>sc_id = ''4711'', sc_name = ''PLC'', sc_url = ''opc.tcp://plc:4840'',
      sc_security_policy = ''None'', sc_user = None, sc_password = None, sc_device_types = [],
      sc_external_id = Some ''tedge001:device:opcua-gateway:device:4711'',
      sc_topic_id = Some ''4711''\<rparr>"

lemma demo_object_server: "to_server_config demo_config ''4711'' demo_object = Some demo_adopted"
  by code_simp


section \<open>Changes\<close>

text \<open>What of a server a revision records, and text free of the two separators.\<close>

definition server_key ::
    "server_config \<Rightarrow> string \<times> string \<times> string \<times> string \<times> string \<times> string" where
  "server_key s =
     (sc_id s, sc_name s, sc_url s, sc_security_policy s, unwrap_or [] (sc_user s),
      unwrap_or [] (sc_password s))"

definition clean :: "string \<Rightarrow> bool" where
  "clean s \<longleftrightarrow> CHR 0x01 \<notin> set s \<and> CHR 0x02 \<notin> set s"

definition clean_server :: "server_config \<Rightarrow> bool" where
  "clean_server s \<longleftrightarrow>
     clean (sc_id s) \<and> clean (sc_name s) \<and> clean (sc_url s) \<and> clean (sc_security_policy s) \<and>
     clean (unwrap_or [] (sc_user s)) \<and> clean (unwrap_or [] (sc_password s))"

lemma sep_cancel:
  "d \<notin> set a \<Longrightarrow> d \<notin> set b \<Longrightarrow> a @ d # x = b @ d # y \<Longrightarrow> a = b \<and> x = y"
proof (induction a arbitrary: b)
  case Nil
  then show ?case by (cases b) auto
next
  case (Cons c a)
  then show ?case by (cases b) auto
qed

lemma fields_cancel:
  "length fs = length gs \<Longrightarrow> \<forall>f \<in> set fs. d \<notin> set f \<Longrightarrow> \<forall>g \<in> set gs. d \<notin> set g \<Longrightarrow>
     concat (map (\<lambda>f. f @ [d]) fs) @ x = concat (map (\<lambda>f. f @ [d]) gs) @ y \<Longrightarrow>
     fs = gs \<and> x = y"
proof (induction fs gs rule: list_induct2)
  case Nil
  then show ?case by simp
next
  case (Cons f fs g gs)
  then have "f = g \<and> concat (map (\<lambda>f. f @ [d]) fs) @ x = concat (map (\<lambda>f. f @ [d]) gs) @ y"
    by (intro sep_cancel [of d]) auto
  with Cons show ?case by auto
qed

definition record_fields :: "server_config \<Rightarrow> string list" where
  "record_fields s =
     [sc_id s, sc_name s, sc_url s, sc_security_policy s, unwrap_or [] (sc_user s)]"

lemma server_record_inj:
  assumes "clean_server a" "clean_server b" "server_record a @ x = server_record b @ y"
  shows "server_key a = server_key b \<and> x = y"
proof -
  have r: "server_record s = concat (map (\<lambda>f. f @ [CHR 0x01]) (record_fields s)) @
      unwrap_or [] (sc_password s) @ [CHR 0x02]" for s
    by (simp add: server_record_def record_fields_def)
  have "record_fields a = record_fields b \<and>
      unwrap_or [] (sc_password a) @ CHR 0x02 # x = unwrap_or [] (sc_password b) @ CHR 0x02 # y"
    using assms
    by (intro fields_cancel [of _ _ "CHR 0x01"])
      (auto simp: r clean_server_def clean_def record_fields_def)
  moreover from this have "unwrap_or [] (sc_password a) = unwrap_or [] (sc_password b) \<and> x = y"
    using assms by (intro sep_cancel [of "CHR 0x02"]) (auto simp: clean_server_def clean_def)
  ultimately show ?thesis by (simp add: server_key_def record_fields_def)
qed

lemma servers_revision_inj:
  "list_all clean_server a \<Longrightarrow> list_all clean_server b \<Longrightarrow>
     servers_revision a = servers_revision b \<longleftrightarrow> map server_key a = map server_key b"
proof (induction a arbitrary: b)
  case Nil
  then show ?case by (cases b) (auto simp: servers_revision_def server_record_def)
next
  case (Cons s a)
  show ?case
  proof (cases b)
    case Nil
    then show ?thesis by (simp add: servers_revision_def server_record_def)
  next
    case b: (Cons t b')
    have "servers_revision (s # a) = servers_revision (t # b') \<longleftrightarrow>
        server_key s = server_key t \<and> servers_revision a = servers_revision b'"
      using server_record_inj [of s t "servers_revision a" "servers_revision b'"] Cons.prems b
      by (auto simp: servers_revision_def server_record_def server_key_def)
    with Cons b show ?thesis by simp
  qed
qed

text \<open>
  The servers are sent on exactly when one of them changed in anything a server task depends
  on, compared with what was sent last; a poll that fails sends nothing and keeps the current set.
\<close>

theorem server_changes_sent:
  assumes "list_all clean_server old" "cl_revision s = servers_revision old"
    "list_all clean_server (case r of Inr new \<Rightarrow> new | Inl _ \<Rightarrow> [])"
  shows "fst (snd (servers_done c r consumers delay s)) =
      (case r of
         Inl _ \<Rightarrow> None
       | Inr new \<Rightarrow> (if map server_key new = map server_key old then None else Some new)) \<and>
    cl_revision (fst (servers_done c r consumers delay s)) =
      (case r of Inl _ \<Rightarrow> servers_revision old | Inr new \<Rightarrow> servers_revision new)"
  using assms servers_revision_inj
  by (auto simp: servers_done_def Let_def split: sum.splits)

lemma server_changes_sent_witness:
  "fst (snd (servers_done demo_config (Inr [demo_adopted]) True 60 cloud_init)) = Some [demo_adopted]"
proof -
  have "list_all clean_server [demo_adopted]" by code_simp
  with server_changes_sent [of "[]" cloud_init "Inr [demo_adopted]" demo_config True 60]
  show ?thesis by (simp add: cloud_init_def servers_revision_def)
qed

text \<open>
  A server whose managed object cannot be read is left out of the set, although it may be running:
  the consumers see it as gone.
\<close>

definition demo_cloud_http :: "bool \<Rightarrow> unit http" where
  "demo_cloud_http reachable =
     \<lparr>http_get = (\<lambda>url w.
        if contains_str ''childDevices'' url
        then (Response 200 (Some (json_object [(''references'', JArr
               [json_object [(''managedObject'', json_object [(''id'', JStr ''4711'')])]])])), w)
        else if contains_str ''managedObjects/4711'' url
        then (if reachable
              then (Response 200 (Some (json_object
                      [(''type'', JStr server_mo_type), (client_config_fragment,
                        json_object [(''serverUrl'', JStr ''opc.tcp://plc:4840'')])])), w)
              else (SendFailed, w))
        else (Response 404 None, w)),
      http_post = (\<lambda>url b w. (Response 201 None, w)),
      http_base_url = [], http_urlencode = (\<lambda>s. s)\<rparr>"

lemma unreadable_server_is_dropped:
  "map_sum id (map sc_id) (fst (fetch_servers (demo_cloud_http True) demo_config ''g'' ())) = Inr [''4711''] \<and>
   map_sum id (map sc_id) (fst (fetch_servers (demo_cloud_http False) demo_config ''g'' ())) = Inr []"
  by code_simp

end
