(* ===== verification/Supervisor.thy ===== *)
theory Supervisor
  imports Config Rust_Maps
begin

text \<open>
  One task per server: \<open>crates/gateway/src/supervisor.rs\<close>. The map of running tasks holds each
  task's configuration; what is done to the tasks themselves is the list of actions: \<open>Remove\<close>
  and \<open>Stop\<close> cancel one of the two tokens and wait for the task, \<open>Start\<close> spawns one, which is given the
  ids of all servers.
\<close>

datatype sup_action = Remove string | Stop string | Start server_config "string list"

type_synonym running = "(string, server_config) hmap"

definition removed_ids :: "running \<Rightarrow> server_config list \<Rightarrow> string list" where
  "removed_ids running desired =
     filter (\<lambda>i. \<not> list_ex (\<lambda>s. sc_id s = i) desired) (map fst running)"

definition restarted_ids :: "running \<Rightarrow> server_config list \<Rightarrow> string list" where
  "restarted_ids running desired =
     map sc_id (filter (\<lambda>s. is_some_and (\<lambda>r. r \<noteq> s) (hm_get running (sc_id s))) desired)"

definition drop_task ::
    "(string \<Rightarrow> sup_action) \<Rightarrow> string \<Rightarrow> running \<times> sup_action list \<Rightarrow> running \<times> sup_action list" where
  "drop_task act i ra =
     (case ra of (running, acts) \<Rightarrow>
        (case hm_get running i of
           None \<Rightarrow> (running, acts)
         | Some _ \<Rightarrow> (hm_remove i running, acts @ [act i])))"

definition start_task ::
    "string list \<Rightarrow> server_config \<Rightarrow> running \<times> sup_action list \<Rightarrow> running \<times> sup_action list" where
  "start_task known s ra =
     (case ra of (running, acts) \<Rightarrow>
        (if hm_get running (sc_id s) \<noteq> None then (running, acts)
         else (hm_insert (sc_id s) s running, acts @ [Start s known])))"

definition reconcile :: "running \<Rightarrow> server_config list \<Rightarrow> running \<times> sup_action list" where
  "reconcile running desired =
     (let known = map sc_id desired;
          removed = removed_ids running desired;
          restarted = restarted_ids running desired;
          ra = fold (drop_task Remove) removed (running, []);
          ra = fold (drop_task Stop) restarted ra in
      fold (start_task known) desired ra)"

text \<open>One turn of the loop: servers on the device win over servers from Cumulocity.\<close>

definition supervise :: "config \<Rightarrow> server_config list \<Rightarrow> running \<Rightarrow> running \<times> sup_action list" where
  "supervise c cloud running = reconcile running (merge_servers cloud (cf_servers c))"

section \<open>What reconciling does\<close>

lemma drop_tasks:
  assumes "hm_inv running" "distinct is" "set is \<subseteq> fst ` set running"
  shows "fold (drop_task act) is (running, acts) =
    (fold hm_remove is running, acts @ map act is)"
  using assms
proof (induction "is" arbitrary: running acts)
  case Nil
  then show ?case by simp
next
  case (Cons i "is")
  from Cons.prems have i: "hm_get running i \<noteq> None"
    using hm.keys_iff [of running i] by auto
  have "set is \<subseteq> fst ` set (hm_remove i running)"
  proof
    fix x assume x: "x \<in> set is"
    with Cons.prems have "x \<noteq> i" "hm_get running x \<noteq> None"
      using hm.keys_iff [of running x] by auto
    then have "hm_get (hm_remove i running) x \<noteq> None" by simp
    then show "x \<in> fst ` set (hm_remove i running)"
      using hm.keys_iff [of "hm_remove i running" x] hm.inv_del [OF Cons.prems(1), of i]
      by simp
  qed
  with Cons i show ?case by (auto simp: drop_task_def hm.inv_del)
qed

lemma start_tasks:
  assumes "hm_inv running" "distinct (map sc_id ss)"
  shows "hm_inv (fst (fold (start_task known) ss (running, acts))) \<and>
    hm_get (fst (fold (start_task known) ss (running, acts))) =
      map_of (map (\<lambda>s. (sc_id s, s)) ss) ++ hm_get running \<and>
    snd (fold (start_task known) ss (running, acts)) =
      acts @ map (\<lambda>s. Start s known) (filter (\<lambda>s. hm_get running (sc_id s) = None) ss)"
  using assms
proof (induction ss arbitrary: running acts)
  case Nil
  then show ?case by simp
next
  case (Cons s ss)
  show ?case
  proof (cases "hm_get running (sc_id s)")
    case None
    let ?r = "hm_insert (sc_id s) s running"
    have f: "filter (\<lambda>x. hm_get ?r (sc_id x) = None) ss =
        filter (\<lambda>x. hm_get running (sc_id x) = None) ss"
    proof (rule filter_cong [OF refl])
      fix x assume "x \<in> set ss"
      with Cons.prems(2) have "sc_id x \<noteq> sc_id s" by (auto simp: image_iff)
      then show "(hm_get ?r (sc_id x) = None) = (hm_get running (sc_id x) = None)" by simp
    qed
    have "hm_inv ?r" using Cons.prems(1) by (rule hm.inv_put)
    from Cons.IH [OF this, of "acts @ [Start s known]"] Cons.prems None f show ?thesis
      by (auto simp: start_task_def fun_eq_iff map_add_def split: option.splits
          dest: map_of_SomeD)
  next
    case (Some r)
    with Cons show ?thesis
      by (auto simp: start_task_def fun_eq_iff map_add_def split: option.splits)
  qed
qed

lemma removed_ids_eq:
  "removed_ids running desired = filter (\<lambda>i. i \<notin> sc_id ` set desired) (map fst running)"
  by (simp add: removed_ids_def list_ex_iff image_iff, intro filter_cong, auto)

lemma restarted_ids_eq:
  "restarted_ids running desired =
     map sc_id (filter (\<lambda>s. hm_get running (sc_id s) \<notin> {None, Some s}) desired)"
  unfolding restarted_ids_def
  by (intro arg_cong [where f = "map sc_id"] filter_cong) (auto simp: is_some_and_iff)

text \<open>What is left running once the tasks to remove and to restart are gone.\<close>

definition kept :: "running \<Rightarrow> server_config list \<Rightarrow> running" where
  "kept running desired =
     fold hm_remove (restarted_ids running desired)
       (fold hm_remove (removed_ids running desired) running)"

lemma kept_inv: "hm_inv running \<Longrightarrow> hm_inv (kept running desired)"
  by (simp add: kept_def hm.inv_del_list)

lemma kept_get:
  "hm_inv running \<Longrightarrow> hm_get (kept running desired) =
     hm_get running |` (- set (removed_ids running desired)) |`
       (- set (restarted_ids running desired))"
  by (simp add: kept_def hm.get_del_list hm.inv_del_list)

lemma kept_desired:
  assumes "hm_inv running" "distinct (map sc_id desired)" "s \<in> set desired"
  shows "hm_get (kept running desired) (sc_id s) = None \<longleftrightarrow> hm_get running (sc_id s) \<noteq> Some s"
proof -
  have "sc_id s \<in> set (restarted_ids running desired) \<longleftrightarrow>
      hm_get running (sc_id s) \<notin> {None, Some s}"
    unfolding restarted_ids_eq using assms(2, 3) by (auto simp: distinct_map inj_on_def)
  moreover have "sc_id s \<notin> set (removed_ids running desired)"
    unfolding removed_ids_eq using assms(3) by auto
  ultimately show ?thesis
    unfolding kept_get [OF assms(1)] by (auto simp: restrict_map_def)
qed

lemma kept_is_desired:
  assumes "hm_inv running" "distinct (map sc_id desired)" "hm_get (kept running desired) i = Some r"
  shows "map_of (map (\<lambda>s. (sc_id s, s)) desired) i = Some r"
proof -
  from assms(1, 3) have i: "i \<notin> set (removed_ids running desired)"
    "i \<notin> set (restarted_ids running desired)" "hm_get running i = Some r"
    by (auto simp: kept_get restrict_map_def split: if_splits)
  then have "i \<in> set (map fst running)" using hm.keys_iff [OF assms(1), of i] by simp
  with i(1) obtain s where s: "s \<in> set desired" "sc_id s = i" by (auto simp: removed_ids_eq)
  with i(2, 3) have "r = s" by (auto simp: restarted_ids_eq)
  with s assms(2) show ?thesis by (intro map_of_is_SomeI) (auto simp: comp_def)
qed

lemma reconcile_drops:
  assumes "hm_inv running" "distinct (map sc_id desired)"
  shows "fold (drop_task Stop) (restarted_ids running desired)
      (fold (drop_task Remove) (removed_ids running desired) (running, [])) =
    (kept running desired,
     map Remove (removed_ids running desired) @ map Stop (restarted_ids running desired))"
proof -
  let ?rem = "removed_ids running desired" and ?res = "restarted_ids running desired"
  have drem: "distinct ?rem" using assms(1) by (simp add: removed_ids_eq hm_inv_def)
  have dres: "distinct ?res" using assms(2) by (simp add: restarted_ids_eq distinct_map_filter)
  let ?r1 = "fold hm_remove ?rem running"
  have inv1: "hm_inv ?r1" using assms(1) by (rule hm.inv_del_list)
  have "set ?res \<subseteq> fst ` set ?r1"
  proof
    fix i assume "i \<in> set ?res"
    then have "i \<notin> set ?rem" "hm_get running i \<noteq> None"
      by (auto simp: removed_ids_eq restarted_ids_eq)
    then have "hm_get ?r1 i \<noteq> None" by (simp add: hm.get_del_list [OF assms(1)])
    then show "i \<in> fst ` set ?r1" using hm.keys_iff [OF inv1, of i] by simp
  qed
  from drop_tasks [OF inv1 dres this, of Stop] drop_tasks [OF assms(1) drem, of Remove "[]"]
  show ?thesis by (simp add: kept_def removed_ids_eq image_subset_iff subset_iff)
qed

lemma reconcile_desired:
  assumes "hm_inv running" "distinct (map sc_id desired)"
  shows "hm_inv (fst (reconcile running desired)) \<and>
    hm_get (fst (reconcile running desired)) = map_of (map (\<lambda>s. (sc_id s, s)) desired) \<and>
    snd (reconcile running desired) =
      map Remove (filter (\<lambda>i. i \<notin> sc_id ` set desired) (map fst running)) @
      map (\<lambda>s. Stop (sc_id s))
        (filter (\<lambda>s. hm_get running (sc_id s) \<notin> {None, Some s}) desired) @
      map (\<lambda>s. Start s (map sc_id desired))
        (filter (\<lambda>s. hm_get running (sc_id s) \<noteq> Some s) desired)"
proof -
  let ?k = "kept running desired"
  let ?acts = "map Remove (removed_ids running desired) @ map Stop (restarted_ids running desired)"
  have rec: "reconcile running desired = fold (start_task (map sc_id desired)) desired (?k, ?acts)"
    by (simp only: reconcile_def Let_def reconcile_drops [OF assms])
  have start: "filter (\<lambda>s. hm_get ?k (sc_id s) = None) desired =
      filter (\<lambda>s. hm_get running (sc_id s) \<noteq> Some s) desired"
    using kept_desired [OF assms] by (intro filter_cong) auto
  have final: "map_of (map (\<lambda>s. (sc_id s, s)) desired) ++ hm_get ?k =
      map_of (map (\<lambda>s. (sc_id s, s)) desired)"
    using kept_is_desired [OF assms] by (auto simp: fun_eq_iff map_add_def split: option.splits)
  have "?acts = map Remove (filter (\<lambda>i. i \<notin> sc_id ` set desired) (map fst running)) @
      map (\<lambda>s. Stop (sc_id s)) (filter (\<lambda>s. hm_get running (sc_id s) \<notin> {None, Some s}) desired)"
    by (simp only: removed_ids_eq restarted_ids_eq map_map comp_def)
  with start_tasks [OF kept_inv [OF assms(1), of desired] assms(2), of "map sc_id desired" ?acts,
      unfolded start final, folded rec]
  show ?thesis by simp
qed

section \<open>Actions one at a time\<close>

text \<open>
  \<open>reconcile\<close> awaits every task it stops, so the map changes one action at a time. Performing its
  actions in order is the whole of it.
\<close>

fun perform :: "sup_action \<Rightarrow> running \<Rightarrow> running" where
  "perform (Remove i) running = hm_remove i running"
| "perform (Stop i) running = hm_remove i running"
| "perform (Start s known) running = hm_insert (sc_id s) s running"

definition performed :: "running \<Rightarrow> running \<times> sup_action list \<Rightarrow> bool" where
  "performed running ra \<longleftrightarrow> fold perform (snd ra) running = fst ra"

lemma performed_drops:
  assumes "\<And>i r. perform (act i) r = hm_remove i r" "performed running ra"
  shows "performed running (fold (drop_task act) is ra)"
  using assms(2)
proof (induction "is" arbitrary: ra)
  case (Cons i "is")
  from Cons.prems have "performed running (drop_task act i ra)"
    by (auto simp: performed_def drop_task_def assms(1) split: prod.splits option.splits)
  from Cons.IH [OF this] show ?case by simp
qed simp

lemma performed_starts:
  "performed running ra \<Longrightarrow> performed running (fold (start_task known) ss ra)"
proof (induction ss arbitrary: ra)
  case (Cons s ss)
  from Cons.prems have "performed running (start_task known s ra)"
    by (auto simp: performed_def start_task_def split: prod.splits)
  from Cons.IH [OF this] show ?case by simp
qed simp

lemma reconcile_performs: "fold perform (snd (reconcile running desired)) running = fst (reconcile running desired)"
  using performed_starts performed_drops
  by (simp add: reconcile_def Let_def flip: performed_def) (simp add: performed_def)

text \<open>
  C19. After reconciling, exactly the desired servers run, each with its desired configuration. A
  task whose configuration did not change is left alone; one whose server is gone is removed, one
  whose configuration changed is stopped, and both before anything is started.
\<close>

theorem reconcile_matches_desired:
  assumes "hm_inv running" "distinct (map sc_id desired)"
  shows "hm_inv (fst (reconcile running desired)) \<and>
    hm_get (fst (reconcile running desired)) = map_of (map (\<lambda>s. (sc_id s, s)) desired) \<and>
    snd (reconcile running desired) =
      map Remove (filter (\<lambda>i. i \<notin> sc_id ` set desired) (map fst running)) @
      map (\<lambda>s. Stop (sc_id s))
        (filter (\<lambda>s. hm_get running (sc_id s) \<notin> {None, Some s}) desired) @
      map (\<lambda>s. Start s (map sc_id desired))
        (filter (\<lambda>s. hm_get running (sc_id s) \<noteq> Some s) desired)"
  using assms by (rule reconcile_desired)

lemma reconcile_matches_desired_witness:
  "snd (reconcile [(''plc'', demo_server), (''old'', demo_server\<lparr>sc_id := ''old''\<rparr>)]
     [demo_server\<lparr>sc_name := ''PLC 2''\<rparr>]) =
   [Remove ''old'', Stop ''plc'', Start (demo_server\<lparr>sc_name := ''PLC 2''\<rparr>) [''plc'']]"
  using reconcile_matches_desired
    [of "[(''plc'', demo_server), (''old'', demo_server\<lparr>sc_id := ''old''\<rparr>)]"
        "[demo_server\<lparr>sc_name := ''PLC 2''\<rparr>]"]
  by (simp add: demo_server_def hm_inv_def)

end
