(* ===== verification/Publish.thy ===== *)
theory Publish
  imports Resolve Payload Mqtt
begin

text \<open>
  From values to messages: \<open>crates/gateway/src/publish.rs\<close>. Publishers share one MQTT client, so
  the client is passed along next to the publisher's own state.
\<close>

record publisher =
  pb_entity :: entity_topic_id
  pb_server_id :: string
  pb_dedup_events :: bool
  pb_last_event :: "(string \<times> string, string) btree"
  pb_last_alarm :: "(string \<times> string, bool) btree"
  pb_batch :: "(string, measurement_builder) btree"
  pb_pending_series :: nat

definition publisher_new :: "entity_topic_id \<Rightarrow> string \<Rightarrow> bool \<Rightarrow> publisher" where
  "publisher_new entity server_id dedup =
     \<lparr>pb_entity = entity, pb_server_id = server_id, pb_dedup_events = dedup, pb_last_event = [],
      pb_last_alarm = [], pb_batch = [], pb_pending_series = 0\<rparr>"

section \<open>Accepting a value\<close>

definition accept_measurement ::
    "opc_lib \<Rightarrow> resolved_node \<Rightarrow> data_value \<Rightarrow> measurement_creation \<Rightarrow> publisher \<Rightarrow> publisher" where
  "accept_measurement lib node v creation p =
     (case measurement_type creation of
        None \<Rightarrow> p
      | Some ty \<Rightarrow>
          (let b = unwrap_or mb_new (bt_get (pb_batch p) ty);
               (added, b) = mb_add lib creation (rn_node_id_str node) v b;
               p = p\<lparr>pb_batch := bt_insert ty b (pb_batch p)\<rparr> in
           if added then p\<lparr>pb_pending_series := pb_pending_series p + 1\<rparr> else p))"

definition accept_event ::
    "opc_lib \<Rightarrow> resolved_node \<Rightarrow> data_value \<Rightarrow> event_creation \<Rightarrow> publisher \<times> mqtt \<Rightarrow>
     publisher \<times> mqtt" where
  "accept_event lib node v creation pm =
     (case pm of (p, m) \<Rightarrow>
        (case ec_type creation of
           None \<Rightarrow> (p, m)
         | Some ty \<Rightarrow>
             (let payload = event_payload lib creation (rn_node_id_str node) v;
                  txt = unwrap_or [] (Option.bind (jget ''text'' payload) as_str);
                  key = (rn_node_id_str node, ty) in
              if pb_dedup_events p \<and> bt_get (pb_last_event p) key = Some txt then (p, m)
              else
                (let p = (if pb_dedup_events p
                          then p\<lparr>pb_last_event := bt_insert key txt (pb_last_event p)\<rparr> else p) in
                 (p, snd (publish_event (pb_entity p) ty payload m))))))"

definition accept_alarm ::
    "opc_lib \<Rightarrow> resolved_node \<Rightarrow> data_value \<Rightarrow> alarm_creation \<Rightarrow> publisher \<times> mqtt \<Rightarrow>
     publisher \<times> mqtt" where
  "accept_alarm lib node v creation pm =
     (case pm of (p, m) \<Rightarrow>
        (case ac_type creation of
           None \<Rightarrow> (p, m)
         | Some ty \<Rightarrow>
             (case Option.bind (dv_value v) value_as_bool of
                None \<Rightarrow> (p, m)
              | Some active \<Rightarrow>
                  (let key = (rn_node_id_str node, ty) in
                   if bt_get (pb_last_alarm p) key = Some active then (p, m)
                   else
                     (p\<lparr>pb_last_alarm := bt_insert key active (pb_last_alarm p)\<rparr>,
                      if active
                      then snd (raise_alarm (pb_entity p) ty
                             (alarm_payload lib creation (rn_node_id_str node) v) m)
                      else snd (clear_alarm (pb_entity p) ty m))))))"

definition accept_action ::
    "opc_lib \<Rightarrow> resolved_node \<Rightarrow> data_value \<Rightarrow> action \<Rightarrow> publisher \<times> mqtt \<Rightarrow>
     publisher \<times> mqtt" where
  "accept_action lib node v a pm =
     (case a of
        Measurement creation \<Rightarrow> (accept_measurement lib node v creation (fst pm), snd pm)
      | Event creation \<Rightarrow> accept_event lib node v creation pm
      | Alarm creation \<Rightarrow> accept_alarm lib node v creation pm)"

definition accept ::
    "opc_lib \<Rightarrow> resolved_node \<Rightarrow> data_value \<Rightarrow> publisher \<times> mqtt \<Rightarrow> publisher \<times> mqtt" where
  "accept lib node v pm =
     (if is_bad lib v then pm else fold (accept_action lib node v) (rn_actions node) pm)"

section \<open>Flushing\<close>

definition flush_entry ::
    "opc_lib \<Rightarrow> entity_topic_id \<Rightarrow> string \<times> measurement_builder \<Rightarrow> mqtt \<Rightarrow> mqtt" where
  "flush_entry lib entity tb m =
     (case tb of (ty, b) \<Rightarrow>
        (case mb_build lib b of
           None \<Rightarrow> m
         | Some payload \<Rightarrow> snd (publish_measurement entity ty payload m)))"

definition flush :: "opc_lib \<Rightarrow> publisher \<times> mqtt \<Rightarrow> publisher \<times> mqtt" where
  "flush lib pm =
     (case pm of (p, m) \<Rightarrow>
        (p\<lparr>pb_pending_series := 0, pb_batch := []\<rparr>,
         fold (flush_entry lib (pb_entity p)) (pb_batch p) m))"

definition publish_units :: "entity_topic_id \<Rightarrow> resolved_mapping \<Rightarrow> mqtt \<Rightarrow> mqtt" where
  "publish_units entity mapping m =
     fold (\<lambda>(ty, series) m.
             case measurement_meta series of
               None \<Rightarrow> m
             | Some meta \<Rightarrow> snd (publish_measurement_meta entity ty meta m))
       (measurement_units mapping) m"

section \<open>Batches\<close>

definition batch_series :: "(string, measurement_builder) btree \<Rightarrow> nat" where
  "batch_series m = sum_list (map (\<lambda>(_, b). mb_series_count b) m)"

lemma batch_series_simps [simp]:
  "batch_series [] = 0"
  "batch_series ((k, b) # m) = mb_series_count b + batch_series m"
  by (simp_all add: batch_series_def)

lemma batch_series_insert:
  "bt_inv m \<Longrightarrow>
     batch_series (bt_insert k b m) + (case bt_get m k of None \<Rightarrow> 0 | Some c \<Rightarrow> mb_series_count c) =
     batch_series m + mb_series_count b"
proof (induction k b m rule: bt_insert.induct)
  case (1 k v)
  then show ?case by simp
next
  case (2 k v k' v' m)
  show ?case
  proof (cases "k < k'")
    case True
    with "2.prems" have "bt_get m k = None"
      by (force simp: bt_inv_Cons bt_get_def map_of_eq_None_iff)
    with True show ?thesis by auto
  next
    case False
    with 2 show ?thesis by (auto simp: bt_inv_Cons)
  qed
qed

text \<open>The counter of pending series is the number of series in the batch.\<close>

definition publisher_ok :: "publisher \<Rightarrow> bool" where
  "publisher_ok p \<longleftrightarrow> bt_inv (pb_batch p) \<and> pb_pending_series p = batch_series (pb_batch p)"

lemma mb_add_count:
  "mb_series_count (snd (mb_add lib c n v b)) =
     mb_series_count b + (if fst (mb_add lib c n v b) then 1 else 0)"
  by (auto simp: mb_add_def Let_def split: option.splits)

lemma accept_measurement_ok [inv_rules]:
  assumes "publisher_ok p"
  shows "publisher_ok (accept_measurement lib node v c p)"
proof (cases "measurement_type c")
  case None
  with assms show ?thesis by (simp add: accept_measurement_def)
next
  case (Some ty)
  obtain added b where b:
    "mb_add lib c (rn_node_id_str node) v (unwrap_or mb_new (bt_get (pb_batch p) ty)) = (added, b)"
    by fastforce
  have "mb_series_count b =
      (case bt_get (pb_batch p) ty of None \<Rightarrow> 0 | Some c \<Rightarrow> mb_series_count c) + (if added then 1 else 0)"
    using mb_add_count [of lib c "rn_node_id_str node" v
        "unwrap_or mb_new (bt_get (pb_batch p) ty)"] b
    by (simp add: mb_new_def split: option.splits)
  with batch_series_insert [of "pb_batch p" ty b] assms Some b show ?thesis
    by (simp add: publisher_ok_def accept_measurement_def Let_def bt_insert_sorted)
qed

lemma accept_event_batch [simp]:
  "pb_batch (fst (accept_event lib node v c pm)) = pb_batch (fst pm)"
  "pb_pending_series (fst (accept_event lib node v c pm)) = pb_pending_series (fst pm)"
  by (auto simp: accept_event_def Let_def split: prod.splits option.splits)

lemma accept_alarm_batch [simp]:
  "pb_batch (fst (accept_alarm lib node v c pm)) = pb_batch (fst pm)"
  "pb_pending_series (fst (accept_alarm lib node v c pm)) = pb_pending_series (fst pm)"
  by (auto simp: accept_alarm_def Let_def split: prod.splits option.splits)

lemma accept_action_ok [inv_rules]:
  "publisher_ok (fst pm) \<Longrightarrow> publisher_ok (fst (accept_action lib node v a pm))"
  by (cases a) (simp_all add: accept_action_def accept_measurement_ok, simp_all add: publisher_ok_def)

lemma accept_ok [inv_rules]:
  assumes "publisher_ok (fst pm)"
  shows "publisher_ok (fst (accept lib node v pm))"
proof -
  have "publisher_ok (fst (fold (accept_action lib node v) as pm))" for as
    using assms
  proof (induction as arbitrary: pm)
    case (Cons a as)
    from Cons.IH [OF accept_action_ok [OF Cons.prems]] show ?case by simp
  qed simp
  with assms show ?thesis by (simp add: accept_def)
qed

lemma accept_list_ok:
  "publisher_ok (fst pm) \<Longrightarrow>
     publisher_ok (fst (fold (\<lambda>(node, v). accept lib node v) nvs pm))"
proof (induction nvs arbitrary: pm)
  case (Cons nv nvs)
  from Cons.IH [OF accept_ok [OF Cons.prems, of lib "fst nv" "snd nv"]] show ?case
    by (simp add: case_prod_beta)
qed simp

lemma flush_entries_sent:
  assumes "\<And>n. mq_accepts m n"
  shows "mq_sent (fold (flush_entry lib entity) tbs m) =
      mq_sent m @
      filter_map (\<lambda>(ty, b). map_option
        (\<lambda>payload. \<lparr>ms_topic = channel_topic entity (''m/'' @ ty), ms_body = JsonBody payload,
                    ms_retain = False\<rparr>) (mb_build lib b)) tbs"
  using assms
proof (induction tbs arbitrary: m)
  case Nil
  then show ?case by simp
next
  case (Cons tb tbs)
  obtain ty b where tb: "tb = (ty, b)" by (cases tb)
  have "mq_accepts (flush_entry lib entity tb m) = mq_accepts m"
    by (simp add: flush_entry_def publish_defs split: prod.splits option.splits)
  then have "\<And>n. mq_accepts (flush_entry lib entity tb m) n" using Cons.prems by simp
  from Cons.IH [OF this] Cons.prems tb show ?case
    by (auto simp: flush_entry_def publish_defs client_publish_def Let_def split: option.splits)
qed

text \<open>
  The number of pending series is always the number of series waiting in the batch, whatever
  values a publisher has accepted; and a flush publishes every waiting measurement type once, with
  all its series, and leaves nothing waiting.
\<close>

theorem flush_publishes_batch:
  assumes "\<And>n. mq_accepts (snd pm') n" and
    "pm' = fold (\<lambda>(node, v). accept lib node v) nvs (publisher_new entity server dedup, m)"
  shows "pb_pending_series (fst pm') = batch_series (pb_batch (fst pm')) \<and>
    mq_sent (snd (flush lib pm')) =
      mq_sent (snd pm') @
      filter_map (\<lambda>(ty, b). map_option
        (\<lambda>payload. \<lparr>ms_topic = channel_topic (pb_entity (fst pm')) (''m/'' @ ty),
                    ms_body = JsonBody payload, ms_retain = False\<rparr>) (mb_build lib b))
        (pb_batch (fst pm')) \<and>
    pb_batch (fst (flush lib pm')) = [] \<and> pb_pending_series (fst (flush lib pm')) = 0"
proof -
  have "publisher_ok (publisher_new entity server dedup)"
    by (simp add: publisher_ok_def publisher_new_def bt_inv_def)
  then have "publisher_ok (fst pm')"
    using accept_list_ok [of "(publisher_new entity server dedup, m)"] assms(2) by simp
  moreover obtain p1 m1 where "pm' = (p1, m1)" by (cases pm')
  ultimately show ?thesis
    using flush_entries_sent [of m1 lib "pb_entity p1" "pb_batch p1"] assms(1)
    by (simp add: publisher_ok_def flush_def)
qed

section \<open>Alarms\<close>

text \<open>The alarm states read from a list of values, each with the value it was read from.\<close>

definition alarm_reading :: "opc_lib \<Rightarrow> data_value \<Rightarrow> (bool \<times> data_value) option" where
  "alarm_reading lib v =
     (if is_bad lib v then None
      else map_option (\<lambda>b. (b, v)) (Option.bind (dv_value v) value_as_bool))"

definition alarm_readings :: "opc_lib \<Rightarrow> data_value list \<Rightarrow> (bool \<times> data_value) list" where
  "alarm_readings lib vs = filter_map (alarm_reading lib) vs"

text \<open>The readings that change the state.\<close>

fun transitions :: "'s option \<Rightarrow> ('s \<times> 'v) list \<Rightarrow> ('s \<times> 'v) list" where
  "transitions state [] = []"
| "transitions state ((b, v) # rs) =
     (if state = Some b then transitions state rs else (b, v) # transitions (Some b) rs)"

text \<open>A publisher that remembers the last state it sent publishes the changes of it.\<close>

lemma changes_published:
  assumes step: "\<And>v p m. (\<And>n. mq_accepts m n) \<Longrightarrow> good p \<Longrightarrow> step v (p, m) =
      (case reading v of
         None \<Rightarrow> (p, m)
       | Some (b, w) \<Rightarrow>
           (if state p = Some b then (p, m)
            else (put b p, m\<lparr>mq_calls := mq_calls m + 1, mq_sent := mq_sent m @ [msg (b, w)]\<rparr>)))"
    and put: "\<And>b p. state (put b p) = Some b" "\<And>b p. good p \<Longrightarrow> good (put b p)"
    and start: "\<And>n. mq_accepts m n" "good p"
  shows "mq_sent (snd (fold step vs (p, m))) =
    mq_sent m @ map msg (transitions (state p) (filter_map reading vs))"
  using start
proof (induction vs arbitrary: p m)
  case Nil
  then show ?case by simp
next
  case (Cons v vs)
  note now = step [OF Cons.prems, of v]
  show ?case
  proof (cases "reading v")
    case None
    with now Cons.IH [OF Cons.prems] show ?thesis by simp
  next
    case (Some bw)
    with now Cons put show ?thesis by (cases bw) auto
  qed
qed

definition alarm_message ::
    "opc_lib \<Rightarrow> entity_topic_id \<Rightarrow> alarm_creation \<Rightarrow> string \<Rightarrow> string \<Rightarrow> bool \<times> data_value \<Rightarrow>
     message" where
  "alarm_message lib entity c ty n bv =
     \<lparr>ms_topic = channel_topic entity (''a/'' @ ty),
      ms_body = (if fst bv then JsonBody (alarm_payload lib c n (snd bv)) else EmptyBody),
      ms_retain = (\<not> fst bv)\<rparr>"

lemma accept_single_alarm:
  assumes "rn_actions node = [Alarm c]" "ac_type c = Some ty" "\<And>n. mq_accepts m n"
  shows "accept lib node v (p, m) =
    (case alarm_reading lib v of
       None \<Rightarrow> (p, m)
     | Some (b, w) \<Rightarrow>
         (if bt_get (pb_last_alarm p) (rn_node_id_str node, ty) = Some b then (p, m)
          else (p\<lparr>pb_last_alarm :=
                    bt_insert (rn_node_id_str node, ty) b (pb_last_alarm p)\<rparr>,
                m\<lparr>mq_calls := mq_calls m + 1,
                  mq_sent := mq_sent m @
                    [alarm_message lib (pb_entity p) c ty (rn_node_id_str node) (b, w)]\<rparr>)))"
  using assms
  by (auto simp: accept_def accept_action_def accept_alarm_def alarm_reading_def publish_defs
      client_publish_def alarm_message_def Let_def split: option.splits)

text \<open>
  C17. An alarm is published on transitions only: over any sequence of values the messages of an
  alarm node are one per change of the alarm state, in order, raised with a payload and cleared
  with an empty retained one. Bad values and values without a state publish nothing.
\<close>

theorem alarm_transitions:
  assumes "rn_actions node = [Alarm c]" "ac_type c = Some ty" "\<And>n. mq_accepts m n"
  shows "mq_sent (snd (fold (accept lib node) vs (p, m))) =
    mq_sent m @
    map (alarm_message lib (pb_entity p) c ty (rn_node_id_str node))
      (transitions (bt_get (pb_last_alarm p) (rn_node_id_str node, ty)) (alarm_readings lib vs))"
  unfolding alarm_readings_def
  by (rule changes_published
      [where good = "\<lambda>q. pb_entity q = pb_entity p"
        and put = "\<lambda>b q. q\<lparr>pb_last_alarm := bt_insert (rn_node_id_str node, ty) b (pb_last_alarm q)\<rparr>"])
    (use assms in \<open>simp_all add: accept_single_alarm [OF assms(1, 2)] split: option.split prod.split\<close>)

definition demo_alarm :: alarm_creation where
  "demo_alarm =
     \<lparr>ac_type = Some ''hot'', ac_text = Some ''Too hot'', ac_severity = Some ''MAJOR'',
      ac_static_fragments = None\<rparr>"

definition demo_alarm_node :: resolved_node where
  "demo_alarm_node =
     \<lparr>rn_node_id = NodeId 2 (Numeric 7), rn_node_id_str = ''ns=2;i=7'',
      rn_actions = [Alarm demo_alarm], rn_delivery = CyclicRead 1000 0\<rparr>"

definition demo_flag :: "bool \<Rightarrow> data_value" where
  "demo_flag b =
     \<lparr>dv_value = Some (VBoolean b), dv_status = Some 0, dv_source_timestamp = None,
      dv_server_timestamp = None\<rparr>"

definition demo_publisher :: publisher where
  "demo_publisher = publisher_new (child_device ''pump'') ''plc'' True"

lemma alarm_transitions_witness:
  "map ms_retain (mq_sent (snd (fold (accept demo_lib demo_alarm_node)
      (map demo_flag [True, True, False, True]) (demo_publisher, demo_mqtt)))) =
   [False, True, False]"
proof -
  have a: "rn_actions demo_alarm_node = [Alarm demo_alarm]" "ac_type demo_alarm = Some ''hot''"
    and m: "\<And>n. mq_accepts demo_mqtt n"
    by (simp_all add: demo_alarm_node_def demo_alarm_def demo_mqtt_def mqtt_new_def Let_def)
  have "mq_sent demo_mqtt = []" by (simp add: demo_mqtt_def mqtt_new_def Let_def)
  moreover have "pb_last_alarm demo_publisher = []"
    by (simp add: demo_publisher_def publisher_new_def)
  moreover have "alarm_readings demo_lib (map demo_flag [True, True, False, True]) =
      [(True, demo_flag True), (True, demo_flag True), (False, demo_flag False), (True, demo_flag True)]"
    by (simp add: alarm_readings_def alarm_reading_def demo_flag_def is_bad_def value_as_bool_def demo_lib_def)
  ultimately show ?thesis
    using alarm_transitions [OF a m, of demo_lib "map demo_flag [True, True, False, True]"
        demo_publisher]
    by (simp add: alarm_message_def)
qed

text \<open>
  The state is recorded before the message is handed to the client, so a transition whose publish
  fails is not published again.
\<close>

lemma failed_alarm_is_lost:
  "mq_sent (snd (fold (accept demo_lib demo_alarm_node) [demo_flag True, demo_flag True]
     (demo_publisher, demo_mqtt\<lparr>mq_accepts := (\<lambda>n. n \<noteq> 0)\<rparr>))) = []"
  by code_simp

lemma flush_publishes_batch_witness:
  "pb_batch (fst (flush demo_lib (publisher_new (child_device ''pump'') ''plc'' True, demo_mqtt))) = []"
proof -
  have "\<And>n. mq_accepts (snd (publisher_new (child_device ''pump'') ''plc'' True, demo_mqtt)) n"
    by (simp add: demo_mqtt_def mqtt_new_def Let_def)
  from flush_publishes_batch [OF this, of demo_lib "[]" "child_device ''pump''" "''plc''" True demo_mqtt]
  show ?thesis by simp
qed

end
