(* ===== verification/Server_Task.thy ===== *)
theory Server_Task
  imports Publish Constraints Source Config
begin

text \<open>
  What a server task does with one session: \<open>crates/gateway/src/server_task.rs\<close>, from the
  resolution of the device types to the two kinds of readers. The readers are step functions on the
  events of their loops.
\<close>

definition max_consecutive_read_failures :: u32 where
  "max_consecutive_read_failures = 3"

section \<open>Applied device types\<close>

record applied_device_type =
  ad_entity :: entity_topic_id
  ad_name :: string
  ad_mapping :: resolved_mapping

definition applied_new :: "server_config \<Rightarrow> resolved_mapping \<Rightarrow> applied_device_type" where
  "applied_new server mapping =
     \<lparr>ad_entity = child_device (server_topic_id server @ ''-'' @ sanitize_id (rm_device_type_id mapping)),
      ad_name =
        (if trim (rm_device_type_name mapping) = [] then rm_device_type_id mapping
         else rm_device_type_name mapping) @ '' ('' @ rm_root_node_id mapping @ '')'',
      ad_mapping = mapping\<rparr>"

section \<open>Resolving against a session\<close>

definition record_translations ::
    "(nat \<times> qualified_name list) list \<Rightarrow> node_id option list \<Rightarrow> plan \<Rightarrow> plan" where
  "record_translations pending resolved p =
     fold (\<lambda>((i, _), n) p. case n of Some n \<Rightarrow> set_resolved i n p | None \<Rightarrow> p)
       (zip pending resolved) p"

text \<open>The loop body of \<open>resolve_all\<close>: \<open>Inr None\<close> where the code continues with the next type.\<close>

definition resolve_one ::
    "opc_lib \<Rightarrow> 'w session \<Rightarrow> server_config \<Rightarrow> string list \<Rightarrow> ns_table \<Rightarrow> loaded \<Rightarrow> 'w \<Rightarrow>
     (conn_error + resolved_mapping option) \<times> 'w" where
  "resolve_one lib s server known t l w =
     (if \<not> accepts_device_type server (ld_id l) then (Inr None, w)
      else if \<not> applies lib (ld_device_type l) (sc_id server) known t then (Inr None, w)
      else case plan_of lib (ld_id l) (ld_device_type l) t of
             Inl _ \<Rightarrow> (Inr None, w)
           | Inr p \<Rightarrow>
               (let pending = pending_paths p in
                case (if pending = [] then (Inr p, w)
                      else case translate_browse_paths lib s (pl_root_node_id p)
                                  (map snd pending) w of
                             (Inl e, w) \<Rightarrow> (Inl e, w)
                           | (Inr resolved, w) \<Rightarrow> (Inr (record_translations pending resolved p), w)) of
                  (Inl e, w) \<Rightarrow> (Inl e, w)
                | (Inr p, w) \<Rightarrow>
                    (let mapping = finish lib p in
                     (Inr (if rm_nodes mapping = [] then None else Some mapping), w))))"

fun resolve_types ::
    "opc_lib \<Rightarrow> 'w session \<Rightarrow> server_config \<Rightarrow> string list \<Rightarrow> ns_table \<Rightarrow> loaded list \<Rightarrow> 'w \<Rightarrow>
     (conn_error + resolved_mapping list) \<times> 'w" where
  "resolve_types lib s server known t [] w = (Inr [], w)"
| "resolve_types lib s server known t (l # ls) w =
     (case resolve_one lib s server known t l w of
        (Inl e, w) \<Rightarrow> (Inl e, w)
      | (Inr m, w) \<Rightarrow>
          (case resolve_types lib s server known t ls w of
             (Inl e, w) \<Rightarrow> (Inl e, w)
           | (Inr ms, w) \<Rightarrow> (Inr ((case m of None \<Rightarrow> [] | Some m \<Rightarrow> [m]) @ ms), w)))"

definition resolve_all ::
    "opc_lib \<Rightarrow> 'w session \<Rightarrow> server_config \<Rightarrow> string list \<Rightarrow> loaded list \<Rightarrow> 'w \<Rightarrow>
     (conn_error + resolved_mapping list) \<times> 'w" where
  "resolve_all lib s server known ls w =
     (case namespace_array lib s w of
        (Inl e, w) \<Rightarrow> (Inl e, w)
      | (Inr t, w) \<Rightarrow> resolve_types lib s server known t ls w)"

section \<open>The subscription\<close>

record subscribed_target =
  tg_entity :: entity_topic_id
  tg_device_type_id :: string
  tg_node :: resolved_node

definition item_spec_of :: "resolved_node \<Rightarrow> subscription_config \<Rightarrow> item_spec" where
  "item_spec_of node c =
     (let params = node_subscription_parameters node in
      \<lparr>is_node_id = rn_node_id node,
       is_sampling_interval_ms = Option.bind params sp_sampling_rate,
       is_queue_size = unwrap_or (sb_default_queue_size c) (Option.bind params sp_queue_size),
       is_discard_oldest = is_none_or sp_discards_oldest params,
       is_trigger = unwrap_or TrStatusValue (map_option sp_trigger params),
       is_deadband = Option.bind params sp_deadband,
       is_index_range = Option.bind params sp_index_range\<rparr>)"

definition subscription_targets :: "applied_device_type list \<Rightarrow> subscribed_target list" where
  "subscription_targets applied =
     concat (map (\<lambda>d. map (\<lambda>n.
       \<lparr>tg_entity = ad_entity d, tg_device_type_id = rm_device_type_id (ad_mapping d), tg_node = n\<rparr>)
         (subscribed_nodes (ad_mapping d))) applied)"

type_synonym routes = "(u32, subscribed_target) hmap"

definition routes_of ::
    "subscribed_target list \<Rightarrow> (status_code + u32) list \<Rightarrow> routes" where
  "routes_of targets results =
     fold (\<lambda>(target, r) m. case r of Inr handle \<Rightarrow> hm_insert handle target m | Inl _ \<Rightarrow> m)
       (zip targets results) []"

text \<open>\<open>start_subscription\<close>: the routes of the loop it spawns, or \<open>None\<close> where it spawns none.\<close>

definition start_subscription ::
    "opc_lib \<Rightarrow> 'w session \<Rightarrow> subscription_config \<Rightarrow> applied_device_type list \<Rightarrow> 'w \<Rightarrow>
     routes option \<times> 'w" where
  "start_subscription lib s c applied w =
     (let targets = subscription_targets applied;
          specs = map (\<lambda>t. item_spec_of (tg_node t) c) targets in
      if specs = [] then (None, w)
      else case create_subscription s (to_sub_params c) w of
             (Inl _, w) \<Rightarrow> (None, w)
           | (Inr subscription, w) \<Rightarrow>
               (case create_monitored_items lib s subscription specs w of
                  (Inl _, w) \<Rightarrow> (None, w)
                | (Inr results, w) \<Rightarrow>
                    (let routes = routes_of targets results in
                     (if routes = [] then None else Some routes, w))))"

text \<open>
  The loop of \<open>subscription_loop\<close>: \<open>Flush\<close> is a tick of its interval, \<open>Closed\<close> the end of the
  channel.
\<close>

datatype sub_event = SubCancel | FlushTick | Change data_change | Closed

record sub_loop =
  sl_publishers :: "(string, publisher) hmap"
  sl_mqtt :: mqtt
  sl_done :: bool

definition sub_publishers :: "string \<Rightarrow> routes \<Rightarrow> (string, publisher) hmap" where
  "sub_publishers server_id routes =
     fold (\<lambda>(_, target) ps.
             let k = topic_str (tg_entity target) in
             case hm_get ps k of
               Some _ \<Rightarrow> ps
             | None \<Rightarrow> hm_insert k (publisher_new (tg_entity target) server_id False) ps)
       routes []"

fun flush_publishers ::
    "opc_lib \<Rightarrow> (string \<times> publisher) list \<Rightarrow> mqtt \<Rightarrow> (string \<times> publisher) list \<times> mqtt" where
  "flush_publishers lib [] m = ([], m)"
| "flush_publishers lib ((k, p) # ps) m =
     (case flush lib (p, m) of
        (p, m) \<Rightarrow> (case flush_publishers lib ps m of (ps, m) \<Rightarrow> ((k, p) # ps, m)))"

definition flush_all :: "opc_lib \<Rightarrow> sub_loop \<Rightarrow> sub_loop" where
  "flush_all lib l =
     (case flush_publishers lib (sl_publishers l) (sl_mqtt l) of
        (ps, m) \<Rightarrow> l\<lparr>sl_publishers := ps, sl_mqtt := m\<rparr>)"

definition total_pending :: "(string, publisher) hmap \<Rightarrow> nat" where
  "total_pending ps = sum_list (map (\<lambda>(_, p). pb_pending_series p) ps)"

definition deliver :: "opc_lib \<Rightarrow> routes \<Rightarrow> data_change \<Rightarrow> sub_loop \<Rightarrow> sub_loop" where
  "deliver lib routes change l =
     (case hm_get routes (ch_client_handle change) of
        None \<Rightarrow> l
      | Some target \<Rightarrow>
          (let k = topic_str (tg_entity target) in
           case hm_get (sl_publishers l) k of
             None \<Rightarrow> l
           | Some p \<Rightarrow>
               (case accept lib (tg_node target) (ch_value change) (p, sl_mqtt l) of
                  (p, m) \<Rightarrow>
                    l\<lparr>sl_publishers := hm_insert k p (sl_publishers l), sl_mqtt := m\<rparr>)))"

definition sub_step ::
    "opc_lib \<Rightarrow> subscription_config \<Rightarrow> routes \<Rightarrow> sub_event \<Rightarrow> sub_loop \<Rightarrow> sub_loop" where
  "sub_step lib c routes ev l =
     (if sl_done l then l
      else case ev of
        SubCancel \<Rightarrow> (flush_all lib l)\<lparr>sl_done := True\<rparr>
      | FlushTick \<Rightarrow> flush_all lib l
      | Closed \<Rightarrow> (flush_all lib l)\<lparr>sl_done := True\<rparr>
      | Change change \<Rightarrow>
          (let l = deliver lib routes change l in
           if sb_flush_max_series c \<le> total_pending (sl_publishers l) then flush_all lib l else l))"

section \<open>Cyclic reads\<close>

text \<open>
  The loop of \<open>read_loop\<close>: an event is a cancellation or the result of the read of one tick.
\<close>

datatype read_event = ReadCancel | ReadResult "conn_error + data_value list"

record read_loop =
  rl_publisher :: publisher
  rl_mqtt :: mqtt
  rl_failures :: u32
  rl_done :: bool

definition read_loop_init :: "entity_topic_id \<Rightarrow> string \<Rightarrow> mqtt \<Rightarrow> read_loop" where
  "read_loop_init entity server_id m =
     \<lparr>rl_publisher = publisher_new entity server_id True, rl_mqtt = m, rl_failures = 0,
      rl_done = False\<rparr>"

definition read_step :: "opc_lib \<Rightarrow> resolved_node list \<Rightarrow> read_event \<Rightarrow> read_loop \<Rightarrow> read_loop" where
  "read_step lib nodes ev l =
     (if rl_done l then l
      else case ev of
        ReadCancel \<Rightarrow> l\<lparr>rl_done := True\<rparr>
      | ReadResult (Inl _) \<Rightarrow>
          (let failures = rl_failures l + 1 in
           l\<lparr>rl_failures := failures, rl_done := max_consecutive_read_failures \<le> failures\<rparr>)
      | ReadResult (Inr vals) \<Rightarrow>
          (case flush lib
                  (fold (\<lambda>(node, v). accept lib node v) (zip nodes vals)
                     (rl_publisher l, rl_mqtt l)) of
             (p, m) \<Rightarrow> l\<lparr>rl_publisher := p, rl_mqtt := m, rl_failures := 0\<rparr>))"

text \<open>The request of one tick.\<close>

definition read_tick ::
    "'w session \<Rightarrow> resolved_node list \<Rightarrow> read_schedule \<Rightarrow> 'w \<Rightarrow> read_event \<times> 'w" where
  "read_tick s nodes schedule w =
     (case read_values s (map rn_node_id nodes) (rs_max_age schedule) w of
        (r, w) \<Rightarrow> (ReadResult r, w))"

definition start_read_loops ::
    "string \<Rightarrow> applied_device_type list \<Rightarrow> mqtt \<Rightarrow>
     (read_schedule \<times> resolved_node list \<times> read_loop) list" where
  "start_read_loops server_id applied m =
     concat (map (\<lambda>d. map (\<lambda>(schedule, nodes).
       (schedule, nodes, read_loop_init (ad_entity d) server_id m)) (read_groups (ad_mapping d)))
       applied)"

section \<open>Giving up on a session\<close>

text \<open>Three results in a row that are errors.\<close>

definition three_failures :: "('e + 'a) list \<Rightarrow> bool" where
  "three_failures rs \<longleftrightarrow>
     (\<exists>i. length (take 3 (drop i rs)) = 3 \<and> list_all isl (take 3 (drop i rs)))"

fun gives_up :: "nat \<Rightarrow> ('e + 'a) list \<Rightarrow> bool" where
  "gives_up n [] = False"
| "gives_up n (r # rs) =
     (if isl r then 3 \<le> Suc n \<or> gives_up (Suc n) rs else gives_up 0 rs)"

lemma three_failures_Cons:
  "three_failures (r # rs) \<longleftrightarrow>
     length (take 3 (r # rs)) = 3 \<and> list_all isl (take 3 (r # rs)) \<or> three_failures rs"
proof -
  have ex: "(\<exists>i. P i) \<longleftrightarrow> P 0 \<or> (\<exists>i. P (Suc i))" for P :: "nat \<Rightarrow> bool"
    by (metis not0_implies_Suc)
  show ?thesis unfolding three_failures_def by (subst ex) simp
qed

lemma three_failures_prefix:
  "length (take 3 rs) = 3 \<Longrightarrow> list_all isl (take 3 rs) \<Longrightarrow> three_failures rs"
  by (auto simp: three_failures_def intro!: exI [of _ 0])

lemma gives_up_iff:
  "n < 3 \<Longrightarrow> gives_up n rs \<longleftrightarrow>
     length (take (3 - n) rs) = 3 - n \<and> list_all isl (take (3 - n) rs) \<or> three_failures rs"
proof (induction rs arbitrary: n)
  case Nil
  then show ?case by (auto simp: three_failures_def)
next
  case (Cons r rs)
  show ?case
  proof (cases "isl r")
    case False
    with Cons.prems have "gives_up n (r # rs) \<longleftrightarrow> three_failures rs"
      using Cons.IH [of 0] three_failures_prefix [of rs] by auto
    with False Cons.prems show ?thesis
      by (auto simp: three_failures_Cons take_Cons')
  next
    case True
    show ?thesis
    proof (cases "n = 2")
      case True
      with \<open>isl r\<close> show ?thesis by (simp add: take_Cons')
    next
      case False
      with Cons.prems have n: "Suc n < 3" by simp
      have t: "take (3 - n) (r # rs) = r # take (3 - Suc n) rs"
        using n by (simp add: take_Cons' Suc_diff_Suc)
      have "three_failures (r # rs) \<longleftrightarrow> (2 \<le> length rs \<and> list_all isl (take 2 rs)) \<or> three_failures rs"
        using \<open>isl r\<close> by (auto simp: three_failures_Cons take_Cons')
      moreover have "set (take (Suc 0) rs) \<subseteq> set (take (Suc (Suc 0)) rs)"
        by (rule set_take_subset_set_take) simp
      ultimately show ?thesis
        using Cons.IH [OF n] n \<open>isl r\<close> t
        by (cases n) (auto simp: list_all_iff numeral_eq_Suc dest: subsetD)
    qed
  qed
qed

interpretation reader: ending "read_step lib nodes" rl_done for lib nodes
  by unfold_locales (simp add: read_step_def)

lemma failures_reached:
  assumes "n < 3" "failures = word_of_nat n"
  shows "max_consecutive_read_failures \<le> failures + 1 \<longleftrightarrow> 3 \<le> Suc n"
proof -
  consider "n = 0" | "n = 1" | "n = 2" using assms(1) by linarith
  then show ?thesis
    using assms(2) by cases (simp_all add: max_consecutive_read_failures_def word_le_nat_alt)
qed

lemma read_steps_done:
  "n < 3 \<Longrightarrow> \<not> rl_done l \<Longrightarrow> rl_failures l = word_of_nat n \<Longrightarrow>
     rl_done (fold (read_step lib nodes) (map ReadResult rs) l) \<longleftrightarrow> gives_up n rs"
proof (induction rs arbitrary: n l)
  case Nil
  then show ?case by simp
next
  case (Cons r rs)
  show ?case
  proof (cases r)
    case (Inl e)
    note f = failures_reached [OF Cons.prems(1, 3)]
    let ?l = "l\<lparr>rl_failures := rl_failures l + 1,
      rl_done := max_consecutive_read_failures \<le> rl_failures l + 1\<rparr>"
    have step: "read_step lib nodes (ReadResult r) l = ?l"
      using Cons.prems(2) Inl by (simp add: read_step_def Let_def)
    show ?thesis
    proof (cases "3 \<le> Suc n")
      case True
      with f have "rl_done ?l" by simp
      with True Inl step reader.over_run [OF this] show ?thesis by simp
    next
      case False
      with f have "\<not> rl_done ?l" "rl_failures ?l = word_of_nat (Suc n)"
        using Cons.prems(3) by simp_all
      from Cons.IH [OF _ this] False Inl step show ?thesis by simp
    qed
  next
    case (Inr vals)
    obtain p m where "flush lib (fold (\<lambda>(node, v). accept lib node v) (zip nodes vals)
        (rl_publisher l, rl_mqtt l)) = (p, m)" by fastforce
    with Cons.prems(2) Inr have "read_step lib nodes (ReadResult r) l =
        l\<lparr>rl_publisher := p, rl_mqtt := m, rl_failures := 0\<rparr>"
      by (simp add: read_step_def)
    with Cons.IH [of 0 "l\<lparr>rl_publisher := p, rl_mqtt := m, rl_failures := 0\<rparr>"] Cons.prems(2) Inr
    show ?thesis by simp
  qed
qed

text \<open>
  C37. A read loop gives its session up exactly when three reads in a row have failed: a single
  good read in between starts the count again, and no other sequence of results ends it.
\<close>

theorem read_loop_gives_up_iff:
  "rl_done (fold (read_step lib nodes) (map ReadResult rs) (read_loop_init entity server m)) \<longleftrightarrow>
     three_failures rs"
proof -
  have "rl_done (fold (read_step lib nodes) (map ReadResult rs) (read_loop_init entity server m)) \<longleftrightarrow>
      gives_up 0 rs"
    by (rule read_steps_done) (simp_all add: read_loop_init_def)
  also have "\<dots> \<longleftrightarrow> three_failures rs"
    unfolding gives_up_iff [OF zero_less_numeral]
    by (auto simp: three_failures_def intro: exI [of _ 0])
  finally show ?thesis .
qed

section \<open>Batching notifications\<close>

lemma flush_publishers_pending:
  "total_pending (fst (flush_publishers lib ps m)) = 0"
proof (induction ps arbitrary: m)
  case Nil
  then show ?case by (simp add: total_pending_def)
next
  case (Cons kp ps)
  obtain k p where kp: "kp = (k, p)" by (cases kp)
  obtain p' m' where f: "flush lib (p, m) = (p', m')" by fastforce
  then have "pb_pending_series p' = 0" by (auto simp: flush_def)
  with Cons.IH [of m'] f kp show ?case by (simp add: total_pending_def case_prod_beta)
qed

lemma flush_all_pending: "total_pending (sl_publishers (flush_all lib l)) = 0"
  using flush_publishers_pending [of lib "sl_publishers l" "sl_mqtt l"]
  by (simp add: flush_all_def case_prod_beta)

text \<open>Fewer series than the bound wait, and none once the loop has ended.\<close>

definition within_bound :: "subscription_config \<Rightarrow> sub_loop \<Rightarrow> bool" where
  "within_bound c l \<longleftrightarrow>
     total_pending (sl_publishers l) < max 1 (sb_flush_max_series c) \<and>
     (sl_done l \<longrightarrow> total_pending (sl_publishers l) = 0)"

interpretation subscriber: stepping "sub_step lib c routes" "within_bound c" for lib c routes
proof
  fix ev l
  assume l: "within_bound c l"
  show "within_bound c (sub_step lib c routes ev l)"
  proof (cases "sl_done l")
    case True
    with l show ?thesis by (simp add: sub_step_def)
  next
    case False
    have "sl_done (deliver lib routes change l) = sl_done l"
      "sl_done (flush_all lib l') = sl_done l'" for change l'
      by (auto simp: deliver_def flush_all_def Let_def split: option.splits prod.splits)
    with False show ?thesis
      by (auto simp: sub_step_def Let_def flush_all_pending within_bound_def
          split: sub_event.splits)
  qed
qed

text \<open>
  However notifications, ticks and the end of the subscription interleave, fewer than the
  configured number of series wait after each of them, and none is left waiting when the loop
  ends.
\<close>

theorem subscription_batches_bounded:
  assumes "total_pending (sl_publishers l) = 0"
  shows "total_pending (sl_publishers (fold (sub_step lib c routes) evs l)) <
      max 1 (sb_flush_max_series c) \<and>
    (sl_done (fold (sub_step lib c routes) evs l) \<longrightarrow>
       total_pending (sl_publishers (fold (sub_step lib c routes) evs l)) = 0)"
  using subscriber.inv_run [of c l lib routes evs] assms by (simp add: within_bound_def)

definition demo_sub_loop :: sub_loop where
  "demo_sub_loop =
     \<lparr>sl_publishers = [(''device/pump//'', demo_publisher)], sl_mqtt = demo_mqtt, sl_done = False\<rparr>"

lemma subscription_batches_bounded_witness:
  "total_pending (sl_publishers (fold (sub_step demo_lib subscription_config_default [])
     [Change demo_change, SubCancel] demo_sub_loop)) < 200"
proof -
  have "total_pending (sl_publishers demo_sub_loop) = 0"
    by (simp add: demo_sub_loop_def total_pending_def demo_publisher_def publisher_new_def)
  from subscription_batches_bounded [OF this, of demo_lib subscription_config_default "[]"
      "[Change demo_change, SubCancel]"]
  show ?thesis by (simp add: subscription_config_default_def)
qed

section \<open>Where notifications go\<close>

lemma routes_of_get:
  "hm_get (routes_of targets results) h = Some t \<Longrightarrow>
     \<exists>i < length targets. i < length results \<and> targets ! i = t \<and> results ! i = Inr h"
proof -
  have "hm_get (fold (\<lambda>(target, r) m. case r of Inr handle \<Rightarrow> hm_insert handle target m | Inl _ \<Rightarrow> m)
      trs m) h = Some t \<Longrightarrow> hm_get m h = Some t \<or> (t, Inr h) \<in> set trs"
    for trs :: "(subscribed_target \<times> (status_code + u32)) list" and m
    by (induction trs arbitrary: m) (fastforce split: sum.splits if_splits)+
  from this [of "zip targets results" "[]"]
  show "hm_get (routes_of targets results) h = Some t \<Longrightarrow> ?thesis"
    by (auto simp: routes_of_def in_set_zip)
qed

lemma item_result_Inr:
  "item_result lib (slice_get created i) = Inr h \<longleftrightarrow>
     i < length created \<and> lib_is_good lib (ci_status (created ! i)) \<and>
     ci_client_handle (created ! i) = h"
  by (auto simp: item_result_def slice_get_def)

text \<open>
  C16. A notification is published as the device type that asked for it: whenever a handle has a
  route, the server accepted the item that was requested for that target's node and gave it that
  handle. An item the server refused has no route.
\<close>

theorem routes_to_requesting_device:
  assumes "start_subscription lib s c applied w = (Some routes, w')" "hm_get routes h = Some t"
  shows "\<exists>i subscription w1 created.
    i < length (subscription_targets applied) \<and> subscription_targets applied ! i = t \<and>
    fst (ss_create_items s subscription
      (map (\<lambda>t. item_request_of (item_spec_of (tg_node t) c)) (subscription_targets applied)) w1) =
      Inr created \<and>
    i < length created \<and> lib_is_good lib (ci_status (created ! i)) \<and>
    ci_client_handle (created ! i) = h"
proof -
  let ?targets = "subscription_targets applied"
  let ?specs = "map (\<lambda>t. item_spec_of (tg_node t) c) ?targets"
  obtain subscription w1 results w2 where
    ne: "?specs \<noteq> []" and
    items: "create_monitored_items lib s subscription ?specs w1 = (Inr results, w2)" and
    routes: "routes = routes_of ?targets results"
    using assms(1)
    by (auto simp: start_subscription_def create_subscription_def Let_def split: prod.splits sum.splits if_splits)
  from create_monitored_items_Inr [OF items ne] obtain created where
    created: "fst (ss_create_items s subscription (map item_request_of ?specs) w1) = Inr created" and
    results: "results = map (\<lambda>i. item_result lib (slice_get created i)) [0..<length ?specs]"
    by blast
  from routes_of_get [of ?targets results h t] assms(2) routes obtain i where
    "i < length ?targets" "?targets ! i = t" "results ! i = Inr h" by blast
  with results have "i < length created" "lib_is_good lib (ci_status (created ! i))"
    "ci_client_handle (created ! i) = h"
    by (auto simp: item_result_Inr)
  with created \<open>i < length ?targets\<close> \<open>?targets ! i = t\<close> show ?thesis by (auto simp: comp_def)
qed

definition demo_applied :: applied_device_type where
  "demo_applied =
     \<lparr>ad_entity = child_device ''plc-pump'', ad_name = ''Pump'',
      ad_mapping =
        \<lparr>rm_device_type_id = ''pump'', rm_device_type_name = ''Pump'', rm_root_node_id = ''r'',
         rm_nodes = [demo_alarm_node\<lparr>rn_delivery := Subscription sp_default\<rparr>]\<rparr>\<rparr>"

lemma routes_to_requesting_device_witness:
  "\<exists>i. i < length (subscription_targets [demo_applied]) \<and>
     tg_entity (subscription_targets [demo_applied] ! i) = child_device ''plc-pump''"
proof -
  have "start_subscription demo_lib demo_session subscription_config_default [demo_applied] () =
      (Some [(5, \<lparr>tg_entity = child_device ''plc-pump'', tg_device_type_id = ''pump'',
                  tg_node = demo_alarm_node\<lparr>rn_delivery := Subscription sp_default\<rparr>\<rparr>)], ())"
    by code_simp
  from routes_to_requesting_device [OF this, of 5]
  have "\<exists>i. i < length (subscription_targets [demo_applied]) \<and>
      subscription_targets [demo_applied] ! i =
      \<lparr>tg_entity = child_device ''plc-pump'', tg_device_type_id = ''pump'',
       tg_node = demo_alarm_node\<lparr>rn_delivery := Subscription sp_default\<rparr>\<rparr>"
    by (simp, blast)
  then show ?thesis by (metis subscribed_target.select_convs(1))
qed

section \<open>What resolving yields\<close>

lemma record_translations_deliveries:
  "map en_delivery (pl_entries (record_translations pending resolved p)) =
     map en_delivery (pl_entries p)"
proof -
  have same: "map en_delivery (pl_entries (set_resolved i n q)) = map en_delivery (pl_entries q)"
    for i n q
    by (auto simp: set_resolved_entries map_update nth_list_update intro!: nth_equalityI)
  have "map en_delivery (pl_entries (fold (\<lambda>((i, _), n) p.
      case n of Some n \<Rightarrow> set_resolved i n p | None \<Rightarrow> p) xs q)) = map en_delivery (pl_entries q)"
    for xs :: "((nat \<times> qualified_name list) \<times> node_id option) list" and q
    by (induction xs arbitrary: q) (auto simp: same split: option.splits)
  then show ?thesis by (simp add: record_translations_def)
qed

lemma resolve_one_Some:
  assumes "resolve_one lib s server known t l w = (Inr (Some m), w')"
  shows "accepts_device_type server (ld_id l) \<and>
    applies lib (ld_device_type l) (sc_id server) known t \<and>
    rm_nodes m \<noteq> [] \<and> (\<forall>n \<in> set (rm_nodes m). delivery_ok (rn_delivery n))"
proof -
  obtain p q where p: "plan_of lib (ld_id l) (ld_device_type l) t = Inr p" and
    q: "map en_delivery (pl_entries q) = map en_delivery (pl_entries p)" and
    m: "m = finish lib q" and acc: "accepts_device_type server (ld_id l)"
      "applies lib (ld_device_type l) (sc_id server) known t" and ne: "rm_nodes m \<noteq> []"
    using assms record_translations_deliveries
    by (fastforce simp: resolve_one_def Let_def split: if_splits sum.splits prod.splits)
  have "\<forall>e \<in> set (pl_entries q). delivery_ok (en_delivery e)"
  proof
    fix e assume "e \<in> set (pl_entries q)"
    then have "en_delivery e \<in> set (map en_delivery (pl_entries p))"
      using q by (metis image_eqI set_map)
    then show "delivery_ok (en_delivery e)" using plan_entries_ok [OF p] by auto
  qed
  with m acc ne finish_delivery_ok [of q _ lib] show ?thesis by blast
qed

lemma resolve_types_Inr:
  "resolve_types lib s server known t ls w = (Inr ms, w') \<Longrightarrow> m \<in> set ms \<Longrightarrow>
     \<exists>l \<in> set ls. accepts_device_type server (ld_id l) \<and>
       applies lib (ld_device_type l) (sc_id server) known t \<and>
       rm_nodes m \<noteq> [] \<and> (\<forall>n \<in> set (rm_nodes m). delivery_ok (rn_delivery n))"
proof (induction ls arbitrary: ms w w')
  case Nil
  then show ?case by simp
next
  case (Cons l ls)
  obtain x w1 ms' w2 where x: "resolve_one lib s server known t l w = (Inr x, w1)"
    and rest: "resolve_types lib s server known t ls w1 = (Inr ms', w2)"
    and ms: "ms = (case x of None \<Rightarrow> [] | Some m \<Rightarrow> [m]) @ ms'"
    using Cons.prems(1) by (auto split: prod.splits sum.splits)
  show ?case
  proof (cases "m \<in> set ms'")
    case True
    with Cons.IH [OF rest] show ?thesis by auto
  next
    case False
    with Cons.prems(2) ms have "x = Some m" by (auto split: option.splits)
    with x resolve_one_Some [of lib s server known t l w m w1] show ?thesis by auto
  qed
qed

text \<open>
  C38. Whatever the server answers, each mapping that is applied belongs to a device type the server
  accepts and whose constraints hold, has a node, and every one of its nodes can be delivered: the
  subscription parameters are valid and no read loop is started with an interval of zero.
\<close>

theorem applied_types_deliverable:
  assumes "resolve_all lib s server known ls w = (Inr ms, w')" "m \<in> set ms"
  shows "(\<exists>t. \<exists>l \<in> set ls. accepts_device_type server (ld_id l) \<and>
       applies lib (ld_device_type l) (sc_id server) known t) \<and>
    rm_nodes m \<noteq> [] \<and>
    (\<forall>(schedule, ns) \<in> set (read_groups m). ns \<noteq> [] \<and> 0 < rs_rate_ms schedule) \<and>
    (\<forall>n \<in> set (subscribed_nodes m). \<exists>p. rn_delivery n = Subscription p \<and> sp_is_valid p)"
proof -
  from assms(1) obtain t w1 where "resolve_types lib s server known t ls w1 = (Inr ms, w')"
    by (auto simp: resolve_all_def split: prod.splits sum.splits)
  from resolve_types_Inr [OF this assms(2)] obtain l where
    l: "l \<in> set ls" "accepts_device_type server (ld_id l)"
      "applies lib (ld_device_type l) (sc_id server) known t" and
    ne: "rm_nodes m \<noteq> []" and ok: "\<forall>n \<in> set (rm_nodes m). delivery_ok (rn_delivery n)"
    by blast
  have groups: "ns \<noteq> [] \<and> 0 < rs_rate_ms schedule" if "(schedule, ns) \<in> set (read_groups m)"
    for schedule ns
  proof -
    from read_groups_member [OF that] obtain n where "n \<in> set (rm_nodes m)"
      "node_read_schedule n = Some schedule" and "ns \<noteq> []"
      by (cases ns) auto
    with ok have "delivery_ok (rn_delivery n)" by blast
    with \<open>node_read_schedule n = Some schedule\<close> \<open>ns \<noteq> []\<close> show ?thesis
      by (cases "rn_delivery n") (auto simp: node_read_schedule_def)
  qed
  have subs: "\<exists>p. rn_delivery n = Subscription p \<and> sp_is_valid p"
    if "n \<in> set (subscribed_nodes m)" for n
    using that ok by (cases "rn_delivery n") (auto simp: subscribed_nodes_def)
  from l ne groups subs show ?thesis by blast
qed

definition demo_types_session :: "unit session" where
  "demo_types_session =
     demo_session\<lparr>ss_read := (\<lambda>ns a w.
       (Inr [\<lparr>dv_value = Some (VArray [VString ''http://opcfoundation.org/UA/'']),
              dv_status = Some 0, dv_source_timestamp = None, dv_server_timestamp = None\<rparr>], w))\<rparr>"

definition demo_type :: loaded where
  "demo_type =
     \<lparr>ld_id = ''4711'', ld_origin = Pull, ld_fingerprint = [], ld_device_type = demo_plan_type\<rparr>"

definition demo_mapping :: resolved_mapping where
  "demo_mapping =
     \<lparr>rm_device_type_id = ''4711'', rm_device_type_name = ''Pump'',
      rm_root_node_id = ''ns=0;i=84'',
      rm_nodes =
        [\<lparr>rn_node_id = NodeId 2 (Numeric 7), rn_node_id_str = ''ns=2;i=7'',
          rn_actions = [Measurement (the (me_measurement_creation demo_entry))],
          rn_delivery = CyclicRead 5000 0\<rparr>]\<rparr>"

lemma demo_resolves:
  "resolve_all demo_lib demo_types_session demo_server [''plc''] [demo_type] () =
     (Inr [demo_mapping], ())"
  by code_simp

lemma applied_types_deliverable_witness:
  "rm_nodes demo_mapping \<noteq> [] \<and> 0 < rs_rate_ms (fst (hd (read_groups demo_mapping)))"
proof -
  have "read_groups demo_mapping \<noteq> []"
    by (simp add: read_groups_def demo_mapping_def node_read_schedule_def bt_push_def)
  then have "hd (read_groups demo_mapping) \<in> set (read_groups demo_mapping)" by simp
  moreover have "demo_mapping \<in> set [demo_mapping]" by simp
  note deliverable = applied_types_deliverable [OF demo_resolves this]
  have "\<forall>(schedule, ns) \<in> set (read_groups demo_mapping). ns \<noteq> [] \<and> 0 < rs_rate_ms schedule"
    "rm_nodes demo_mapping \<noteq> []"
    using deliverable by blast+
  ultimately show ?thesis by (metis (mono_tags, lifting) case_prod_beta)
qed

section \<open>Identities that meet\<close>

text \<open>
  Sanitizing is not injective: two device types of one server whose ids differ only in a separator
  or in case are one entity, and publish over each other.
\<close>

lemma device_types_can_share_an_entity:
  "ad_entity (applied_new demo_server (demo_mapping\<lparr>rm_device_type_id := ''Pump#1''\<rparr>)) =
   ad_entity (applied_new demo_server (demo_mapping\<lparr>rm_device_type_id := ''pump 1''\<rparr>))"
  by code_simp

text \<open>
  Two subscriptions of one node with different parameters become one node of the mapping with the
  parameters of the first.
\<close>

lemma merged_entries_lose_parameters:
  "map rn_delivery (rm_nodes (finish demo_lib
     \<lparr>pl_device_type_id = ''4711'', pl_device_type_name = ''Pump'',
      pl_root_node_id = NodeId 0 (Numeric 84),
      pl_entries =
        [\<lparr>en_name = ''a'', en_actions = [Alarm demo_alarm], en_node_ref = Known (NodeId 2 (Numeric 7)),
          en_delivery = Subscription sp_default\<rparr>,
         \<lparr>en_name = ''b'', en_actions = [Alarm demo_alarm], en_node_ref = Known (NodeId 2 (Numeric 7)),
          en_delivery = Subscription (sp_default\<lparr>sp_queue_size := Some 50\<rparr>)\<rparr>]\<rparr>)) =
   [Subscription sp_default]"
  by code_simp

end
