(* ===== verification/Gateway_Device.thy ===== *)
theory Gateway_Device
  imports Config Mqtt
begin

text \<open>The Cumulocity gateway device: \<open>crates/gateway/src/gateway_device.rs\<close>.\<close>

definition gateway_entity :: "gateway_config \<Rightarrow> entity_topic_id" where
  "gateway_entity g = child_device (sanitize_id (gc_id g))"

definition gateway_fragments :: "string \<Rightarrow> gateway_config \<Rightarrow> (string \<times> json) list" where
  "gateway_fragments version g =
     [(''c8y_IsDevice'', JObj []),
      (''c8y_SupportedOperations'', JArr (map JStr (gc_supported_operations g))),
      (''c8y_Firmware'',
         json_object [(''name'', JStr ''c8y-opcua-gateway-rs''), (''version'', JStr version)])]"

text \<open>The package version is the argument \<open>version\<close>.\<close>

definition register_gateway :: "string \<Rightarrow> gateway_config \<Rightarrow> mqtt \<Rightarrow> mqtt" where
  "register_gateway version g m =
     (case register_child_device (gateway_entity g) main_device (gc_name g) gateway_mo_type
             (Some (gateway_external_id g)) m of
        (Inl _, m) \<Rightarrow> m
      | (Inr _, m) \<Rightarrow>
          fold (\<lambda>(fragment, payload) m. snd (publish_twin (gateway_entity g) fragment payload m))
            (gateway_fragments version g) m)"

end
