(* ===== verification/Server_Run.thy ===== *)
theory Server_Run
  imports Server_Task Gateway_Device
begin

text \<open>
  The life of a server task: \<open>run\<close> of \<open>crates/gateway/src/server_task.rs\<close> as a state machine. A
  phase is a point where the task waits, an event is what one of its \<open>select!\<close>s sees, and
  \<open>task_next\<close> is everything up to the next such point. Seconds are natural numbers.
\<close>

definition parent_entity :: "config \<Rightarrow> entity_topic_id" where
  "parent_entity c =
     (if gc_enabled (cf_gateway c) then gateway_entity (cf_gateway c) else main_device)"

definition server_entity_type :: "config \<Rightarrow> string" where
  "server_entity_type c =
     (if gc_enabled (cf_gateway c) then opcua_server_mo_type else opcua_server_entity_type)"

definition device_entity_type :: "config \<Rightarrow> string" where
  "device_entity_type c =
     (if gc_enabled (cf_gateway c) then opcua_device_mo_type else opcua_device_entity_type)"

section \<open>States and events\<close>

datatype phase = Connecting | ConnectBackoff | Live | ReconnectBackoff | Ended

record task =
  tk_phase :: phase
  tk_backoff :: nat
  tk_registered :: "entity_topic_id list"
  tk_readers :: nat
  tk_opened :: nat
  tk_closed :: nat
  tk_mqtt :: mqtt

text \<open>
  \<open>Connected\<close> carries what resolving yields and whether a subscription loop was started;
  \<open>ReaderExited\<close> whether the task was being stopped when it was seen.
\<close>

datatype task_event =
    StopSeen
  | RemoveSeen
  | Connected "conn_error + resolved_mapping list" bool
  | ConnectFailed conn_error
  | Slept
  | TypesChanged
  | TypesClosed
  | ReaderExited bool

definition task_init :: "config \<Rightarrow> server_config \<Rightarrow> mqtt \<Rightarrow> task" where
  "task_init c server m =
     \<lparr>tk_phase = Connecting, tk_backoff = 1, tk_registered = [], tk_readers = 0, tk_opened = 0,
      tk_closed = 0,
      tk_mqtt = snd (register_child_device (child_device (server_topic_id server))
        (parent_entity c) (sc_name server) (server_entity_type c) (sc_external_id server) m)\<rparr>"

text \<open>\<open>deregister\<close> reports and leaves the registrations in place.\<close>

definition deregister :: "task \<Rightarrow> task" where
  "deregister t = t"

definition apply_device ::
    "config \<Rightarrow> server_config \<Rightarrow> applied_device_type \<Rightarrow> task \<Rightarrow> task" where
  "apply_device c server d t =
     (let registered = (if ad_entity d \<in> set (tk_registered t) then tk_registered t
                        else tk_registered t @ [ad_entity d]);
          m = snd (register_child_device (ad_entity d) (child_device (server_topic_id server))
                (ad_name d) (device_entity_type c) None (tk_mqtt t));
          m = publish_units (ad_entity d) (ad_mapping d) m in
      t\<lparr>tk_registered := registered, tk_mqtt := m\<rparr>)"

definition start_session ::
    "config \<Rightarrow> server_config \<Rightarrow> conn_error + resolved_mapping list \<Rightarrow> bool \<Rightarrow> task \<Rightarrow> task" where
  "start_session c server resolved subscription t =
     (let t = t\<lparr>tk_phase := Live, tk_backoff := 1, tk_opened := tk_opened t + 1\<rparr> in
      case resolved of
        Inl _ \<Rightarrow> t\<lparr>tk_readers := 0\<rparr>
      | Inr mappings \<Rightarrow>
          (let applied = map (applied_new server) mappings;
               t = fold (apply_device c server) applied t in
           t\<lparr>tk_readers := (if subscription then 1 else 0) +
               length (start_read_loops (sc_id server) applied (tk_mqtt t))\<rparr>))"

text \<open>\<open>generation.cancel()\<close>, \<open>readers.shutdown()\<close> and \<open>connection.disconnect()\<close>.\<close>

definition end_session :: "task \<Rightarrow> task" where
  "end_session t = t\<lparr>tk_readers := 0, tk_closed := tk_closed t + 1\<rparr>"

definition double_backoff :: "config \<Rightarrow> task \<Rightarrow> task" where
  "double_backoff c t = t\<lparr>tk_backoff := min (tk_backoff t * 2) (max_backoff c)\<rparr>"

definition end_task :: "task \<Rightarrow> task" where
  "end_task t = t\<lparr>tk_phase := Ended\<rparr>"

section \<open>Steps\<close>

fun task_next :: "config \<Rightarrow> server_config \<Rightarrow> task_event \<Rightarrow> task \<Rightarrow> task option" where
  "task_next c server ev t =
     (case tk_phase t of
        Connecting \<Rightarrow>
          (case ev of
             StopSeen \<Rightarrow> Some (end_task t)
           | RemoveSeen \<Rightarrow> Some (end_task (deregister t))
           | Connected resolved subscription \<Rightarrow>
               Some (start_session c server resolved subscription t)
           | ConnectFailed _ \<Rightarrow> Some (t\<lparr>tk_phase := ConnectBackoff\<rparr>)
           | _ \<Rightarrow> None)
      | ConnectBackoff \<Rightarrow>
          (case ev of
             StopSeen \<Rightarrow> Some (end_task t)
           | RemoveSeen \<Rightarrow> Some (end_task (deregister t))
           | Slept \<Rightarrow> Some ((double_backoff c t)\<lparr>tk_phase := Connecting\<rparr>)
           | _ \<Rightarrow> None)
      | Live \<Rightarrow>
          (case ev of
             StopSeen \<Rightarrow> Some (end_task (end_session t))
           | RemoveSeen \<Rightarrow> Some (end_task (deregister (end_session t)))
           | TypesChanged \<Rightarrow> Some ((end_session t)\<lparr>tk_phase := Connecting\<rparr>)
           | TypesClosed \<Rightarrow> Some (end_task (end_session t))
           | ReaderExited stopping \<Rightarrow>
               (if tk_readers t = 0 then None
                else Some ((end_session t)
                  \<lparr>tk_phase := (if stopping then Connecting else ReconnectBackoff)\<rparr>))
           | _ \<Rightarrow> None)
      | ReconnectBackoff \<Rightarrow>
          (case ev of
             StopSeen \<Rightarrow> Some (end_task t)
           | RemoveSeen \<Rightarrow> Some (end_task (deregister t))
           | Slept \<Rightarrow> Some ((double_backoff c t)\<lparr>tk_phase := Connecting\<rparr>)
           | _ \<Rightarrow> None)
      | Ended \<Rightarrow> None)"

declare task_next.simps [simp del]

inductive task_reaches :: "config \<Rightarrow> server_config \<Rightarrow> mqtt \<Rightarrow> task \<Rightarrow> bool"
  for c server m where
  task_start: "task_reaches c server m (task_init c server m)"
| task_step:
    "task_reaches c server m t \<Longrightarrow> task_next c server ev t = Some t' \<Longrightarrow>
     task_reaches c server m t'"

inductive_cases task_reaches_cases: "task_reaches c server m t"

section \<open>Sessions\<close>

lemma apply_device_fields [simp]:
  "tk_phase (apply_device c server d t) = tk_phase t"
  "tk_backoff (apply_device c server d t) = tk_backoff t"
  "tk_opened (apply_device c server d t) = tk_opened t"
  "tk_closed (apply_device c server d t) = tk_closed t"
  by (simp_all add: apply_device_def Let_def)

lemma apply_devices_fields [simp]:
  "tk_phase (fold (apply_device c server) ds t) = tk_phase t"
  "tk_backoff (fold (apply_device c server) ds t) = tk_backoff t"
  "tk_opened (fold (apply_device c server) ds t) = tk_opened t"
  "tk_closed (fold (apply_device c server) ds t) = tk_closed t"
  by (induction ds arbitrary: t) simp_all

lemma start_session_fields [simp]:
  "tk_phase (start_session c server r b t) = Live"
  "tk_backoff (start_session c server r b t) = 1"
  "tk_opened (start_session c server r b t) = tk_opened t + 1"
  "tk_closed (start_session c server r b t) = tk_closed t"
  by (auto simp: start_session_def Let_def split: sum.splits)

definition task_ok :: "config \<Rightarrow> task \<Rightarrow> bool" where
  "task_ok c t \<longleftrightarrow>
     tk_opened t = tk_closed t + (if tk_phase t = Live then 1 else 0) \<and>
     (tk_phase t = Live \<or> tk_readers t = 0) \<and>
     tk_backoff t \<le> max 1 (max_backoff c) \<and>
     (max_backoff c = 0 \<or> 1 \<le> tk_backoff t)"

lemma task_init_ok: "task_ok c (task_init c server m)"
  by (auto simp: task_ok_def task_init_def)

lemma task_next_ok [step_rules]:
  assumes "task_ok c t" "task_next c server ev t = Some t'"
  shows "task_ok c t'"
proof (cases "tk_phase t")
  case Connecting
  with assms show ?thesis
    by (cases ev) (auto simp: task_next.simps task_ok_def end_task_def deregister_def)
next
  case ConnectBackoff
  with assms show ?thesis
    by (cases ev) (auto simp: task_next.simps task_ok_def end_task_def deregister_def
        double_backoff_def)
next
  case Live
  with assms show ?thesis
    by (cases ev) (auto simp: task_next.simps task_ok_def end_task_def deregister_def
        end_session_def split: if_splits)
next
  case ReconnectBackoff
  with assms show ?thesis
    by (cases ev) (auto simp: task_next.simps task_ok_def end_task_def deregister_def
        double_backoff_def)
next
  case Ended
  with assms show ?thesis by (simp add: task_next.simps)
qed

lemma task_reaches_ok: "task_reaches c server m t \<Longrightarrow> task_ok c t"
  by (induction rule: task_reaches.induct) (auto intro: task_init_ok task_next_ok)

text \<open>
  A server task never holds two sessions: a session is open exactly while the task is live,
  every one is closed before the next is opened, readers run on an open session only, and the
  delay between attempts stays within the configured bound.
\<close>

theorem one_session_at_a_time:
  assumes "task_reaches c server m t"
  shows "tk_opened t = tk_closed t + (if tk_phase t = Live then 1 else 0) \<and>
    (tk_phase t = Live \<or> tk_readers t = 0) \<and>
    tk_backoff t \<le> max 1 (max_backoff c) \<and> (max_backoff c = 0 \<or> 1 \<le> tk_backoff t)"
  using task_reaches_ok [OF assms] by (simp add: task_ok_def)

lemma demo_task_live:
  "task_reaches demo_config demo_server demo_mqtt
     (start_session demo_config demo_server (Inr [demo_mapping]) False
       (task_init demo_config demo_server demo_mqtt))"
  by (rule task_step [OF task_start, where ev = "Connected (Inr [demo_mapping]) False"])
    (simp add: task_next.simps task_init_def)

lemma one_session_at_a_time_witness:
  "tk_opened (start_session demo_config demo_server (Inr [demo_mapping]) False
     (task_init demo_config demo_server demo_mqtt)) = 1"
  using one_session_at_a_time [OF demo_task_live] by (simp add: task_init_def)



section \<open>Registrations\<close>

text \<open>What has been sent since \<open>m\<close> is retained and has a payload.\<close>

definition only_retained :: "mqtt \<Rightarrow> mqtt \<Rightarrow> bool" where
  "only_retained m m' \<longleftrightarrow>
     (\<exists>xs. mq_sent m' = mq_sent m @ xs \<and>
        (\<forall>x \<in> set xs. ms_retain x \<and> (\<exists>j. ms_body x = JsonBody j)))"

lemma only_retained_refl: "only_retained m m"
  by (simp add: only_retained_def)

lemma only_retained_publish:
  "only_retained m m' \<Longrightarrow> only_retained m (snd (publish_retained topic payload m'))"
  by (auto simp: only_retained_def publish_retained_def publish_def client_publish_def Let_def)

lemma only_retained_register:
  "only_retained m m' \<Longrightarrow> only_retained m (snd (register_child_device e p n ty x m'))"
  by (simp add: register_child_device_def only_retained_publish)

lemma only_retained_units:
  assumes "only_retained m m'"
  shows "only_retained m (publish_units entity mapping m')"
proof -
  have "only_retained m m' \<Longrightarrow>
      only_retained m (fold (\<lambda>(ty, series) m.
         case measurement_meta series of
           None \<Rightarrow> m
         | Some meta \<Rightarrow> snd (publish_measurement_meta entity ty meta m)) us m')" for us m'
  proof (induction us arbitrary: m')
    case Nil
    then show ?case by simp
  next
    case (Cons u us)
    have "only_retained m (case measurement_meta (snd u) of
        None \<Rightarrow> m' | Some meta \<Rightarrow> snd (publish_measurement_meta entity (fst u) meta m'))"
      using Cons.prems
      by (simp add: publish_measurement_meta_def only_retained_publish split: option.splits)
    from Cons.IH [OF this] show ?case by (simp add: case_prod_beta)
  qed
  with assms show ?thesis by (simp add: publish_units_def)
qed

lemma only_retained_devices:
  "only_retained m (tk_mqtt t) \<Longrightarrow> only_retained m (tk_mqtt (fold (apply_device c server) ds t))"
proof (induction ds arbitrary: t)
  case (Cons d ds)
  have "only_retained m (tk_mqtt (apply_device c server d t))"
    using Cons.prems
    by (simp add: apply_device_def Let_def only_retained_units only_retained_register)
  from Cons.IH [OF this] show ?case by simp
qed simp

lemma task_next_retained [step_rules]:
  assumes "only_retained m (tk_mqtt t)" "task_next c server ev t = Some t'"
  shows "only_retained m (tk_mqtt t')"
proof -
  have "only_retained m (tk_mqtt (start_session c server r b t))" for r b
    using assms(1) by (auto simp: start_session_def Let_def intro!: only_retained_devices split: sum.splits)
  with assms show ?thesis
    by (auto simp: task_next.simps end_task_def deregister_def end_session_def double_backoff_def
        split: phase.splits task_event.splits if_splits)
qed

text \<open>
  A task never clears a registration, not even when its server is removed: all it sends itself
  are retained messages with a payload, from its start to its end.
\<close>

theorem registrations_left_in_place:
  assumes "task_reaches c server m t"
  shows "only_retained m (tk_mqtt t)"
  using assms
proof (induction rule: task_reaches.induct)
  case task_start
  show ?case by (simp add: task_init_def only_retained_register only_retained_refl)
next
  case (task_step t ev t')
  then show ?case by (blast intro: task_next_retained)
qed

lemma registrations_left_in_place_witness:
  "only_retained demo_mqtt (tk_mqtt (start_session demo_config demo_server (Inr [demo_mapping]) False
     (task_init demo_config demo_server demo_mqtt)))"
  by (rule registrations_left_in_place [OF demo_task_live])

text \<open>
  The delay is reset by every successful connect, so a session whose readers keep failing is opened
  again after one second each time.
\<close>

lemma failing_readers_do_not_back_off:
  "tk_backoff (start_session c server r b t) = 1 \<and>
   (tk_readers (start_session c server r b t) = 0 \<or>
    map_option tk_backoff (task_next c server (ReaderExited False) (start_session c server r b t)) =
      Some 1)"
  by (auto simp: task_next.simps end_session_def)

section \<open>Reconnecting\<close>

fun run_events_of :: "config \<Rightarrow> server_config \<Rightarrow> task_event list \<Rightarrow> task \<Rightarrow> task option" where
  "run_events_of c server [] t = Some t"
| "run_events_of c server (ev # evs) t =
     (case task_next c server ev t of None \<Rightarrow> None | Some t' \<Rightarrow> run_events_of c server evs t')"

text \<open>Attempts that fail, each followed by its delay, and the delays they wait for.\<close>

fun failed_attempts :: "conn_error list \<Rightarrow> task_event list" where
  "failed_attempts [] = []"
| "failed_attempts (e # es) = ConnectFailed e # Slept # failed_attempts es"

fun delays :: "config \<Rightarrow> server_config \<Rightarrow> task_event list \<Rightarrow> task \<Rightarrow> nat list" where
  "delays c server [] t = []"
| "delays c server (ev # evs) t =
     (if ev = Slept then [tk_backoff t] else []) @
     (case task_next c server ev t of None \<Rightarrow> [] | Some t' \<Rightarrow> delays c server evs t')"

lemma failed_attempt:
  assumes "tk_phase t = Connecting"
  shows "task_next c server (ConnectFailed e) t = Some (t\<lparr>tk_phase := ConnectBackoff\<rparr>)"
    "task_next c server Slept (t\<lparr>tk_phase := ConnectBackoff\<rparr>) =
       Some (t\<lparr>tk_backoff := min (tk_backoff t * 2) (max_backoff c)\<rparr>)"
  using assms by (simp_all add: task_next.simps double_backoff_def)

lemma min_doubling: "min (min (b * 2) m * 2 ^ n) m = min (b * 2 ^ Suc n) (m :: nat)"
proof (cases "b * 2 \<le> m")
  case True
  then show ?thesis by (simp add: min_absorb1 mult.assoc)
next
  case False
  then have "m < b * 2" by simp
  also have "b * 2 \<le> b * 2 * 2 ^ n" by simp
  finally have "m < b * 2 ^ Suc n" by (simp add: mult.assoc)
  with False show ?thesis by (simp add: min_absorb2)
qed

lemma failed_attempts_run:
  assumes "tk_phase t = Connecting" "tk_backoff t \<le> max_backoff c"
  shows "run_events_of c server (failed_attempts es) t =
      Some (t\<lparr>tk_backoff := min (tk_backoff t * 2 ^ length es) (max_backoff c)\<rparr>) \<and>
    delays c server (failed_attempts es) t =
      map (\<lambda>i. min (tk_backoff t * 2 ^ i) (max_backoff c)) [0..<length es]"
  using assms
proof (induction es arbitrary: t)
  case Nil
  then show ?case by (simp add: min_absorb1)
next
  case (Cons e es)
  let ?t = "t\<lparr>tk_backoff := min (tk_backoff t * 2) (max_backoff c)\<rparr>"
  have "map (\<lambda>i. min (tk_backoff t * 2 ^ i) (max_backoff c)) [0..<Suc (length es)] =
      tk_backoff t # map (\<lambda>i. min (tk_backoff t * 2 ^ Suc i) (max_backoff c)) [0..<length es]"
    using Cons.prems(2) by (simp add: map_upt_Suc min_absorb1 del: upt_Suc)
  with Cons.IH [of ?t] Cons.prems failed_attempt [OF Cons.prems(1)]
  show ?case by (simp add: min_doubling del: upt_Suc power_Suc)
qed

lemma comes_to_connect:
  assumes "tk_phase t \<noteq> Ended"
  shows "\<exists>evs t'. set evs \<subseteq> {Slept, TypesChanged} \<and> run_events_of c server evs t = Some t' \<and>
    tk_phase t' = Connecting"
proof (cases "tk_phase t")
  case Connecting
  then show ?thesis by (intro exI [of _ "[]"]) simp
next
  case Live
  then show ?thesis by (intro exI [of _ "[TypesChanged]"]) (simp add: task_next.simps)
next
  case Ended
  with assms show ?thesis by simp
qed (rule exI [of _ "[Slept]"], simp add: task_next.simps)+

text \<open>
  C40. A task never gives up on its server: wherever it is, unless it has ended, it comes to connect
  without being told to stop; while attempts fail, whatever the errors, the delays between them are
  those of its backoff doubled each time up to the configured bound; and however many have failed,
  the next one that succeeds makes the task live, with its delay reset to one second.
\<close>

theorem keeps_trying:
  assumes "task_reaches c server m t" "tk_phase t \<noteq> Ended" "0 < max_backoff c"
  shows "\<exists>evs t'. set evs \<subseteq> {Slept, TypesChanged} \<and> run_events_of c server evs t = Some t' \<and>
    tk_phase t' = Connecting \<and>
    (\<forall>es. delays c server (failed_attempts es) t' =
        map (\<lambda>i. min (tk_backoff t' * 2 ^ i) (max_backoff c)) [0..<length es] \<and>
      (\<exists>t''. run_events_of c server (failed_attempts es) t' = Some t'' \<and>
         (\<forall>r b. \<exists>live. task_next c server (Connected r b) t'' = Some live \<and>
            tk_phase live = Live \<and> tk_backoff live = 1)))"
proof -
  obtain evs t' where t': "set evs \<subseteq> {Slept, TypesChanged}"
    "run_events_of c server evs t = Some t'" "tk_phase t' = Connecting"
    using comes_to_connect [OF assms(2)] by blast
  have reach: "task_reaches c server m u \<Longrightarrow> run_events_of c server es u = Some u' \<Longrightarrow>
      task_reaches c server m u'" for es u u'
    by (induction es arbitrary: u) (auto split: option.splits intro: task_step)
  have "tk_backoff t' \<le> max_backoff c"
    using task_reaches_ok [OF reach [OF assms(1) t'(2)]] assms(3) by (simp add: task_ok_def)
  note run = failed_attempts_run [OF t'(3) this]
  have "\<exists>live. task_next c server (Connected r b) (t'\<lparr>tk_backoff := n\<rparr>) = Some live \<and>
      tk_phase live = Live \<and> tk_backoff live = 1" for n r b
    using t'(3) by (simp add: task_next.simps)
  with run t' show ?thesis by blast
qed

lemma keeps_trying_witness:
  "\<exists>t. tk_phase t = Connecting \<and>
     delays demo_config demo_server (failed_attempts [ConnectTimeout 30]) t =
       [min (tk_backoff t) 60]"
proof -
  have m: "max_backoff demo_config = 60" by code_simp
  have "tk_phase (task_init demo_config demo_server demo_mqtt) \<noteq> Ended" by (simp add: task_init_def)
  from keeps_trying [OF task_start this] m obtain t where "tk_phase t = Connecting"
    and d: "\<And>es. delays demo_config demo_server (failed_attempts es) t =
      map (\<lambda>i. min (tk_backoff t * 2 ^ i) 60) [0..<length es]"
    by fastforce
  with d [of "[ConnectTimeout 30]"] show ?thesis by auto
qed

lemma first_delays:
  "delays demo_config demo_server (failed_attempts (replicate 8 e))
     (task_init demo_config demo_server demo_mqtt) = [1, 2, 4, 8, 16, 32, 60, 60]"
proof -
  have "max_backoff demo_config = 60" by code_simp
  with failed_attempts_run [of "task_init demo_config demo_server demo_mqtt" demo_config demo_server
      "replicate 8 e"]
  show ?thesis by (simp add: task_init_def upt_rec)
qed

end
