(* ===== verification/Gateway_System.thy ===== *)
theory Gateway_System
  imports Supervisor Server_Run Cloud_Servers
begin

text \<open>
  The supervisor and the server tasks together: \<open>run\<close> and \<open>reconcile\<close> of
  \<open>crates/gateway/src/supervisor.rs\<close> interleaved with every task's \<open>run\<close>. The supervisor awaits
  each task it stops, the tasks go on meanwhile, and a task sees its two tokens only once they are
  cancelled. \<open>sy_joined\<close> is a history of the tasks that were awaited.
\<close>

section \<open>State\<close>

text \<open>
  \<open>Running\<close> with its task; \<open>stop\<close> is a child of the process-wide token \<open>sy_cancelled\<close>.
\<close>

record running_task =
  rt_server :: server_config
  rt_known :: "string list"
  rt_stop :: bool
  rt_remove :: bool
  rt_task :: task

datatype sup_phase = Reconciling | Waiting | ProviderGone | Draining | SupOver

record system =
  sy_phase :: sup_phase
  sy_running :: "(string, running_task) hmap"
  sy_joining :: "(string \<times> running_task) option"
  sy_actions :: "sup_action list"
  sy_cancelled :: bool
  sy_cloud :: "server_config list"
  sy_joined :: "(string \<times> running_task) list"

datatype sys_event =
    SupervisorRuns
  | CloudChanged "server_config list"
  | CloudClosed
  | ProcessCancelled
  | TaskRuns string task_event

definition spawn_task :: "config \<Rightarrow> mqtt \<Rightarrow> server_config \<Rightarrow> string list \<Rightarrow> running_task" where
  "spawn_task c m server known =
     \<lparr>rt_server = server, rt_known = known, rt_stop = False, rt_remove = False,
      rt_task = task_init c server m\<rparr>"

definition servers_of :: "(string, running_task) hmap \<Rightarrow> running" where
  "servers_of ts = map (\<lambda>(i, t). (i, rt_server t)) ts"

definition begin_reconcile :: "config \<Rightarrow> server_config list \<Rightarrow> system \<Rightarrow> system" where
  "begin_reconcile c cloud s =
     s\<lparr>sy_phase := Reconciling, sy_cloud := cloud,
       sy_actions := snd (supervise c cloud (servers_of (sy_running s)))\<rparr>"

definition sys_init :: "config \<Rightarrow> server_config list \<Rightarrow> system" where
  "sys_init c cloud =
     begin_reconcile c cloud
       \<lparr>sy_phase = Waiting, sy_running = [], sy_joining = None, sy_actions = [],
        sy_cancelled = False, sy_cloud = [], sy_joined = []\<rparr>"

section \<open>Steps\<close>

definition await_task :: "(running_task \<Rightarrow> running_task) \<Rightarrow> string \<Rightarrow> system \<Rightarrow> system" where
  "await_task cancel_token i s =
     (case hm_get (sy_running s) i of
        None \<Rightarrow> s
      | Some t \<Rightarrow>
          s\<lparr>sy_running := hm_remove i (sy_running s), sy_joining := Some (i, cancel_token t)\<rparr>)"

fun sup_act :: "config \<Rightarrow> mqtt \<Rightarrow> sup_action \<Rightarrow> system \<Rightarrow> system" where
  "sup_act c m (Remove i) s = await_task (\<lambda>t. t\<lparr>rt_remove := True\<rparr>) i s"
| "sup_act c m (Stop i) s = await_task (\<lambda>t. t\<lparr>rt_stop := True\<rparr>) i s"
| "sup_act c m (Start server known) s =
     s\<lparr>sy_running := hm_insert (sc_id server) (spawn_task c m server known) (sy_running s)\<rparr>"

text \<open>What the supervisor does next; \<open>None\<close> where it waits.\<close>

definition sup_next :: "config \<Rightarrow> mqtt \<Rightarrow> system \<Rightarrow> system option" where
  "sup_next c m s =
     (case sy_joining s of
        Some (i, t) \<Rightarrow>
          (if tk_phase (rt_task t) = Ended
           then Some (s\<lparr>sy_joining := None, sy_joined := sy_joined s @ [(i, t)]\<rparr>) else None)
      | None \<Rightarrow>
          (case sy_phase s of
             Reconciling \<Rightarrow>
               (case sy_actions s of
                  [] \<Rightarrow> Some (s\<lparr>sy_phase := Waiting\<rparr>)
                | a # as \<Rightarrow> Some (sup_act c m a (s\<lparr>sy_actions := as\<rparr>)))
           | Waiting \<Rightarrow> (if sy_cancelled s then Some (s\<lparr>sy_phase := Draining\<rparr>) else None)
           | ProviderGone \<Rightarrow> (if sy_cancelled s then Some (s\<lparr>sy_phase := Draining\<rparr>) else None)
           | Draining \<Rightarrow>
               (case sy_running s of
                  [] \<Rightarrow> Some (s\<lparr>sy_phase := SupOver\<rparr>)
                | it # ts \<Rightarrow> Some (s\<lparr>sy_running := ts, sy_joining := Some it\<rparr>))
           | SupOver \<Rightarrow> None))"

definition permitted :: "bool \<Rightarrow> running_task \<Rightarrow> task_event \<Rightarrow> bool" where
  "permitted cancelled t ev \<longleftrightarrow>
     (case ev of
        StopSeen \<Rightarrow> rt_stop t \<or> cancelled
      | RemoveSeen \<Rightarrow> rt_remove t
      | ReaderExited stopping \<Rightarrow> stopping = (rt_stop t \<or> cancelled)
      | _ \<Rightarrow> True)"

definition run_task :: "config \<Rightarrow> bool \<Rightarrow> task_event \<Rightarrow> running_task \<Rightarrow> running_task option" where
  "run_task c cancelled ev t =
     (if permitted cancelled t ev
      then map_option (\<lambda>k. t\<lparr>rt_task := k\<rparr>) (task_next c (rt_server t) ev (rt_task t))
      else None)"

definition task_turn :: "config \<Rightarrow> string \<Rightarrow> task_event \<Rightarrow> system \<Rightarrow> system option" where
  "task_turn c i ev s =
     (case hm_get (sy_running s) i of
        Some t \<Rightarrow>
          map_option (\<lambda>t. s\<lparr>sy_running := hm_insert i t (sy_running s)\<rparr>)
            (run_task c (sy_cancelled s) ev t)
      | None \<Rightarrow>
          (case sy_joining s of
             Some (j, t) \<Rightarrow>
               (if j = i
                then map_option (\<lambda>t. s\<lparr>sy_joining := Some (i, t)\<rparr>)
                       (run_task c (sy_cancelled s) ev t)
                else None)
           | None \<Rightarrow> None))"

fun sys_next :: "config \<Rightarrow> mqtt \<Rightarrow> sys_event \<Rightarrow> system \<Rightarrow> system option" where
  "sys_next c m SupervisorRuns s = sup_next c m s"
| "sys_next c m (CloudChanged cloud) s =
     (if sy_phase s = Waiting then Some (begin_reconcile c cloud s) else None)"
| "sys_next c m CloudClosed s =
     (if sy_phase s = Waiting then Some (s\<lparr>sy_phase := ProviderGone\<rparr>) else None)"
| "sys_next c m ProcessCancelled s = Some (s\<lparr>sy_cancelled := True\<rparr>)"
| "sys_next c m (TaskRuns i ev) s = task_turn c i ev s"

inductive sys_reaches ::
    "config \<Rightarrow> mqtt \<Rightarrow> server_config list \<Rightarrow> system \<Rightarrow> bool" for c m cloud where
  sys_start: "sys_reaches c m cloud (sys_init c cloud)"
| sys_step:
    "sys_reaches c m cloud s \<Longrightarrow> sys_next c m ev s = Some s' \<Longrightarrow> sys_reaches c m cloud s'"

inductive_cases sys_reaches_cases: "sys_reaches c m cloud s"

section \<open>Every task is known once\<close>

definition entry_ok :: "config \<Rightarrow> string \<times> running_task \<Rightarrow> bool" where
  "entry_ok c it \<longleftrightarrow> sc_id (rt_server (snd it)) = fst it \<and> task_ok c (rt_task (snd it))"

definition joining_list :: "system \<Rightarrow> (string \<times> running_task) list" where
  "joining_list s = (case sy_joining s of None \<Rightarrow> [] | Some it \<Rightarrow> [it])"

lemma joining_list_simps [simp]:
  "sy_joining s = None \<Longrightarrow> joining_list s = []"
  "sy_joining s = Some it \<Longrightarrow> joining_list s = [it]"
  by (simp_all add: joining_list_def)

definition tasks_ok :: "config \<Rightarrow> system \<Rightarrow> bool" where
  "tasks_ok c s \<longleftrightarrow>
     distinct (map fst (joining_list s @ sy_running s)) \<and>
     list_all (entry_ok c) (joining_list s @ sy_running s @ sy_joined s) \<and>
     list_all (\<lambda>it. tk_phase (rt_task (snd it)) = Ended) (sy_joined s)"

lemma run_task_ok:
  assumes "entry_ok c (i, t)" "run_task c b ev t = Some t'"
  shows "entry_ok c (i, t')"
  using assms task_next_ok
  by (auto simp: entry_ok_def run_task_def split: if_splits)

lemma tasks_ok_insert:
  assumes "tasks_ok c s" "entry_ok c (i, t)" "i \<notin> fst ` set (joining_list s)"
  shows "tasks_ok c (s\<lparr>sy_running := hm_insert i t (sy_running s)\<rparr>)"
proof -
  have "joining_list (s\<lparr>sy_running := x\<rparr>) = joining_list s" for x by (simp add: joining_list_def)
  moreover have "distinct (map fst (hm_insert i t (sy_running s)))"
    using assms(1) hm.inv_put [of "sy_running s" i t] by (simp add: tasks_ok_def hm_inv_def)
  ultimately show ?thesis
    using assms by (auto simp: tasks_ok_def list_all_iff hm_keys_insert dest!: hm_insert_entries)
qed

lemma tasks_ok_await:
  assumes "tasks_ok c s" "sy_joining s = None" "\<And>t. entry_ok c (i, t) \<Longrightarrow> entry_ok c (i, f t)"
  shows "tasks_ok c (await_task f i s)"
proof (cases "hm_get (sy_running s) i")
  case None
  with assms show ?thesis by (simp add: await_task_def)
next
  case (Some t)
  have "distinct (map fst (hm_remove i (sy_running s)))"
    using assms(1, 2) hm.inv_del [of "sy_running s" i] by (simp add: tasks_ok_def hm_inv_def)
  with Some assms show ?thesis
    by (auto simp: tasks_ok_def await_task_def joining_list_def list_all_iff
        dest!: hm_remove_entries hm_get_entries)
qed

lemma sup_act_ok:
  assumes "tasks_ok c s" "sy_joining s = None"
  shows "tasks_ok c (sup_act c m a s)"
proof (cases a)
  case (Start server known)
  have "entry_ok c (sc_id server, spawn_task c m server known)"
    by (simp add: entry_ok_def spawn_task_def task_init_ok)
  with Start assms show ?thesis by (simp add: tasks_ok_insert)
qed (use assms in \<open>auto simp: entry_ok_def intro!: tasks_ok_await\<close>)

lemma tasks_ok_fields [simp]:
  "tasks_ok c (s\<lparr>sy_phase := p\<rparr>) = tasks_ok c s"
  "tasks_ok c (s\<lparr>sy_actions := as\<rparr>) = tasks_ok c s"
  "tasks_ok c (s\<lparr>sy_cancelled := b\<rparr>) = tasks_ok c s"
  "tasks_ok c (begin_reconcile c' cloud s) = tasks_ok c s"
  by (simp_all add: tasks_ok_def joining_list_def begin_reconcile_def)

lemma sup_next_ok:
  assumes "tasks_ok c s" "sup_next c m s = Some s'"
  shows "tasks_ok c s'"
proof (cases "sy_joining s")
  case None
  show ?thesis
  proof (cases "sy_phase s")
    case Draining
    with None assms show ?thesis
      by (cases "sy_running s") (auto simp: sup_next_def, auto simp: tasks_ok_def)
  qed (use None assms sup_act_ok in
      \<open>auto simp: sup_next_def split: list.splits if_splits\<close>)
next
  case (Some it)
  with assms show ?thesis
    by (auto simp: sup_next_def tasks_ok_def joining_list_def split: if_splits prod.splits)
qed

lemma task_turn_ok:
  assumes "tasks_ok c s" "task_turn c i ev s = Some s'"
  shows "tasks_ok c s'"
proof (cases "hm_get (sy_running s) i")
  case None
  with assms run_task_ok show ?thesis
    by (auto simp: task_turn_def tasks_ok_def joining_list_def
        split: option.splits if_splits) (blast dest: fst_memI)
next
  case (Some t)
  with assms obtain t' where t': "run_task c (sy_cancelled s) ev t = Some t'"
    "s' = s\<lparr>sy_running := hm_insert i t' (sy_running s)\<rparr>"
    by (auto simp: task_turn_def)
  from Some have i: "(i, t) \<in> set (sy_running s)" by (rule hm_get_entries)
  with assms(1) have "entry_ok c (i, t)" by (simp add: tasks_ok_def list_all_iff)
  moreover have "i \<notin> fst ` set (joining_list s)"
    using assms(1) i by (auto simp: tasks_ok_def dest: fst_memI)
  ultimately show ?thesis
    using assms(1) t' run_task_ok tasks_ok_insert by blast
qed

lemma sys_next_ok [step_rules]:
  "tasks_ok c s \<Longrightarrow> sys_next c m ev s = Some s' \<Longrightarrow> tasks_ok c s'"
  by (cases ev) (auto intro: sup_next_ok task_turn_ok split: if_splits)

lemma sys_reaches_ok: "sys_reaches c m cloud s \<Longrightarrow> tasks_ok c s"
proof (induction rule: sys_reaches.induct)
  case sys_start
  show ?case by (simp add: sys_init_def) (simp add: tasks_ok_def joining_list_def)
qed (blast intro: sys_next_ok)

section \<open>Sessions across the gateway\<close>

text \<open>
  The sessions open on a server, over every task the gateway ever had: the ones it runs, the one
  it awaits and those it awaited before.
\<close>

definition session_count :: "string \<times> running_task \<Rightarrow> nat" where
  "session_count it = tk_opened (rt_task (snd it)) - tk_closed (rt_task (snd it))"

definition open_sessions :: "string \<Rightarrow> system \<Rightarrow> nat" where
  "open_sessions i s =
     sum_list (map session_count
       (filter (\<lambda>it. sc_id (rt_server (snd it)) = i)
          (joining_list s @ sy_running s @ sy_joined s)))"

lemma session_count_le: "entry_ok c it \<Longrightarrow> session_count it \<le> 1"
  by (simp add: entry_ok_def task_ok_def session_count_def)

lemma session_count_ended:
  "entry_ok c it \<Longrightarrow> tk_phase (rt_task (snd it)) = Ended \<Longrightarrow> session_count it = 0"
  by (simp add: entry_ok_def task_ok_def session_count_def)

lemma distinct_keys_count:
  assumes "distinct (map fst its)" "\<And>it. it \<in> set its \<Longrightarrow> f it \<le> (1::nat)"
  shows "sum_list (map f (filter (\<lambda>it. fst it = i) its)) \<le> 1"
  using assms
proof (induction its)
  case (Cons it its)
  show ?case
  proof (cases "fst it = i")
    case True
    with Cons.prems(1) have "filter (\<lambda>it. fst it = i) its = []"
      by (auto simp: filter_empty_conv image_iff)
    with True Cons.prems(2) show ?thesis by simp
  next
    case False
    with Cons show ?thesis by simp
  qed
qed simp

lemma tasks_ok_sessions:
  assumes "tasks_ok c s"
  shows "open_sessions i s \<le> 1"
proof -
  let ?live = "joining_list s @ sy_running s"
  have ok: "entry_ok c it" if "it \<in> set ?live \<union> set (sy_joined s)" for it
    using assms that by (auto simp: tasks_ok_def list_all_iff)
  have key: "filter (\<lambda>it. sc_id (rt_server (snd it)) = i) ?live = filter (\<lambda>it. fst it = i) ?live"
  proof (rule filter_cong [OF refl])
    fix it assume "it \<in> set ?live"
    with ok [of it] show "(sc_id (rt_server (snd it)) = i) = (fst it = i)"
      by (auto simp: entry_ok_def)
  qed
  have "sum_list (map session_count (filter (\<lambda>it. fst it = i) ?live)) \<le> 1"
  proof (rule distinct_keys_count)
    show "distinct (map fst ?live)" using assms by (simp add: tasks_ok_def)
    show "session_count it \<le> 1" if "it \<in> set ?live" for it
      using that ok [of it] session_count_le by fastforce
  qed
  moreover have "session_count it = 0" if "it \<in> set (sy_joined s)" for it
    using assms that ok [of it] session_count_ended [of c it] by (simp add: tasks_ok_def list_all_iff)
  then have "sum_list (map session_count
      (filter (\<lambda>it. sc_id (rt_server (snd it)) = i) (sy_joined s))) = 0"
    by simp
  moreover have "open_sessions i s =
      sum_list (map session_count (filter (\<lambda>it. sc_id (rt_server (snd it)) = i) ?live)) +
      sum_list (map session_count (filter (\<lambda>it. sc_id (rt_server (snd it)) = i) (sy_joined s)))"
    by (simp add: open_sessions_def)
  ultimately show ?thesis by (simp only: key)
qed


section \<open>The running servers are the desired ones\<close>

lemma servers_of_insert:
  "servers_of (hm_insert i t ts) = hm_insert i (rt_server t) (servers_of ts)"
  by (induction ts) (auto simp: servers_of_def hm_insert_def)

lemma servers_of_remove: "servers_of (hm_remove i ts) = hm_remove i (servers_of ts)"
  by (induction ts) (auto simp: servers_of_def hm_remove_def AList.delete_eq)

lemma servers_of_get: "hm_get (servers_of ts) i = map_option rt_server (hm_get ts i)"
  by (induction ts) (auto simp: servers_of_def)

lemma servers_of_inv: "hm_inv (servers_of ts) \<longleftrightarrow> distinct (map fst ts)"
  by (simp add: servers_of_def hm_inv_def comp_def case_prod_beta)

text \<open>
  While the supervisor has not been told to stop, what is left of its actions turns the servers that
  run into those it wants.
\<close>

definition on_course :: "config \<Rightarrow> system \<Rightarrow> bool" where
  "on_course c s \<longleftrightarrow>
     (sy_phase s \<noteq> Reconciling \<longrightarrow> sy_actions s = []) \<and>
     (sy_phase s \<in> {Reconciling, Waiting, ProviderGone} \<longrightarrow>
        (\<exists>before. hm_inv before \<and>
           fold perform (sy_actions s) (servers_of (sy_running s)) =
             fst (supervise c (sy_cloud s) before)))"

lemma on_course_fields [simp]:
  "on_course c (s\<lparr>sy_joining := j\<rparr>) = on_course c s"
  "on_course c (s\<lparr>sy_joined := js\<rparr>) = on_course c s"
  "on_course c (s\<lparr>sy_cancelled := b\<rparr>) = on_course c s"
  by (simp_all add: on_course_def)

lemma await_task_servers:
  "servers_of (sy_running (await_task f i s)) = hm_remove i (servers_of (sy_running s))"
  by (auto simp: await_task_def servers_of_remove servers_of_get hm_remove_absent
      split: option.splits)

lemma await_task_fields [simp]:
  "sy_phase (await_task f i s) = sy_phase s"
  "sy_actions (await_task f i s) = sy_actions s"
  "sy_cloud (await_task f i s) = sy_cloud s"
  "sy_cancelled (await_task f i s) = sy_cancelled s"
  by (simp_all add: await_task_def split: option.splits)

lemma sup_act_fields [simp]:
  "sy_phase (sup_act c m a s) = sy_phase s"
  "sy_actions (sup_act c m a s) = sy_actions s"
  "sy_cloud (sup_act c m a s) = sy_cloud s"
  "sy_cancelled (sup_act c m a s) = sy_cancelled s"
  by (cases a; simp)+

lemma sup_act_servers:
  "servers_of (sy_running (sup_act c m a s)) = perform a (servers_of (sy_running s))"
  by (cases a) (simp_all add: await_task_servers servers_of_insert spawn_task_def)

lemma task_turn_servers:
  "task_turn c i ev s = Some s' \<Longrightarrow>
     servers_of (sy_running s') = servers_of (sy_running s) \<and> sy_phase s' = sy_phase s \<and>
     sy_actions s' = sy_actions s \<and> sy_cloud s' = sy_cloud s \<and>
     sy_cancelled s' = sy_cancelled s"
  by (auto simp: task_turn_def run_task_def servers_of_insert servers_of_get
      split: option.splits if_splits intro!: hm_insert_same)

lemma begin_reconcile_on_course:
  "tasks_ok c s \<Longrightarrow> on_course c (begin_reconcile c cloud s)"
  using reconcile_performs [of "servers_of (sy_running s)" "merge_servers cloud (cf_servers c)"]
  by (auto simp: on_course_def begin_reconcile_def supervise_def servers_of_inv tasks_ok_def
      intro!: exI [of _ "servers_of (sy_running s)"])

lemma sup_next_on_course:
  assumes "on_course c s" "sup_next c m s = Some s'"
  shows "on_course c s'"
proof (cases "sy_joining s")
  case None
  show ?thesis
  proof (cases "sy_phase s")
    case Reconciling
    with None assms show ?thesis
      by (cases "sy_actions s") (auto simp: sup_next_def on_course_def sup_act_servers)
  qed (use None assms in \<open>auto simp: sup_next_def on_course_def split: list.splits if_splits\<close>)
next
  case (Some it)
  with assms show ?thesis by (auto simp: sup_next_def split: if_splits prod.splits)
qed

lemma sys_next_on_course [step_rules]:
  assumes "tasks_ok c s" "on_course c s" "sys_next c m ev s = Some s'"
  shows "on_course c s'"
proof (cases ev)
  case SupervisorRuns
  with assms show ?thesis by (simp add: sup_next_on_course)
next
  case (CloudChanged cloud)
  with assms show ?thesis by (auto simp: begin_reconcile_on_course split: if_splits)
next
  case (TaskRuns i tev)
  with assms(3) have "task_turn c i tev s = Some s'" by simp
  from task_turn_servers [OF this] assms(2) show ?thesis by (simp only: on_course_def)
next
  case CloudClosed
  with assms show ?thesis by (auto simp: on_course_def split: if_splits)
next
  case ProcessCancelled
  with assms show ?thesis by auto
qed

lemma sys_reaches_on_course: "sys_reaches c m cloud s \<Longrightarrow> on_course c s"
proof (induction rule: sys_reaches.induct)
  case sys_start
  show ?case
    by (simp add: sys_init_def) (rule begin_reconcile_on_course, simp add: tasks_ok_def joining_list_def)
next
  case (sys_step s ev s')
  then show ?case using sys_reaches_ok sys_next_on_course by blast
qed

lemma waiting_runs_desired:
  assumes "sys_reaches c m cloud s" "sy_phase s = Waiting" "distinct (map sc_id (sy_cloud s))"
  shows "map_option rt_server \<circ> hm_get (sy_running s) =
    map_of (map (\<lambda>x. (sc_id x, x)) (merge_servers (sy_cloud s) (cf_servers c)))"
proof -
  from sys_reaches_on_course [OF assms(1)] assms(2) obtain before where
    b: "hm_inv before" "servers_of (sy_running s) = fst (supervise c (sy_cloud s) before)"
    by (auto simp: on_course_def)
  have "hm_get (servers_of (sy_running s)) =
      map_of (map (\<lambda>x. (sc_id x, x)) (merge_servers (sy_cloud s) (cf_servers c)))"
    using reconcile_desired [OF b(1) merge_servers_distinct [OF assms(3)]]
    by (simp add: b(2) supervise_def)
  then show ?thesis by (simp add: fun_eq_iff servers_of_get)
qed

text \<open>
  C2. The supervisor implements its contract: whenever it waits, the servers that run, each with the
  settings it runs with, are exactly the desired ones: those last read from Cumulocity, overridden
  by those configured on the device. This holds however the tasks behaved meanwhile.
\<close>

theorem waiting_means_desired:
  assumes "sys_reaches c m cloud s" "sy_phase s = Waiting" "distinct (map sc_id (sy_cloud s))"
  shows "map_option rt_server \<circ> hm_get (sy_running s) =
    map_of (map (\<lambda>x. (sc_id x, x)) (merge_servers (sy_cloud s) (cf_servers c)))"
  using waiting_runs_desired [OF assms] .

section \<open>Shutdown\<close>

text \<open>
  Once the process is cancelled, every task can see its token and the supervisor can go on. Each of
  these events uses up some of \<open>shutdown_rank\<close>.
\<close>

fun run_system :: "config \<Rightarrow> mqtt \<Rightarrow> sys_event list \<Rightarrow> system \<Rightarrow> system option" where
  "run_system c m [] s = Some s"
| "run_system c m (ev # evs) s =
     (case sys_next c m ev s of None \<Rightarrow> None | Some s' \<Rightarrow> run_system c m evs s')"

fun shutdown_event :: "sys_event \<Rightarrow> bool" where
  "shutdown_event SupervisorRuns = True"
| "shutdown_event (TaskRuns i StopSeen) = True"
| "shutdown_event _ = False"

definition task_rank :: "running_task \<Rightarrow> nat" where
  "task_rank t = (if tk_phase (rt_task t) = Ended then 1 else 2)"

fun phase_rank :: "sup_phase \<Rightarrow> nat" where
  "phase_rank Reconciling = 3"
| "phase_rank Waiting = 2"
| "phase_rank ProviderGone = 2"
| "phase_rank Draining = 1"
| "phase_rank SupOver = 0"

definition running_rank :: "(string, running_task) hmap \<Rightarrow> nat" where
  "running_rank ts = sum_list (map (\<lambda>it. 3 + task_rank (snd it)) ts)"

definition shutdown_rank :: "system \<Rightarrow> nat" where
  "shutdown_rank s =
     6 * length (sy_actions s) + running_rank (sy_running s) +
     (case sy_joining s of None \<Rightarrow> 0 | Some it \<Rightarrow> task_rank (snd it)) + phase_rank (sy_phase s)"

lemma running_rank_simps [simp]:
  "running_rank [] = 0"
  "running_rank (it # ts) = 3 + task_rank (snd it) + running_rank ts"
  by (simp_all add: running_rank_def)

lemma running_rank_remove: "running_rank (hm_remove i ts) \<le> running_rank ts"
  by (induction ts) (auto simp: hm_remove_def AList.delete_eq)

lemma running_rank_insert: "running_rank (hm_insert i t ts) \<le> running_rank ts + 3 + task_rank t"
  by (induction ts) (auto simp: hm_insert_def)

lemma running_rank_update:
  "hm_get ts i = Some t \<Longrightarrow> task_rank t' < task_rank t \<Longrightarrow>
     running_rank (hm_insert i t' ts) < running_rank ts"
  by (induction ts) (auto simp: hm_insert_def split: if_splits)

lemma task_rank_le [simp]: "0 < task_rank t" "task_rank t \<le> 2"
  by (simp_all add: task_rank_def)

lemma await_task_rank:
  assumes "sy_joining s = None"
  shows "shutdown_rank (await_task f i s) \<le> shutdown_rank s + 2"
proof (cases "hm_get (sy_running s) i")
  case (Some t)
  with assms running_rank_remove [of i "sy_running s"] task_rank_le(2) [of "f t"]
  show ?thesis by (simp add: await_task_def shutdown_rank_def del: task_rank_le)
qed (simp add: await_task_def)

lemma sup_act_rank:
  assumes "sy_joining s = None"
  shows "shutdown_rank (sup_act c m a s) < shutdown_rank s + 6"
proof (cases a)
  case (Start server known)
  with assms running_rank_insert [of "sc_id server" "spawn_task c m server known" "sy_running s"]
    task_rank_le(2) [of "spawn_task c m server known"]
  show ?thesis by (simp add: shutdown_rank_def del: task_rank_le)
next
  case (Remove i)
  with await_task_rank [OF assms, of "\<lambda>t. t\<lparr>rt_remove := True\<rparr>" i] show ?thesis by simp
next
  case (Stop i)
  with await_task_rank [OF assms, of "\<lambda>t. t\<lparr>rt_stop := True\<rparr>" i] show ?thesis by simp
qed

lemma sup_next_rank:
  assumes "sup_next c m s = Some s'"
  shows "shutdown_rank s' < shutdown_rank s"
proof (cases "sy_joining s")
  case None
  show ?thesis
  proof (cases "sy_phase s")
    case Reconciling
    show ?thesis
    proof (cases "sy_actions s")
      case (Cons a as)
      with None Reconciling assms sup_act_rank [of "s\<lparr>sy_actions := as\<rparr>" c m a]
      show ?thesis by (auto simp: sup_next_def) (simp add: shutdown_rank_def)
    qed (use None Reconciling assms in \<open>auto simp: sup_next_def shutdown_rank_def\<close>)
  qed (use None assms in
      \<open>auto simp: sup_next_def shutdown_rank_def split: list.splits if_splits\<close>)
next
  case (Some it)
  with assms show ?thesis
    by (auto simp: sup_next_def shutdown_rank_def split: if_splits prod.splits)
qed

lemma task_stops:
  "(\<exists>t'. task_next c server StopSeen t = Some t') \<longleftrightarrow> tk_phase t \<noteq> Ended"
  "task_next c server StopSeen t = Some t' \<Longrightarrow> tk_phase t' = Ended"
  by (cases "tk_phase t"; auto simp: task_next.simps end_task_def)+

lemma run_task_rank:
  "run_task c b StopSeen t = Some t' \<Longrightarrow> task_rank t' < task_rank t"
  using task_stops [of c "rt_server t" "rt_task t"]
  by (auto simp: run_task_def task_rank_def split: if_splits)

lemma task_turn_rank:
  "task_turn c i StopSeen s = Some s' \<Longrightarrow> shutdown_rank s' < shutdown_rank s"
  by (auto simp: task_turn_def shutdown_rank_def split: option.splits if_splits)
    (blast intro: running_rank_update run_task_rank)+

lemma shutdown_event_rank:
  "shutdown_event ev \<Longrightarrow> sys_next c m ev s = Some s' \<Longrightarrow> shutdown_rank s' < shutdown_rank s"
  by (cases ev rule: shutdown_event.cases) (auto intro: sup_next_rank task_turn_rank)

lemma shutdown_bounded:
  "list_all shutdown_event evs \<Longrightarrow> run_system c m evs s = Some s' \<Longrightarrow>
     length evs + shutdown_rank s' \<le> shutdown_rank s"
proof (induction evs arbitrary: s)
  case (Cons ev evs)
  then obtain t where t: "sys_next c m ev s = Some t" "run_system c m evs t = Some s'"
    by (auto split: option.splits)
  from Cons t show ?case using shutdown_event_rank [of ev c m s t] by fastforce
qed simp

lemma shutdown_progress:
  assumes "tasks_ok c s" "sy_cancelled s" "sy_phase s \<noteq> SupOver"
  shows "\<exists>ev s'. shutdown_event ev \<and> sys_next c m ev s = Some s'"
proof (cases "sup_next c m s")
  case None
  with assms obtain i t where j: "sy_joining s = Some (i, t)" "tk_phase (rt_task t) \<noteq> Ended"
    by (auto simp: sup_next_def split: option.splits sup_phase.splits list.splits if_splits)
  then have "\<exists>s'. sys_next c m (TaskRuns i StopSeen) s = Some s'"
  proof -
    from assms(1) j(1) have "i \<notin> fst ` set (sy_running s)" by (simp add: tasks_ok_def)
    then have "hm_get (sy_running s) i = None"
      by (simp add: hm_get_def map_of_eq_None_iff)
    with assms(2) j task_stops(1) [of c "rt_server t" "rt_task t"] show ?thesis
      by (auto simp: task_turn_def run_task_def permitted_def)
  qed
  then show ?thesis by (metis shutdown_event.simps(2))
next
  case (Some s')
  then show ?thesis by (intro exI [of _ SupervisorRuns]) simp
qed

text \<open>When the supervisor is over, no task is left.\<close>

definition over_ok :: "system \<Rightarrow> bool" where
  "over_ok s \<longleftrightarrow> (sy_phase s = SupOver \<longrightarrow> sy_running s = [] \<and> sy_joining s = None)"

lemma sys_next_over:
  assumes "over_ok s" "sys_next c m ev s = Some s'"
  shows "over_ok s'"
proof (cases ev)
  case SupervisorRuns
  with assms show ?thesis
    by (auto simp: sup_next_def over_ok_def split: option.splits sup_phase.splits list.splits
        if_splits)
next
  case (TaskRuns i tev)
  with assms show ?thesis
    by (auto simp: task_turn_def over_ok_def split: option.splits if_splits)
qed (use assms in \<open>auto simp: over_ok_def begin_reconcile_def split: if_splits\<close>)

lemma sys_reaches_over: "sys_reaches c m cloud s \<Longrightarrow> over_ok s"
proof (induction rule: sys_reaches.induct)
  case sys_start
  show ?case by (simp add: over_ok_def sys_init_def begin_reconcile_def)
qed (blast intro: sys_next_over)

lemma sys_next_stays_over:
  "sy_phase s = SupOver \<Longrightarrow> sys_next c m ev s = Some s' \<Longrightarrow> sy_phase s' = SupOver"
  by (cases ev) (auto simp: sup_next_def dest: task_turn_servers split: option.splits if_splits)

lemma sys_next_cancelled:
  "sy_cancelled s \<Longrightarrow> sys_next c m ev s = Some s' \<Longrightarrow> sy_cancelled s'"
  by (cases ev) (auto simp: sup_next_def begin_reconcile_def dest: task_turn_servers
      split: option.splits sup_phase.splits list.splits if_splits)

lemma shutdown_reaches_over:
  assumes "sys_reaches c m cloud s" "sy_cancelled s"
  shows "\<exists>evs s'. list_all shutdown_event evs \<and> run_system c m evs s = Some s' \<and>
    sy_phase s' = SupOver \<and> sys_reaches c m cloud s'"
  using assms
proof (induction "shutdown_rank s" arbitrary: s rule: less_induct)
  case less
  show ?case
  proof (cases "sy_phase s = SupOver")
    case True
    with less.prems show ?thesis by (intro exI [of _ "[]"]) simp
  next
    case False
    from shutdown_progress [OF sys_reaches_ok [OF less.prems(1)] less.prems(2) False]
    obtain ev t where t: "shutdown_event ev" "sys_next c m ev s = Some t" by blast
    from less.hyps [OF shutdown_event_rank [OF t] sys_step [OF less.prems(1) t(2)]
        sys_next_cancelled [OF less.prems(2) t(2)]]
    obtain evs s' where "list_all shutdown_event evs" "run_system c m evs t = Some s'"
      "sy_phase s' = SupOver" "sys_reaches c m cloud s'" by blast
    with t show ?thesis by (intro exI [of _ "ev # evs"] exI [of _ s']) simp
  qed
qed

lemma over_no_sessions:
  assumes "tasks_ok c s" "over_ok s" "sy_phase s = SupOver"
  shows "open_sessions i s = 0"
proof -
  have "session_count it = 0" if "it \<in> set (sy_joined s)" for it
    using assms(1) that session_count_ended [of c it] by (simp add: tasks_ok_def list_all_iff)
  with assms(2, 3) show ?thesis by (simp add: open_sessions_def over_ok_def)
qed

text \<open>
  Shutting down ends: once the process is cancelled, whatever the gateway was doing, the
  supervisor and the tasks seeing their token can only go on for a bounded number of steps, and
  they can go on until the supervisor is over; then it has awaited every task and no session is
  left open on any server.
\<close>

theorem shutdown_completes:
  assumes "sys_reaches c m cloud s" "sy_cancelled s"
  shows "(\<forall>evs s'. list_all shutdown_event evs \<longrightarrow> run_system c m evs s = Some s' \<longrightarrow>
      length evs \<le> shutdown_rank s) \<and>
    (\<exists>evs s'. list_all shutdown_event evs \<and> run_system c m evs s = Some s' \<and>
      sy_phase s' = SupOver \<and> sy_running s' = [] \<and> (\<forall>i. open_sessions i s' = 0))"
proof -
  from shutdown_reaches_over [OF assms] obtain evs s' where
    "list_all shutdown_event evs" "run_system c m evs s = Some s'"
    and o: "sy_phase s' = SupOver" "sys_reaches c m cloud s'" by blast
  moreover have "sy_running s' = []"
    using sys_reaches_over [OF o(2)] o(1) by (simp add: over_ok_def)
  moreover have "open_sessions i s' = 0" for i
    using over_no_sessions [OF sys_reaches_ok [OF o(2)] sys_reaches_over [OF o(2)] o(1)] .
  ultimately show ?thesis using shutdown_bounded [of _ c m s] by force
qed

section \<open>A run\<close>

lemma run_reaches:
  "sys_reaches c m cloud s \<Longrightarrow> run_system c m evs s = Some s' \<Longrightarrow> sys_reaches c m cloud s'"
proof (induction evs arbitrary: s)
  case (Cons ev evs)
  then show ?case by (auto split: option.splits intro: sys_step)
qed simp

text \<open>
  The configured server is started and connects, and a server from Cumulocity is added; then the
  process is cancelled.
\<close>

definition demo_events :: "sys_event list" where
  "demo_events =
     [SupervisorRuns, SupervisorRuns, TaskRuns ''plc'' (Connected (Inr []) False),
      CloudChanged [demo_adopted], SupervisorRuns, SupervisorRuns]"

definition demo_system :: system where
  "demo_system = the (run_system demo_config demo_mqtt demo_events (sys_init demo_config []))"

lemma demo_system_reached: "sys_reaches demo_config demo_mqtt [] demo_system"
proof -
  have "\<not> Option.is_none (run_system demo_config demo_mqtt demo_events (sys_init demo_config []))"
    by code_simp
  then have "run_system demo_config demo_mqtt demo_events (sys_init demo_config []) =
      Some demo_system"
    by (auto simp: demo_system_def Option.is_none_def)
  with sys_start show ?thesis by (rule run_reaches)
qed

lemma demo_system_open: "open_sessions ''plc'' demo_system = 1"
  by code_simp


lemma waiting_means_desired_witness:
  "map_option rt_server (hm_get (sy_running demo_system) ''4711'') = Some demo_adopted"
proof -
  have c: "sy_cloud demo_system = [demo_adopted]"
    by code_simp
  have "sy_phase demo_system = Waiting" by code_simp
  note w = waiting_means_desired [OF demo_system_reached this]
  have "map_of (map (\<lambda>x. (sc_id x, x)) (merge_servers [demo_adopted] (cf_servers demo_config)))
      ''4711'' = Some demo_adopted"
    by code_simp
  with w c(1) show ?thesis by (simp add: fun_eq_iff)
qed

lemma shutdown_completes_witness:
  "\<exists>evs s'. run_system demo_config demo_mqtt evs (demo_system\<lparr>sy_cancelled := True\<rparr>) = Some s' \<and>
     sy_phase s' = SupOver \<and> open_sessions ''plc'' s' = 0"
proof -
  have "sys_reaches demo_config demo_mqtt [] (demo_system\<lparr>sy_cancelled := True\<rparr>)"
    using demo_system_reached by (rule sys_step [where ev = ProcessCancelled]) simp
  from shutdown_completes [OF this] show ?thesis by auto
qed

end
