(* ===== verification/Batching.thy ===== *)
theory Batching
  imports Server_Task
begin

text \<open>
  What a publisher makes of a sequence of values: the readings of a measurement type are the
  specification, the batch its implementation. Then the same for a whole cyclic read, and for the
  events of a node.
\<close>

section \<open>Readings\<close>

text \<open>
  The readings delivered values contribute to measurement types: one per measurement action with a
  type, in order, none for a bad value. Those of one type, and the types there are.
\<close>

definition typed_reading ::
    "resolved_node \<Rightarrow> data_value \<Rightarrow> action \<Rightarrow> (string \<times> reading) option" where
  "typed_reading node v a =
     (case a of
        Measurement c \<Rightarrow> map_option (\<lambda>ty. (ty, (c, rn_node_id_str node, v))) (measurement_type c)
      | _ \<Rightarrow> None)"

definition typed_readings ::
    "opc_lib \<Rightarrow> (resolved_node \<times> data_value) list \<Rightarrow> (string \<times> reading) list" where
  "typed_readings lib nvs =
     concat (map (\<lambda>(node, v).
       if is_bad lib v then [] else filter_map (typed_reading node v) (rn_actions node)) nvs)"

definition of_type :: "string \<Rightarrow> (string \<times> reading) list \<Rightarrow> reading list" where
  "of_type ty trs = map snd (filter (\<lambda>tr. fst tr = ty) trs)"

definition readings_of :: "opc_lib \<Rightarrow> string \<Rightarrow> (resolved_node \<times> data_value) list \<Rightarrow> reading list" where
  "readings_of lib ty nvs = of_type ty (typed_readings lib nvs)"

definition types_of :: "opc_lib \<Rightarrow> (resolved_node \<times> data_value) list \<Rightarrow> string list" where
  "types_of lib nvs = sort (remdups (map fst (typed_readings lib nvs)))"

definition series_waiting :: "opc_lib \<Rightarrow> (resolved_node \<times> data_value) list \<Rightarrow> nat" where
  "series_waiting lib nvs = length (filter_map (\<lambda>tr. numeric (snd tr)) (typed_readings lib nvs))"

lemma typed_readings_append [simp]:
  "typed_readings lib (xs @ ys) = typed_readings lib xs @ typed_readings lib ys"
  by (simp add: typed_readings_def)

lemma typed_readings_Nil [simp]: "typed_readings lib [] = []"
  by (simp add: typed_readings_def)

lemma of_type_simps [simp]:
  "of_type ty [] = []"
  "of_type ty (xs @ ys) = of_type ty xs @ of_type ty ys"
  by (simp_all add: of_type_def)

lemma readings_of_append:
  "readings_of lib ty (xs @ ys) = readings_of lib ty xs @ readings_of lib ty ys"
  by (simp add: readings_of_def)

lemma series_waiting_append:
  "series_waiting lib (xs @ ys) = series_waiting lib xs + series_waiting lib ys"
  by (simp add: series_waiting_def)

lemma types_of_iff: "ty \<in> set (types_of lib nvs) \<longleftrightarrow> readings_of lib ty nvs \<noteq> []"
  by (force simp: types_of_def readings_of_def of_type_def filter_empty_conv)

lemma types_of_sorted: "sorted_wrt (<) (types_of lib nvs)"
  by (simp add: types_of_def strict_sorted_iff)

text \<open>What the batch holds of a type after some readings.\<close>

definition collected ::
    "opc_lib \<Rightarrow> reading list \<Rightarrow> measurement_builder option \<Rightarrow> measurement_builder option" where
  "collected lib rs b = (if rs = [] then b else Some (mb_adds lib rs (unwrap_or mb_new b)))"

lemma collected_append: "collected lib (rs @ qs) b = collected lib qs (collected lib rs b)"
  by (simp add: collected_def mb_adds_def)

lemma collected_Nil [simp]: "collected lib [] b = b"
  by (simp add: collected_def)

lemma accept_measurement_batch:
  "bt_get (pb_batch (accept_measurement lib node v c p)) ty =
     (if measurement_type c = Some ty
      then collected lib [(c, rn_node_id_str node, v)] (bt_get (pb_batch p) ty)
      else bt_get (pb_batch p) ty)"
  by (auto simp: accept_measurement_def collected_def mb_adds_def Let_def
      split: option.splits prod.splits)

text \<open>
  What a publisher holds stands for the values it accepted since its last flush: every type's batch
  is made of the readings of that type, and the counter is the number of numeric ones.
\<close>

definition represents ::
    "opc_lib \<Rightarrow> publisher \<Rightarrow> (resolved_node \<times> data_value) list \<Rightarrow> bool" where
  "represents lib p nvs \<longleftrightarrow>
     bt_inv (pb_batch p) \<and>
     (\<forall>ty. bt_get (pb_batch p) ty = collected lib (readings_of lib ty nvs) None) \<and>
     pb_pending_series p = series_waiting lib nvs"

definition grows :: "opc_lib \<Rightarrow> (string \<times> reading) list \<Rightarrow> publisher \<Rightarrow> publisher \<Rightarrow> bool" where
  "grows lib trs p p' \<longleftrightarrow>
     (bt_inv (pb_batch p) \<longrightarrow> bt_inv (pb_batch p')) \<and>
     (\<forall>ty. bt_get (pb_batch p') ty = collected lib (of_type ty trs) (bt_get (pb_batch p) ty)) \<and>
     pb_pending_series p' = pb_pending_series p + length (filter_map (\<lambda>tr. numeric (snd tr)) trs) \<and>
     pb_entity p' = pb_entity p"

lemma grows_refl: "grows lib [] p p"
  by (simp add: grows_def)

lemma grows_trans: "grows lib xs p q \<Longrightarrow> grows lib ys q r \<Longrightarrow> grows lib (xs @ ys) p r"
  by (simp add: grows_def collected_append)

lemma accept_measurement_grows:
  "grows lib (case typed_reading node v (Measurement c) of None \<Rightarrow> [] | Some tr \<Rightarrow> [tr]) p
     (accept_measurement lib node v c p)"
proof (cases "measurement_type c")
  case None
  then show ?thesis by (simp add: typed_reading_def accept_measurement_def grows_refl)
next
  case (Some ty)
  then show ?thesis
    by (auto simp: grows_def typed_reading_def of_type_def accept_measurement_batch)
      (auto simp: accept_measurement_def mb_add_cases Let_def bt_insert_sorted
        split: option.splits prod.splits)
qed

lemma accept_action_grows:
  "grows lib (case typed_reading node v a of None \<Rightarrow> [] | Some tr \<Rightarrow> [tr]) (fst pm)
     (fst (accept_action lib node v a pm))"
proof (cases a)
  case (Measurement c)
  then show ?thesis by (simp add: accept_action_def accept_measurement_grows)
next
  case (Event c)
  have "pb_entity (fst (accept_event lib node v c pm)) = pb_entity (fst pm)"
    by (auto simp: accept_event_def Let_def split: prod.splits option.splits)
  with Event show ?thesis by (simp add: accept_action_def typed_reading_def grows_def)
next
  case (Alarm c)
  have "pb_entity (fst (accept_alarm lib node v c pm)) = pb_entity (fst pm)"
    by (auto simp: accept_alarm_def Let_def split: prod.splits option.splits)
  with Alarm show ?thesis by (simp add: accept_action_def typed_reading_def grows_def)
qed

lemma accept_grows:
  "grows lib (typed_readings lib [(node, v)]) (fst pm) (fst (accept lib node v pm))"
proof -
  have "grows lib (filter_map (typed_reading node v) as) (fst pm)
      (fst (fold (accept_action lib node v) as pm))" for as
  proof (induction as arbitrary: pm)
    case (Cons a as)
    from grows_trans [OF accept_action_grows [of lib node v a pm] Cons.IH] show ?case
      by (auto split: option.splits)
  qed (simp add: grows_refl)
  then show ?thesis by (simp add: accept_def typed_readings_def grows_refl)
qed

lemma accepts_grows:
  "grows lib (typed_readings lib nvs) (fst pm)
     (fst (fold (\<lambda>(node, v). accept lib node v) nvs pm))"
proof (induction nvs arbitrary: pm)
  case (Cons nv nvs)
  obtain node v where nv: "nv = (node, v)" by (cases nv)
  have "typed_readings lib (nv # nvs) = typed_readings lib [nv] @ typed_readings lib nvs"
    by (simp flip: typed_readings_append)
  with grows_trans [OF accept_grows [of lib node v pm] Cons.IH] nv show ?case by simp
qed (simp add: grows_refl)

lemma represents_new: "represents lib (publisher_new entity server dedup) []"
  by (simp add: represents_def publisher_new_def readings_of_def series_waiting_def bt.inv_emp)

lemma represents_grows:
  "represents lib p nvs \<Longrightarrow> grows lib (typed_readings lib new) p p' \<Longrightarrow>
     represents lib p' (nvs @ new)"
  by (simp add: represents_def grows_def collected_append readings_of_def series_waiting_def)

lemmas represents_accept = represents_grows [OF _ accept_grows]
lemmas represents_accepts = represents_grows [OF _ accepts_grows]

text \<open>
  C3. The batch implements its specification: whatever values a publisher has accepted since it was
  made, what it holds of a measurement type is exactly the readings of that type, in the order they
  were delivered. No reading is lost or doubled, none reaches another type, and events, alarms and
  bad values add nothing.
\<close>

theorem batch_holds_readings:
  "bt_get (pb_batch (fst (fold (\<lambda>(node, v). accept lib node v) nvs
       (publisher_new entity server dedup, m)))) ty =
     (case readings_of lib ty nvs of
        [] \<Rightarrow> None
      | rs \<Rightarrow> Some (mb_adds lib rs mb_new))"
  using represents_grows [OF represents_new
      accepts_grows [where pm = "(publisher_new entity server dedup, m)", simplified]]
  by (auto simp: represents_def collected_def split: list.splits)

section \<open>A cyclic read\<close>

lemma accept_action_frame [simp]:
  "pb_entity (fst (accept_action lib node v a pm)) = pb_entity (fst pm)"
  "mq_accepts (snd (accept_action lib node v a pm)) = mq_accepts (snd pm)"
  by (cases a; cases pm;
      auto simp: accept_action_def accept_measurement_def accept_event_def accept_alarm_def
        publish_defs Let_def split: option.splits prod.splits)+

lemma accepts_frame [simp]:
  "pb_entity (fst (fold (\<lambda>(node, v). accept lib node v) nvs pm)) = pb_entity (fst pm)"
  "mq_accepts (snd (fold (\<lambda>(node, v). accept lib node v) nvs pm)) = mq_accepts (snd pm)"
proof -
  have a: "pb_entity (fst (fold (accept_action lib node v) as pm)) = pb_entity (fst pm) \<and>
      mq_accepts (snd (fold (accept_action lib node v) as pm)) = mq_accepts (snd pm)" for node v as pm
    by (induction as arbitrary: pm) simp_all
  have "pb_entity (fst (fold (\<lambda>(node, v). accept lib node v) nvs pm)) = pb_entity (fst pm) \<and>
      mq_accepts (snd (fold (\<lambda>(node, v). accept lib node v) nvs pm)) = mq_accepts (snd pm)"
    by (induction nvs arbitrary: pm) (simp_all add: a accept_def case_prod_beta)
  then show "pb_entity (fst (fold (\<lambda>(node, v). accept lib node v) nvs pm)) = pb_entity (fst pm)"
    and "mq_accepts (snd (fold (\<lambda>(node, v). accept lib node v) nvs pm)) = mq_accepts (snd pm)"
    by simp_all
qed

definition measurement_message_of ::
    "entity_topic_id \<Rightarrow> string \<Rightarrow> json \<Rightarrow> message" where
  "measurement_message_of entity ty payload =
     \<lparr>ms_topic = channel_topic entity (''m/'' @ ty), ms_body = JsonBody payload,
      ms_retain = False\<rparr>"

text \<open>Event and alarm messages of a device, and what is sent between two states of the client.\<close>

definition event_or_alarm :: "entity_topic_id \<Rightarrow> message \<Rightarrow> bool" where
  "event_or_alarm entity x \<longleftrightarrow>
     (\<exists>t. ms_topic x = channel_topic entity (''e/'' @ t) \<or>
          ms_topic x = channel_topic entity (''a/'' @ t))"

definition sent_only :: "(message \<Rightarrow> bool) \<Rightarrow> mqtt \<Rightarrow> mqtt \<Rightarrow> bool" where
  "sent_only p m m' \<longleftrightarrow> (\<exists>xs. mq_sent m' = mq_sent m @ xs \<and> list_all p xs)"

lemma sent_only_refl [simp]: "sent_only p m m"
  by (simp add: sent_only_def)

lemma sent_only_trans: "sent_only p m m' \<Longrightarrow> sent_only p m' m'' \<Longrightarrow> sent_only p m m''"
  by (auto simp: sent_only_def)

lemma sent_only_publish:
  "(\<And>x. ms_topic x = topic \<Longrightarrow> p x) \<Longrightarrow> sent_only p m (snd (client_publish topic retain b m))"
  by (simp add: sent_only_def client_publish_def Let_def)

lemma accept_action_sent:
  "sent_only (event_or_alarm (pb_entity (fst pm))) (snd pm)
     (snd (accept_action lib node v a pm))"
proof (cases a)
  case (Measurement c)
  then show ?thesis by (simp add: accept_action_def)
next
  case (Event c)
  have "event_or_alarm e x" if "ms_topic x = channel_topic e (''e/'' @ t)" for e x t
    using that unfolding event_or_alarm_def by blast
  with Event show ?thesis
    by (cases pm) (auto simp: accept_action_def accept_event_def publish_defs Let_def
        intro!: sent_only_publish split: option.splits)
next
  case (Alarm c)
  have "event_or_alarm e x" if "ms_topic x = channel_topic e (''a/'' @ t)" for e x t
    using that unfolding event_or_alarm_def by blast
  with Alarm show ?thesis
    by (cases pm) (auto simp: accept_action_def accept_alarm_def publish_defs Let_def
        intro!: sent_only_publish split: option.splits)
qed

lemma accept_actions_sent:
  "sent_only (event_or_alarm (pb_entity (fst pm))) (snd pm)
     (snd (fold (accept_action lib node v) as pm))"
proof (induction as arbitrary: pm)
  case (Cons a as)
  from Cons.IH [of "accept_action lib node v a pm"] accept_action_sent [of pm lib node v a]
  show ?case by (auto intro: sent_only_trans)
qed simp

lemma accepts_sent:
  "sent_only (event_or_alarm (pb_entity (fst pm))) (snd pm)
     (snd (fold (\<lambda>(node, v). accept lib node v) nvs pm))"
proof (induction nvs arbitrary: pm)
  case (Cons nv nvs)
  obtain node v where nv: "nv = (node, v)" by (cases nv)
  have "sent_only (event_or_alarm (pb_entity (fst pm))) (snd pm) (snd (accept lib node v pm))"
    by (simp add: accept_def accept_actions_sent)
  moreover have "pb_entity (fst (accept lib node v pm)) = pb_entity (fst pm)"
    using accepts_frame(1) [of lib "[(node, v)]" pm] by simp
  ultimately show ?case
    using Cons.IH [of "accept lib node v pm"] nv by (auto intro: sent_only_trans)
qed simp

text \<open>Between two ticks nothing waits in a read loop.\<close>

definition idle_loop ::
    "opc_lib \<Rightarrow> entity_topic_id \<Rightarrow> (nat \<Rightarrow> bool) \<Rightarrow> read_loop \<Rightarrow> bool" where
  "idle_loop lib entity accepts l \<longleftrightarrow>
     represents lib (rl_publisher l) [] \<and> pb_entity (rl_publisher l) = entity \<and>
     mq_accepts (rl_mqtt l) = accepts"

lemma flush_entry_accepts [simp]: "mq_accepts (flush_entry lib e tb m) = mq_accepts m"
  by (auto simp: flush_entry_def publish_defs split: prod.splits option.splits)

lemma flush_entries_accepts [simp]: "mq_accepts (fold (flush_entry lib e) tbs m) = mq_accepts m"
  by (induction tbs arbitrary: m) simp_all

lemma filter_map_entries:
  assumes "\<And>k v. (k, v) \<in> set m \<Longrightarrow> f (k, v) = g k"
  shows "filter_map f m = filter_map g (map fst m)"
  using assms by (induction m) (auto split: option.splits)

text \<open>The measurement messages of some values: one per type, in the order of the types.\<close>

definition batch_messages ::
    "opc_lib \<Rightarrow> entity_topic_id \<Rightarrow> (resolved_node \<times> data_value) list \<Rightarrow> message list" where
  "batch_messages lib entity nvs =
     filter_map (\<lambda>ty. map_option (measurement_message_of entity ty)
       (mb_build lib (mb_adds lib (readings_of lib ty nvs) mb_new))) (types_of lib nvs)"

lemma represents_types:
  assumes "represents lib p nvs"
  shows "map fst (pb_batch p) = types_of lib nvs"
proof -
  from assms have inv: "bt_inv (pb_batch p)"
    and get: "bt_get (pb_batch p) ty = collected lib (readings_of lib ty nvs) None" for ty
    by (simp_all add: represents_def)
  have "set (map fst (pb_batch p)) = set (types_of lib nvs)"
    using bt.keys_iff [OF inv]
    by (simp add: set_eq_iff types_of_iff get collected_def del: set_map)
  then show ?thesis
    using bt.sorted_entries [OF inv] types_of_sorted [of lib nvs]
    by (metis strict_sorted_equal)
qed

lemma flush_represents:
  assumes "represents lib p nvs"
  shows "represents lib (fst (flush lib (p, m))) []"
    and "pb_entity (fst (flush lib (p, m))) = pb_entity p"
    and "mq_accepts (snd (flush lib (p, m))) = mq_accepts m"
    and "(\<And>n. mq_accepts m n) \<Longrightarrow>
      mq_sent (snd (flush lib (p, m))) = mq_sent m @ batch_messages lib (pb_entity p) nvs"
proof -
  show "represents lib (fst (flush lib (p, m))) []"
    by (simp add: represents_def flush_def readings_of_def series_waiting_def bt.inv_emp)
  show "pb_entity (fst (flush lib (p, m))) = pb_entity p"
    "mq_accepts (snd (flush lib (p, m))) = mq_accepts m"
    by (simp_all add: flush_def)
  assume accepts: "\<And>n. mq_accepts m n"
  let ?msg = "\<lambda>ty. map_option (measurement_message_of (pb_entity p) ty)
      (mb_build lib (mb_adds lib (readings_of lib ty nvs) mb_new))"
  from assms have inv: "bt_inv (pb_batch p)" by (simp add: represents_def)
  have entry: "(ty, b) \<in> set (pb_batch p) \<Longrightarrow> b = mb_adds lib (readings_of lib ty nvs) mb_new" for ty b
    using bt.entries_iff [OF inv, of ty b] assms
    by (auto simp: represents_def collected_def split: if_splits)
  have "mq_sent (snd (flush lib (p, m))) = mq_sent m @ filter_map ?msg (map fst (pb_batch p))"
    using flush_entries_sent [of m lib "pb_entity p" "pb_batch p"] accepts
    by (auto simp: flush_def measurement_message_of_def [abs_def] dest: entry
        intro!: filter_map_entries)
  then show "mq_sent (snd (flush lib (p, m))) = mq_sent m @ batch_messages lib (pb_entity p) nvs"
    by (simp add: batch_messages_def represents_types [OF assms])
qed

lemma idle_init: "idle_loop lib entity (mq_accepts m) (read_loop_init entity server m)"
  by (simp add: idle_loop_def read_loop_init_def represents_new) (simp add: publisher_new_def)

text \<open>A successful read of an idle loop.\<close>

lemma read_represents:
  assumes "idle_loop lib entity accepts l"
  obtains p m others where
    "fold (\<lambda>(node, v). accept lib node v) nvs (rl_publisher l, rl_mqtt l) = (p, m)"
    "represents lib p nvs" "pb_entity p = entity" "mq_accepts m = accepts"
    "mq_sent m = mq_sent (rl_mqtt l) @ others" "list_all (event_or_alarm entity) others"
proof -
  let ?pm = "fold (\<lambda>(node, v). accept lib node v) nvs (rl_publisher l, rl_mqtt l)"
  have "represents lib (fst ?pm) nvs"
    using represents_accepts [where pm = "(rl_publisher l, rl_mqtt l)" and nvs = "[]"] assms
    by (simp add: idle_loop_def)
  moreover have "pb_entity (fst ?pm) = entity" "mq_accepts (snd ?pm) = accepts"
    using assms by (simp_all add: idle_loop_def)
  moreover obtain others where "mq_sent (snd ?pm) = mq_sent (rl_mqtt l) @ others"
    "list_all (event_or_alarm entity) others"
    using accepts_sent [of "(rl_publisher l, rl_mqtt l)" lib nvs] assms
    by (auto simp: sent_only_def idle_loop_def)
  ultimately show thesis using that by (cases ?pm) auto
qed

lemma idle_step [step_rules]:
  assumes "idle_loop lib entity accepts l"
  shows "idle_loop lib entity accepts (read_step lib nodes ev l)"
proof (cases ev)
  case (ReadResult r)
  show ?thesis
  proof (cases r)
    case (Inr vals)
    from read_represents [OF assms, of "zip nodes vals"] obtain p m where
      pm: "fold (\<lambda>(node, v). accept lib node v) (zip nodes vals) (rl_publisher l, rl_mqtt l) = (p, m)"
      "represents lib p (zip nodes vals)" "pb_entity p = entity" "mq_accepts m = accepts" by metis
    with flush_represents(1-3) [OF pm(2), of m] assms ReadResult Inr show ?thesis
      by (cases "flush lib (p, m)") (simp add: read_step_def idle_loop_def)
  qed (use assms ReadResult in \<open>simp add: read_step_def idle_loop_def Let_def\<close>)
qed (use assms in \<open>simp add: read_step_def idle_loop_def\<close>)

interpretation reads: stepping "read_step lib nodes" "idle_loop lib entity accepts"
    for lib nodes entity accepts
  by unfold_locales (rule idle_step)

text \<open>
  C9. What a cyclic read sees is what it publishes: however the loop got there, a successful read
  adds, after the events and alarms of its values, exactly one measurement message for every type
  with a numeric reading, which holds the readings of that type and of this read only; nothing is
  kept for the next one.
\<close>

theorem read_publishes_readings:
  assumes "\<And>n. mq_accepts m n"
    and "l = fold (read_step lib nodes) evs (read_loop_init entity server m)" "\<not> rl_done l"
    and "l' = read_step lib nodes (ReadResult (Inr vals)) l"
  shows "\<exists>others.
    mq_sent (rl_mqtt l') =
      mq_sent (rl_mqtt l) @ others @ batch_messages lib entity (zip nodes vals) \<and>
    list_all (event_or_alarm entity) others \<and> represents lib (rl_publisher l') []"
proof -
  have idle: "idle_loop lib entity (mq_accepts m) l"
    unfolding assms(2) by (intro reads.inv_run idle_init)
  from read_represents [OF idle, of "zip nodes vals"] obtain p1 m1 others where
    pm: "fold (\<lambda>(node, v). accept lib node v) (zip nodes vals) (rl_publisher l, rl_mqtt l) = (p1, m1)"
    "represents lib p1 (zip nodes vals)" "pb_entity p1 = entity" "mq_accepts m1 = mq_accepts m"
    "mq_sent m1 = mq_sent (rl_mqtt l) @ others" "list_all (event_or_alarm entity) others"
    by metis
  with flush_represents [OF pm(2), of m1] assms show ?thesis
    by (cases "flush lib (p1, m1)") (auto simp: read_step_def)
qed

section \<open>Events of a cyclic read\<close>

text \<open>An event of a good value, with its text.\<close>

definition event_text :: "opc_lib \<Rightarrow> event_creation \<Rightarrow> string \<Rightarrow> data_value \<Rightarrow> string" where
  "event_text lib c n v =
     unwrap_or [] (Option.bind (jget ''text'' (event_payload lib c n v)) as_str)"

definition event_reading ::
    "opc_lib \<Rightarrow> event_creation \<Rightarrow> string \<Rightarrow> data_value \<Rightarrow> (string \<times> data_value) option" where
  "event_reading lib c n v = (if is_bad lib v then None else Some (event_text lib c n v, v))"

definition event_message ::
    "opc_lib \<Rightarrow> entity_topic_id \<Rightarrow> event_creation \<Rightarrow> string \<Rightarrow> string \<Rightarrow> string \<times> data_value \<Rightarrow>
     message" where
  "event_message lib entity c ty n tv =
     \<lparr>ms_topic = channel_topic entity (''e/'' @ ty),
      ms_body = JsonBody (event_payload lib c n (snd tv)), ms_retain = False\<rparr>"

lemma accept_single_event:
  assumes "rn_actions node = [Event c]" "ec_type c = Some ty" "\<And>n. mq_accepts m n"
    and "pb_dedup_events p"
  shows "accept lib node v (p, m) =
    (case event_reading lib c (rn_node_id_str node) v of
       None \<Rightarrow> (p, m)
     | Some (t, w) \<Rightarrow>
         (if bt_get (pb_last_event p) (rn_node_id_str node, ty) = Some t then (p, m)
          else (p\<lparr>pb_last_event := bt_insert (rn_node_id_str node, ty) t (pb_last_event p)\<rparr>,
                m\<lparr>mq_calls := mq_calls m + 1,
                  mq_sent := mq_sent m @
                    [event_message lib (pb_entity p) c ty (rn_node_id_str node) (t, w)]\<rparr>)))"
  using assms
  by (auto simp: accept_def accept_action_def accept_event_def event_reading_def event_text_def
      publish_defs client_publish_def event_message_def Let_def split: option.splits)

text \<open>
  A cyclic read does not repeat its events: over any sequence of values the messages of an
  event node are one per change of the text of the event, in order, each with the value that
  changed it.
\<close>

theorem event_changes:
  assumes "rn_actions node = [Event c]" "ec_type c = Some ty" "\<And>n. mq_accepts m n"
    and "pb_dedup_events p"
  shows "mq_sent (snd (fold (accept lib node) vs (p, m))) =
    mq_sent m @
    map (event_message lib (pb_entity p) c ty (rn_node_id_str node))
      (transitions (bt_get (pb_last_event p) (rn_node_id_str node, ty))
        (filter_map (event_reading lib c (rn_node_id_str node)) vs))"
  by (rule changes_published
      [where good = "\<lambda>q. pb_entity q = pb_entity p \<and> pb_dedup_events q"
        and put = "\<lambda>t q. q\<lparr>pb_last_event := bt_insert (rn_node_id_str node, ty) t (pb_last_event q)\<rparr>"])
    (use assms in \<open>simp_all add: accept_single_event [OF assms(1, 2)] split: option.split prod.split\<close>)

section \<open>Examples\<close>

definition demo_measurement :: measurement_creation where
  "demo_measurement =
     \<lparr>mc_type = Some ''temperature'', mc_series = Some ''pump'', mc_fragment_name = Some ''T'',
      mc_unit = Some ''C'', mc_static_fragments = None\<rparr>"

definition demo_event :: event_creation where
  "demo_event =
     \<lparr>ec_type = Some ''state'', ec_text = Some ''state ${value}'', ec_static_fragments = None\<rparr>"

definition demo_temperature_node :: resolved_node where
  "demo_temperature_node =
     \<lparr>rn_node_id = NodeId 2 (Numeric 7), rn_node_id_str = ''ns=2;i=7'',
      rn_actions = [Measurement demo_measurement], rn_delivery = CyclicRead 1000 0\<rparr>"

definition demo_event_node :: resolved_node where
  "demo_event_node = demo_temperature_node\<lparr>rn_actions := [Event demo_event]\<rparr>"

definition demo_read_loop :: read_loop where
  "demo_read_loop = read_loop_init (child_device ''pump'') ''plc'' demo_mqtt"

lemma read_publishes_readings_witness:
  "map ms_topic (mq_sent (rl_mqtt (read_step demo_lib [demo_temperature_node, demo_event_node]
     (ReadResult (Inr [demo_flag True, demo_flag False])) demo_read_loop))) \<noteq> [] \<and>
   last (map ms_topic (mq_sent (rl_mqtt (read_step demo_lib [demo_temperature_node, demo_event_node]
     (ReadResult (Inr [demo_flag True, demo_flag False])) demo_read_loop)))) =
     ''te/device/pump///m/temperature''"
proof -
  let ?nodes = "[demo_temperature_node, demo_event_node]"
  let ?vals = "[demo_flag True, demo_flag False]"
  have m: "mq_accepts demo_mqtt n" for n by (simp add: demo_mqtt_def mqtt_new_def Let_def)
  have "demo_read_loop = fold (read_step demo_lib ?nodes) []
      (read_loop_init (child_device ''pump'') ''plc'' demo_mqtt)" "\<not> rl_done demo_read_loop"
    by (simp_all add: demo_read_loop_def read_loop_init_def)
  from read_publishes_readings [OF m this refl, where vals = ?vals] obtain others where
    "mq_sent (rl_mqtt (read_step demo_lib ?nodes (ReadResult (Inr ?vals)) demo_read_loop)) =
     mq_sent (rl_mqtt demo_read_loop) @ others @
       batch_messages demo_lib (child_device ''pump'') (zip ?nodes ?vals)"
    by blast
  moreover have "map ms_topic (batch_messages demo_lib (child_device ''pump'') (zip ?nodes ?vals)) =
      [''te/device/pump///m/temperature'']"
    by code_simp
  ultimately show ?thesis by simp
qed

lemma event_changes_witness:
  "length (mq_sent (snd (fold (accept demo_lib demo_event_node)
     (map demo_flag [True, True, False, True]) (demo_publisher, demo_mqtt)))) = 3"
proof -
  have a: "rn_actions demo_event_node = [Event demo_event]" "ec_type demo_event = Some ''state''"
    and p: "pb_dedup_events demo_publisher"
    and m: "mq_accepts demo_mqtt n" for n
    by (simp_all add: demo_event_node_def demo_event_def demo_publisher_def publisher_new_def
        demo_mqtt_def mqtt_new_def Let_def)
  have "length (transitions (bt_get (pb_last_event demo_publisher)
      (rn_node_id_str demo_event_node, ''state''))
      (filter_map (event_reading demo_lib demo_event (rn_node_id_str demo_event_node))
        (map demo_flag [True, True, False, True]))) = 3"
    by code_simp
  moreover have "mq_sent demo_mqtt = []" by (simp add: demo_mqtt_def mqtt_new_def Let_def)
  ultimately show ?thesis
    using event_changes [OF a m p, of demo_lib "map demo_flag [True, True, False, True]"] by simp
qed

end
