(* ===== verification/Subscribing.thy ===== *)
theory Subscribing
  imports Batching
begin

text \<open>
  The subscription loop of \<open>crates/gateway/src/server_task.rs\<close> against its specification: for every
  device a list of the values delivered to it since the last flush, and the messages a flush makes
  of them.
\<close>

section \<open>The specification\<close>

type_synonym waiting = "(string, (resolved_node \<times> data_value) list) hmap"

definition spec_flush :: "opc_lib \<Rightarrow> waiting \<times> message list \<Rightarrow> waiting \<times> message list" where
  "spec_flush lib wo =
     (map (\<lambda>(k, _). (k, [])) (fst wo),
      snd wo @ concat (map (\<lambda>(k, nvs). batch_messages lib (EntityTopicId k) nvs) (fst wo)))"

definition spec_deliver :: "routes \<Rightarrow> data_change \<Rightarrow> waiting \<Rightarrow> waiting" where
  "spec_deliver routes change w =
     (case hm_get routes (ch_client_handle change) of
        None \<Rightarrow> w
      | Some t \<Rightarrow>
          (let k = topic_str (tg_entity t) in
           case hm_get w k of
             None \<Rightarrow> w
           | Some nvs \<Rightarrow> hm_insert k (nvs @ [(tg_node t, ch_value change)]) w))"

definition all_waiting :: "opc_lib \<Rightarrow> waiting \<Rightarrow> nat" where
  "all_waiting lib w = sum_list (map (\<lambda>(_, nvs). series_waiting lib nvs) w)"

definition spec_step ::
    "opc_lib \<Rightarrow> subscription_config \<Rightarrow> routes \<Rightarrow> sub_event \<Rightarrow> waiting \<times> message list \<Rightarrow>
     waiting \<times> message list" where
  "spec_step lib c routes ev wo =
     (case ev of
        Change change \<Rightarrow>
          (let wo = (spec_deliver routes change (fst wo), snd wo) in
           if sb_flush_max_series c \<le> all_waiting lib (fst wo) then spec_flush lib wo else wo)
      | _ \<Rightarrow> spec_flush lib wo)"

fun ends_loop :: "sub_event \<Rightarrow> bool" where
  "ends_loop SubCancel = True"
| "ends_loop Closed = True"
| "ends_loop _ = False"

text \<open>The events up to the one that ends the loop.\<close>

definition seen :: "sub_event list \<Rightarrow> sub_event list" where
  "seen evs =
     takeWhile (\<lambda>ev. \<not> ends_loop ev) evs @ take 1 (dropWhile (\<lambda>ev. \<not> ends_loop ev) evs)"

definition spec_run ::
    "opc_lib \<Rightarrow> subscription_config \<Rightarrow> routes \<Rightarrow> sub_event list \<Rightarrow> waiting \<times> message list \<Rightarrow>
     waiting \<times> message list" where
  "spec_run lib c routes evs wo = fold (spec_step lib c routes) (seen evs) wo"

text \<open>Every device of the routes, with nothing waiting.\<close>

definition spec_init :: "string \<Rightarrow> routes \<Rightarrow> waiting \<times> message list" where
  "spec_init server_id routes = (map (\<lambda>(k, _). (k, [])) (sub_publishers server_id routes), [])"

section \<open>Merged sequences\<close>

lemma shuffles_append:
  "xs \<in> shuffles a b \<Longrightarrow> ys \<in> shuffles c d \<Longrightarrow> xs @ ys \<in> shuffles (a @ c) (b @ d)"
proof (induction a b arbitrary: xs rule: shuffles.induct)
  case (1 b)
  then show ?case
    by (induction b arbitrary: xs) (auto simp: Cons_in_shuffles_rightI)
next
  case (2 a)
  then show ?case
    by (induction a arbitrary: xs) (auto simp: Cons_in_shuffles_leftI)
next
  case (3 x a y b)
  then show ?case
    by (auto simp: Cons_in_shuffles_leftI Cons_in_shuffles_rightI)
qed

section \<open>The simulation\<close>

definition stands_for ::
    "opc_lib \<Rightarrow> string \<times> publisher \<Rightarrow> string \<times> (resolved_node \<times> data_value) list \<Rightarrow> bool" where
  "stands_for lib kp kn \<longleftrightarrow>
     fst kp = fst kn \<and> pb_entity (snd kp) = EntityTopicId (fst kp) \<and>
     represents lib (snd kp) (snd kn)"

definition simulates :: "opc_lib \<Rightarrow> mqtt \<Rightarrow> sub_loop \<Rightarrow> waiting \<times> message list \<Rightarrow> bool" where
  "simulates lib m l wo \<longleftrightarrow>
     list_all2 (stands_for lib) (sl_publishers l) (fst wo) \<and>
     mq_accepts (sl_mqtt l) = (\<lambda>_. True) \<and>
     (\<exists>xs others. mq_sent (sl_mqtt l) = mq_sent m @ xs \<and> xs \<in> shuffles (snd wo) others \<and>
        list_all (\<lambda>x. \<exists>e. event_or_alarm e x) others)"

lemma simulates_send:
  assumes "simulates lib m l wo" "list_all2 (stands_for lib) ps w"
    and "mq_accepts m' = (\<lambda>_. True)" "mq_sent m' = mq_sent (sl_mqtt l) @ ys"
    and "ys \<in> shuffles out others" "list_all (\<lambda>x. \<exists>e. event_or_alarm e x) others"
  shows "simulates lib m (l\<lparr>sl_publishers := ps, sl_mqtt := m'\<rparr>) (w, snd wo @ out)"
proof -
  obtain xs os where "mq_sent (sl_mqtt l) = mq_sent m @ xs" "xs \<in> shuffles (snd wo) os"
    "list_all (\<lambda>x. \<exists>e. event_or_alarm e x) os"
    using assms(1) by (auto simp: simulates_def)
  with assms(2-) show ?thesis
    unfolding simulates_def
    by (intro conjI exI [of _ "xs @ ys"] exI [of _ "os @ others"]) (auto intro: shuffles_append)
qed

lemma flush_publishers_simulates:
  assumes "list_all2 (stands_for lib) ps w" "mq_accepts m = (\<lambda>_. True)"
  shows "list_all2 (stands_for lib) (fst (flush_publishers lib ps m)) (map (\<lambda>(k, _). (k, [])) w) \<and>
    mq_accepts (snd (flush_publishers lib ps m)) = (\<lambda>_. True) \<and>
    mq_sent (snd (flush_publishers lib ps m)) =
      mq_sent m @ concat (map (\<lambda>(k, nvs). batch_messages lib (EntityTopicId k) nvs) w)"
  using assms
proof (induction arbitrary: m rule: list_all2_induct)
  case Nil
  then show ?case by simp
next
  case (Cons kp ps kn w)
  obtain k p where kp: "kp = (k, p)" by (cases kp)
  obtain nvs where kn: "kn = (k, nvs)" "represents lib p nvs" "pb_entity p = EntityTopicId k"
    using Cons.hyps(1) kp by (cases kn) (auto simp: stands_for_def)
  obtain p' m' where f: "flush lib (p, m) = (p', m')" by fastforce
  from flush_represents [OF kn(2), of m] Cons.prems f kn(3) have
    "represents lib p' []" "pb_entity p' = EntityTopicId k" "mq_accepts m' = (\<lambda>_. True)"
    "mq_sent m' = mq_sent m @ batch_messages lib (EntityTopicId k) nvs" by simp_all
  with Cons.IH [of m'] f kp kn show ?case by (simp add: stands_for_def case_prod_beta)
qed

lemma shuffles_none: "xs \<in> shuffles xs []"
  by simp

lemma flush_all_simulates:
  assumes "simulates lib m l wo"
  shows "simulates lib m (flush_all lib l) (spec_flush lib wo)"
proof -
  obtain ps m' where f: "flush_publishers lib (sl_publishers l) (sl_mqtt l) = (ps, m')" by fastforce
  with flush_publishers_simulates [of lib "sl_publishers l" "fst wo" "sl_mqtt l"] assms
  have "list_all2 (stands_for lib) ps (map (\<lambda>(k, _). (k, [])) (fst wo))"
    "mq_accepts m' = (\<lambda>_. True)"
    "mq_sent m' = mq_sent (sl_mqtt l) @
       concat (map (\<lambda>(k, nvs). batch_messages lib (EntityTopicId k) nvs) (fst wo))"
    by (simp_all add: simulates_def)
  from simulates_send [OF assms this shuffles_none] f show ?thesis
    by (simp add: flush_all_def spec_flush_def)
qed

lemma stands_for_get:
  assumes "list_all2 (stands_for lib) ps w"
  shows "rel_option (\<lambda>p nvs. stands_for lib (k, p) (k, nvs)) (hm_get ps k) (hm_get w k)"
  using assms by (induction rule: list_all2_induct) (auto simp: stands_for_def)

lemma stands_for_insert:
  assumes "list_all2 (stands_for lib) ps w" "stands_for lib (k, p) (k, nvs)"
  shows "list_all2 (stands_for lib) (hm_insert k p ps) (hm_insert k nvs w)"
  using assms
  by (induction rule: list_all2_induct) (auto simp: hm_insert_def stands_for_def)

lemma deliver_simulates:
  assumes "simulates lib m l wo"
  shows "simulates lib m (deliver lib routes change l) (spec_deliver routes change (fst wo), snd wo)"
proof (cases "hm_get routes (ch_client_handle change)")
  case None
  with assms show ?thesis by (simp add: deliver_def spec_deliver_def)
next
  case (Some t)
  let ?k = "topic_str (tg_entity t)"
  have rel: "list_all2 (stands_for lib) (sl_publishers l) (fst wo)"
    using assms by (simp add: simulates_def)
  show ?thesis
  proof (cases "hm_get (sl_publishers l) ?k")
    case None
    with stands_for_get [OF rel, of ?k] Some assms show ?thesis
      by (simp add: deliver_def spec_deliver_def Let_def)
  next
    case (Some p)
    with stands_for_get [OF rel, of ?k] obtain nvs where nvs: "hm_get (fst wo) ?k = Some nvs"
      "stands_for lib (?k, p) (?k, nvs)" by (cases "hm_get (fst wo) ?k") auto
    let ?v = "ch_value change" and ?n = "tg_node t"
    obtain p' m' where a: "accept lib ?n ?v (p, sl_mqtt l) = (p', m')" by fastforce
    have g: "grows lib (typed_readings lib [(?n, ?v)]) p p'"
      using accept_grows [of lib ?n ?v "(p, sl_mqtt l)"] a by simp
    have "stands_for lib (?k, p') (?k, nvs @ [(?n, ?v)])"
      using nvs(2) represents_grows [OF _ g] g by (simp add: stands_for_def grows_def)
    with rel have "list_all2 (stands_for lib) (hm_insert ?k p' (sl_publishers l))
        (hm_insert ?k (nvs @ [(?n, ?v)]) (fst wo))" by (rule stands_for_insert)
    moreover obtain others where
      "mq_sent m' = mq_sent (sl_mqtt l) @ others" "list_all (event_or_alarm (pb_entity p)) others"
      using accepts_sent [of "(p, sl_mqtt l)" lib "[(?n, ?v)]"] a by (auto simp: sent_only_def)
    moreover have "mq_accepts m' = (\<lambda>_. True)"
      using accepts_frame(2) [of lib "[(?n, ?v)]" "(p, sl_mqtt l)"] a assms
      by (simp add: simulates_def)
    ultimately have "simulates lib m
        (l\<lparr>sl_publishers := hm_insert ?k p' (sl_publishers l), sl_mqtt := m'\<rparr>)
        (hm_insert ?k (nvs @ [(?n, ?v)]) (fst wo), snd wo @ [])"
      by (intro simulates_send [OF assms, of _ _ _ others _ others])
        (auto simp: list_all_iff)
    with \<open>hm_get routes (ch_client_handle change) = Some t\<close> Some nvs(1) a show ?thesis
      by (simp add: deliver_def spec_deliver_def Let_def)
  qed
qed

lemma all_waiting_pending:
  "list_all2 (stands_for lib) ps w \<Longrightarrow> total_pending ps = all_waiting lib w"
  by (induction rule: list_all2_induct)
    (auto simp: total_pending_def all_waiting_def stands_for_def represents_def)

lemma simulates_done [simp]: "simulates lib m (l\<lparr>sl_done := b\<rparr>) wo = simulates lib m l wo"
  by (simp add: simulates_def)

lemma sub_step_simulates:
  assumes "simulates lib m l wo" "\<not> sl_done l"
  shows "simulates lib m (sub_step lib c routes ev l) (spec_step lib c routes ev wo)"
proof (cases ev)
  case (Change change)
  let ?l = "deliver lib routes change l" and ?wo = "(spec_deliver routes change (fst wo), snd wo)"
  have sim: "simulates lib m ?l ?wo" using assms(1) by (rule deliver_simulates)
  moreover from this have "total_pending (sl_publishers ?l) = all_waiting lib (fst ?wo)"
    by (auto simp: simulates_def intro: all_waiting_pending)
  ultimately show ?thesis
    using Change assms(2) flush_all_simulates [OF sim]
    by (simp add: sub_step_def spec_step_def Let_def)
qed (use assms in \<open>auto simp: sub_step_def spec_step_def flush_all_simulates\<close>)

lemma sub_step_done:
  "\<not> sl_done l \<Longrightarrow> sl_done (sub_step lib c routes ev l) = ends_loop ev"
  by (cases ev) (auto simp: sub_step_def deliver_def flush_all_def Let_def
      split: option.splits prod.splits)

interpretation subscription: mirroring "sub_step lib c routes" sl_done ends_loop
    "spec_step lib c routes" "simulates lib m" for lib c routes m
  by unfold_locales (simp add: sub_step_def, rule sub_step_done, assumption, rule sub_step_simulates)

lemma sub_publishers_simulates:
  "list_all2 (stands_for lib) (sub_publishers server_id routes)
     (map (\<lambda>(k, _). (k, [])) (sub_publishers server_id routes))"
proof -
  let ?add = "\<lambda>(h :: u32, target :: subscribed_target) ps.
      let k = topic_str (tg_entity target) in
      case hm_get ps k of
        Some _ \<Rightarrow> ps
      | None \<Rightarrow> hm_insert k (publisher_new (tg_entity target) server_id False) ps"
  let ?ok = "list_all (\<lambda>kp. stands_for lib kp (fst kp, []))"
  have new: "stands_for lib (topic_str e, publisher_new e server_id False) (topic_str e, [])" for e
    by (cases e) (simp add: stands_for_def represents_new, simp add: publisher_new_def)
  have "?ok ps \<Longrightarrow> ?ok (fold ?add rs ps)" for rs ps
  proof (induction rs arbitrary: ps)
    case (Cons r rs)
    obtain h t where r: "r = (h, t)" by (cases r)
    have "?ok (?add r ps)"
      using Cons.prems new [of "tg_entity t"] r
      by (auto simp: Let_def list_all_iff split: option.splits dest!: hm_insert_entries)
    from Cons.IH [OF this] show ?case by simp
  qed simp
  then have "?ok (sub_publishers server_id routes)" by (simp add: sub_publishers_def)
  then show ?thesis
    by (auto simp: list_all2_map2 list_all_iff case_prod_beta intro!: list.rel_refl_strong)
qed

lemma sub_start_simulates:
  assumes "\<And>n. mq_accepts m n"
  shows "simulates lib m
    \<lparr>sl_publishers = sub_publishers server_id routes, sl_mqtt = m, sl_done = False\<rparr>
    (spec_init server_id routes)"
proof -
  have "mq_accepts m = (\<lambda>_. True)" using assms by auto
  then show ?thesis
    using sub_publishers_simulates [of lib server_id routes]
    by (auto simp: simulates_def spec_init_def)
qed

text \<open>
  C8. The subscription loop implements its specification: over any sequence of notifications, ticks
  and the end of the subscription, each device's publisher holds exactly the values delivered to
  that device since the last flush, and the loop has sent the measurement messages of every flush,
  in order and each once, merged only with events and alarms.
\<close>

theorem subscription_refines:
  assumes "\<And>n. mq_accepts m n"
    and "l = fold (sub_step lib c routes) evs
      \<lparr>sl_publishers = sub_publishers server_id routes, sl_mqtt = m, sl_done = False\<rparr>"
    and "spec_run lib c routes evs (spec_init server_id routes) = (w, out)"
  shows "map fst (sl_publishers l) = map fst w \<and>
    (\<forall>k p nvs. hm_get (sl_publishers l) k = Some p \<longrightarrow> hm_get w k = Some nvs \<longrightarrow>
       represents lib p nvs) \<and>
    (\<exists>xs others. mq_sent (sl_mqtt l) = mq_sent m @ xs \<and> xs \<in> shuffles out others \<and>
       list_all (\<lambda>x. \<exists>e. event_or_alarm e x) others)"
proof -
  have "simulates lib m l (spec_run lib c routes evs (spec_init server_id routes))"
    unfolding assms(2) spec_run_def seen_def
    by (rule subscription.rel_run [OF sub_start_simulates [OF assms(1)]]) simp
  then have sim: "simulates lib m l (w, out)" by (simp only: assms(3))
  then have rel: "list_all2 (stands_for lib) (sl_publishers l) w" by (simp add: simulates_def)
  have "map fst (sl_publishers l) = map fst w"
    using rel by (induction rule: list_all2_induct) (auto simp: stands_for_def)
  moreover have "represents lib p nvs"
    if "hm_get (sl_publishers l) k = Some p" "hm_get w k = Some nvs" for k p nvs
    using stands_for_get [OF rel, of k] that by (simp add: stands_for_def)
  ultimately show ?thesis using sim by (auto simp: simulates_def)
qed

section \<open>Example\<close>

definition demo_routes :: routes where
  "demo_routes =
     [(1, \<lparr>tg_entity = child_device ''plc-pump'', tg_device_type_id = ''4711'',
           tg_node = demo_temperature_node\<rparr>),
      (2, \<lparr>tg_entity = child_device ''plc-tank'', tg_device_type_id = ''4712'',
           tg_node = demo_temperature_node\<rparr>)]"

definition demo_change_of :: "u32 \<Rightarrow> data_change" where
  "demo_change_of handle =
     \<lparr>ch_client_handle = handle, ch_node_id = NodeId 2 (Numeric 7), ch_value = demo_flag True\<rparr>"

text \<open>Two devices with the same measurement type: each gets its own message.\<close>

lemma subscription_refines_witness:
  "\<exists>xs others.
     mq_sent (sl_mqtt (fold (sub_step demo_lib subscription_config_default demo_routes)
       [Change (demo_change_of 1), Change (demo_change_of 2), FlushTick]
       \<lparr>sl_publishers = sub_publishers ''plc'' demo_routes, sl_mqtt = demo_mqtt, sl_done = False\<rparr>)) =
       xs \<and>
     (\<exists>out. xs \<in> shuffles out others \<and>
        map ms_topic out =
          [''te/device/plc-pump///m/temperature'', ''te/device/plc-tank///m/temperature''])"
proof -
  let ?evs = "[Change (demo_change_of 1), Change (demo_change_of 2), FlushTick]"
  have m: "mq_accepts demo_mqtt n" for n by (simp add: demo_mqtt_def mqtt_new_def Let_def)
  obtain w out where r: "spec_run demo_lib subscription_config_default demo_routes ?evs
      (spec_init ''plc'' demo_routes) = (w, out)" by fastforce
  have "map ms_topic (snd (spec_run demo_lib subscription_config_default demo_routes ?evs
      (spec_init ''plc'' demo_routes))) =
      [''te/device/plc-pump///m/temperature'', ''te/device/plc-tank///m/temperature'']"
    by code_simp
  with r have "map ms_topic out =
      [''te/device/plc-pump///m/temperature'', ''te/device/plc-tank///m/temperature'']" by simp
  moreover have "mq_sent demo_mqtt = []" by (simp add: demo_mqtt_def mqtt_new_def Let_def)
  moreover from subscription_refines [OF m refl r] obtain xs others where
    "mq_sent (sl_mqtt (fold (sub_step demo_lib subscription_config_default demo_routes) ?evs
       \<lparr>sl_publishers = sub_publishers ''plc'' demo_routes, sl_mqtt = demo_mqtt, sl_done = False\<rparr>)) =
     mq_sent demo_mqtt @ xs" "xs \<in> shuffles out others"
    by blast
  ultimately show ?thesis
    by (intro exI [of _ xs] exI [of _ others] conjI exI [of _ out]) (simp_all only: append_Nil)
qed

end
