(* ===== verification/Delivery.thy ===== *)
theory Delivery
  imports Batching
begin

text \<open>
  From what a device type says to what is published: an entry of a resolved plan
  (\<open>crates/mapping/src/resolve.rs\<close>), the reader that delivers its node
  (\<open>crates/gateway/src/server_task.rs\<close>) and the readings of its publisher.
\<close>

section \<open>An entry keeps its actions and its mode\<close>

lemma group_node_actions:
  assumes "en \<in> set es" "entry_key en = Some k" "a \<in> set (en_actions en)"
  shows "a \<in> set (rn_actions (group_node lib es k))"
  using assms by (auto simp: group_node_def Let_def)

lemma entry_node:
  assumes "en \<in> set (pl_entries p)" "en_node_ref en = Known i"
  obtains n where "n \<in> set (rm_nodes (finish lib p))" "rn_node_id n = i"
    "read_schedule_of (rn_delivery n) = read_schedule_of (en_delivery en)"
    "set (en_actions en) \<subseteq> set (rn_actions n)"
proof -
  obtain k where k: "entry_key en = Some k" using assms(2) by (auto simp: entry_key_def)
  let ?n = "group_node lib (pl_entries p) k"
  have "k \<in> set (filter_map entry_key (pl_entries p))"
    using assms(1) k by (auto simp: set_filter_map)
  then have "?n \<in> set (rm_nodes (finish lib p))" by (simp add: finish_def finish_entries)
  moreover have key: "node_key ?n = k"
    using assms(1) k by (intro group_node_key) (auto simp: set_filter_map)
  moreover have "rn_node_id ?n = i" "node_read_schedule ?n = read_schedule_of (en_delivery en)"
    using key k assms(2) by (auto simp: node_key_def entry_key_def)
  moreover have "set (en_actions en) \<subseteq> set (rn_actions ?n)"
    using group_node_actions [OF assms(1) k] by blast
  ultimately show thesis using that [of ?n] by (simp add: node_schedule_of)
qed

lemma typed_readings_member:
  assumes "(n, v) \<in> set nvs" "\<not> is_bad lib v" "Measurement c \<in> set (rn_actions n)"
    and "measurement_type c = Some ty"
  shows "(c, rn_node_id_str n, v) \<in> set (readings_of lib ty nvs)"
proof -
  have "typed_reading n v (Measurement c) = Some (ty, (c, rn_node_id_str n, v))"
    using assms(4) by (simp add: typed_reading_def)
  with assms(3) have "(ty, (c, rn_node_id_str n, v)) \<in>
      set (filter_map (typed_reading n v) (rn_actions n))"
    by (auto simp: set_filter_map)
  with assms(1, 2) have "(ty, (c, rn_node_id_str n, v)) \<in> set (typed_readings lib nvs)"
    unfolding typed_readings_def by force
  then show ?thesis by (force simp: readings_of_def of_type_def)
qed

section \<open>A measurement reaches its message\<close>



end
