(* ===== verification/Operations.thy ===== *)
theory Operations
  imports Config Mqtt
begin

text \<open>
  Answering Cumulocity operations: \<open>crates/gateway/src/operations.rs\<close>. \<open>handle_operation\<close> is the
  body of the loop for one incoming message; \<open>parse\<close> is \<open>serde_json::from_slice\<close>, which yields
  values with their members in key order.
\<close>

definition envelope_fields :: "string list" where
  "envelope_fields =
     [''id'', ''status'', ''deviceId'', ''agentId'', ''creationTime'', ''description'',
      ''delivery'', ''externalSource'', ''self'', ''failureReason'']"

definition operation_fragment :: "json \<Rightarrow> string option" where
  "operation_fragment op =
     Option.bind (as_object op) (\<lambda>m. find (\<lambda>k. k \<notin> set envelope_fields) (map fst m))"

text \<open>\<open>str::replace\<close> of one character.\<close>

definition replace_char :: "char \<Rightarrow> string \<Rightarrow> string \<Rightarrow> string" where
  "replace_char c r s = concat (map (\<lambda>x. if x = c then r else [x]) s)"

definition quote :: char where
  "quote = CHR 0x22"

definition smartrest_field :: "string \<Rightarrow> string" where
  "smartrest_field v = [quote] @ replace_char quote [quote, quote] v @ [quote]"

definition failure_record :: "string \<Rightarrow> string \<Rightarrow> string" where
  "failure_record fragment reason = ''502,'' @ fragment @ '','' @ smartrest_field reason"

definition handle_operation ::
    "config \<Rightarrow> (string \<Rightarrow> json option) \<Rightarrow> server_config list \<Rightarrow> incoming_message \<Rightarrow> mqtt \<Rightarrow> mqtt" where
  "handle_operation c parse cloud im m =
     (if im_topic im \<noteq> c8y_operation_topic then m
      else case parse (im_payload im) of
        None \<Rightarrow> m
      | Some op \<Rightarrow>
          (if jget_str ''status'' op \<noteq> Some ''PENDING'' then m
           else case Option.bind (jget ''externalSource'' op) (jget_str ''externalId'') of
             None \<Rightarrow> m
           | Some ext \<Rightarrow>
               (if \<not> (ext = gateway_external_id (cf_gateway c) \<or>
                      list_ex (\<lambda>s. sc_external_id s = Some ext) cloud)
                then m
                else case operation_fragment op of
                       None \<Rightarrow> m
                     | Some fragment \<Rightarrow>
                         (let reason = fragment @ '' is not implemented by c8y-opcua-gateway-rs'' in
                          snd (publish_smartrest ext (failure_record fragment reason) m)))))"

section \<open>Which operations are answered\<close>

text \<open>An operation that waits for one of our objects, with the fragment naming what it asks for.\<close>

definition waits_for_us ::
    "config \<Rightarrow> server_config list \<Rightarrow> json \<Rightarrow> string \<Rightarrow> string \<Rightarrow> bool" where
  "waits_for_us c cloud op ext fragment \<longleftrightarrow>
     jget_str ''status'' op = Some ''PENDING'' \<and>
     Option.bind (jget ''externalSource'' op) (jget_str ''externalId'') = Some ext \<and>
     (ext = gateway_external_id (cf_gateway c) \<or>
        (\<exists>s \<in> set cloud. sc_external_id s = Some ext)) \<and>
     operation_fragment op = Some fragment"

definition answered ::
    "config \<Rightarrow> (string \<Rightarrow> json option) \<Rightarrow> server_config list \<Rightarrow> incoming_message \<Rightarrow> message option" where
  "answered c parse cloud im =
     (if im_topic im = c8y_operation_topic
      then (case parse (im_payload im) of
              None \<Rightarrow> None
            | Some op \<Rightarrow>
                (case (Option.bind (jget ''externalSource'' op) (jget_str ''externalId''),
                       operation_fragment op) of
                   (Some ext, Some fragment) \<Rightarrow>
                     (if waits_for_us c cloud op ext fragment
                      then Some \<lparr>ms_topic = ''c8y/s/us/'' @ ext,
                                 ms_body = TextBody (failure_record fragment
                                   (fragment @ '' is not implemented by c8y-opcua-gateway-rs'')),
                                 ms_retain = False\<rparr>
                      else None)
                 | _ \<Rightarrow> None))
      else None)"

lemma handle_operation_sent:
  assumes "\<And>n. mq_accepts m n"
  shows "mq_sent (handle_operation c parse cloud im m) =
      mq_sent m @ (case answered c parse cloud im of None \<Rightarrow> [] | Some x \<Rightarrow> [x])"
  using assms
  by (auto simp: handle_operation_def answered_def waits_for_us_def publish_smartrest_def
      client_publish_def smartrest_topic_def Let_def list_ex_iff
      split: option.splits if_splits)

lemma handle_operation_accepts:
  "mq_accepts (handle_operation c parse cloud im m) = mq_accepts m"
  by (simp add: handle_operation_def publish_smartrest_def Let_def split: option.splits)

text \<open>
  Of all the messages that arrive, exactly the pending operations addressed to the gateway or
  to a server it adopted are answered, in order, each once and as failed with a reason; operations
  of other devices are never touched.
\<close>

theorem own_operations_failed:
  assumes "\<And>n. mq_accepts m n"
  shows "mq_sent (fold (handle_operation c parse cloud) ims m) =
    mq_sent m @ filter_map (answered c parse cloud) ims"
  using assms
proof (induction ims arbitrary: m)
  case Nil
  then show ?case by simp
next
  case (Cons im ims)
  have "\<And>n. mq_accepts (handle_operation c parse cloud im m) n"
    using Cons.prems by (simp add: handle_operation_accepts)
  from Cons.IH [OF this] handle_operation_sent [OF Cons.prems] show ?case
    by (simp split: option.splits)
qed

definition demo_operation :: json where
  "demo_operation =
     json_object
       [(''status'', JStr ''PENDING''), (''c8y_OpcuaConfiguration'', JObj []),
        (''externalSource'',
           json_object [(''externalId'', JStr ''tedge001:device:opcua-gateway'')])]"

lemma own_operations_failed_witness:
  "map ms_topic (mq_sent (fold (handle_operation demo_config (\<lambda>_. Some demo_operation) [])
     [\<lparr>im_topic = c8y_operation_topic, im_payload = []\<rparr>] demo_mqtt)) =
   [''c8y/s/us/tedge001:device:opcua-gateway'']"
proof -
  have "\<And>n. mq_accepts demo_mqtt n" by (simp add: demo_mqtt_def mqtt_new_def Let_def)
  note run = own_operations_failed [OF this]
  have "map ms_topic (mq_sent demo_mqtt @ filter_map
      (answered demo_config (\<lambda>_. Some demo_operation) [])
      [\<lparr>im_topic = c8y_operation_topic, im_payload = []\<rparr>]) =
    [''c8y/s/us/tedge001:device:opcua-gateway'']"
    by code_simp
  then show ?thesis by (simp only: run)
qed

section \<open>The failure record\<close>

text \<open>
  How SmartREST reads a record: fields separated by commas, a field in quotes up to the closing
  one, where two quotes stand for one.
\<close>

fun read_quoted :: "string \<Rightarrow> (string \<times> string) option" where
  "read_quoted [] = None"
| "read_quoted (c # cs) =
     (if c = quote then
        (case cs of
           [] \<Rightarrow> Some ([], [])
         | d # ds \<Rightarrow>
             (if d = quote then map_option (\<lambda>(f, r). (quote # f, r)) (read_quoted ds)
              else Some ([], d # ds)))
      else map_option (\<lambda>(f, r). (c # f, r)) (read_quoted cs))"

lemma read_quoted_field:
  "read_quoted (replace_char quote [quote, quote] v @ [quote]) = Some (v, [])"
  by (induction v) (auto simp: replace_char_def)

definition read_record :: "string \<Rightarrow> string list option" where
  "read_record s =
     Option.bind (split_once CHR '','' s) (\<lambda>(f1, r1).
     Option.bind (split_once CHR '','' r1) (\<lambda>(f2, r2).
     case r2 of
       [] \<Rightarrow> Some [f1, f2, []]
     | c # cs \<Rightarrow>
         (if c = quote
          then Option.bind (read_quoted cs) (\<lambda>(f3, r3). if r3 = [] then Some [f1, f2, f3] else None)
          else None)))"

text \<open>
  C36. The failure record survives the trip: whatever the reason holds, quotes and commas included,
  SmartREST reads back the template number, the operation and the reason, provided the name of
  the operation has no comma.
\<close>

theorem failure_record_roundtrip:
  assumes "CHR '','' \<notin> set fragment"
  shows "read_record (failure_record fragment reason) = Some [''502'', fragment, reason]"
proof -
  have "split_once CHR '','' (failure_record fragment reason) =
      Some (''502'', fragment @ '','' @ smartrest_field reason)"
    by (simp add: failure_record_def)
  moreover have "split_once CHR '','' (fragment @ '','' @ smartrest_field reason) =
      Some (fragment, smartrest_field reason)"
    using assms by (simp add: split_once_Some)
  ultimately show ?thesis
    by (simp add: read_record_def smartrest_field_def read_quoted_field)
qed

lemma failure_record_roundtrip_witness:
  "read_record (failure_record ''c8y_Restart'' ''no, not now'') = Some [''502'', ''c8y_Restart'', ''no, not now'']"
  by (rule failure_record_roundtrip) simp

end
