(* ===== verification/Main_Wiring.thy ===== *)
theory Main_Wiring
  imports Gateway_Device Operations
begin

text \<open>
  Startup: \<open>main\<close> and \<open>run\<close> of \<open>crates/gateway/src/main.rs\<close>, up to the point where the process waits
  for a signal. Arguments stand for the package version, the process id, the clock, what loading the
  configuration returned and whether the proxy client could be built.
\<close>

definition mqtt_reconnect_delay :: nat where
  "mqtt_reconnect_delay = 5"

definition incoming_capacity :: nat where
  "incoming_capacity = 64"

record cli =
  cli_config :: "string option"
  cli_log :: "string option"
  cli_check :: bool

datatype loop_name = MqttLoop | DeviceTypesLoop | CloudServersLoop | OperationsLoop | SupervisorLoop

datatype start_error = CannotRegisterService mqtt_error | CannotPublishHealth mqtt_error

record started =
  st_mqtt :: mqtt
  st_event_loop :: event_loop
  st_subscriptions :: "string list"
  st_loops :: "loop_name list"

definition main_subscriptions :: "config \<Rightarrow> string list" where
  "main_subscriptions c =
     (if gc_enabled (cf_gateway c) then [c8y_operation_topic] else [])"

definition main_event_loop :: "mqtt \<Rightarrow> event_loop" where
  "main_event_loop m =
     \<lparr>el_mqtt = m, el_connected = False, el_forwards = True, el_capacity = incoming_capacity,
      el_queue = [], el_done = False\<rparr>"

definition usable_proxy :: "config \<Rightarrow> (proxy_config \<Rightarrow> proxy_error + string) \<Rightarrow> bool" where
  "usable_proxy c build \<longleftrightarrow>
     pc_enabled (cf_proxy c) \<and> \<not> isl (build (to_proxy_config (cf_proxy c)))"

definition main_loops :: "config \<Rightarrow> bool \<Rightarrow> loop_name list" where
  "main_loops c proxy =
     [MqttLoop, DeviceTypesLoop] @
     (if gc_enabled (cf_gateway c) \<and> proxy then [CloudServersLoop, OperationsLoop] else []) @
     [SupervisorLoop]"

definition run_gateway ::
    "string \<Rightarrow> u32 \<Rightarrow> u64 \<Rightarrow> (proxy_config \<Rightarrow> proxy_error + string) \<Rightarrow> (nat \<Rightarrow> bool) \<Rightarrow> config \<Rightarrow>
     start_error + started" where
  "run_gateway version pid time build accepts c =
     (let m = fst (mqtt_new (mqc_service_name (cf_mqtt c)) accepts) in
      case register_service m of
        (Inl e, _) \<Rightarrow> Inl (CannotRegisterService e)
      | (Inr _, m) \<Rightarrow>
          (case publish_health_up pid time m of
             (Inl e, _) \<Rightarrow> Inl (CannotPublishHealth e)
           | (Inr _, m) \<Rightarrow>
               (let m = (if gc_enabled (cf_gateway c)
                         then register_gateway version (cf_gateway c) m else m) in
                Inr \<lparr>st_mqtt = m, st_event_loop = main_event_loop m,
                     st_subscriptions = main_subscriptions c,
                     st_loops = main_loops c (usable_proxy c build)\<rparr>)))"

datatype main_outcome =
    ConfigRejected config_error
  | ConfigValid
  | StartFailed start_error
  | Serving nat started

definition main_run ::
    "cli \<Rightarrow> (string option \<Rightarrow> config_error + config) \<Rightarrow> (config \<Rightarrow> start_error + started) \<Rightarrow>
     main_outcome" where
  "main_run args load run =
     (case load (cli_config args) of
        Inl e \<Rightarrow> ConfigRejected e
      | Inr c \<Rightarrow>
          (if cli_check args then ConfigValid
           else case run c of
                  Inl e \<Rightarrow> StartFailed e
                | Inr st \<Rightarrow> Serving (rc_worker_threads (cf_runtime c)) st))"

section \<open>What is said before anything runs\<close>

text \<open>The messages of a startup, and the topics they go to.\<close>

definition startup_topics :: "config \<Rightarrow> string list" where
  "startup_topics c =
     (let service = main_service (mqc_service_name (cf_mqtt c));
          entity = gateway_entity (cf_gateway c) in
      [registration_topic service, channel_topic service ''status/health''] @
      (if gc_enabled (cf_gateway c)
       then registration_topic entity #
         map (\<lambda>f. channel_topic entity (''twin/'' @ f))
           [''c8y_IsDevice'', ''c8y_SupportedOperations'', ''c8y_Firmware'']
       else []))"

lemma client_publish_accepted:
  assumes "\<And>n. mq_accepts m n"
  shows "client_publish topic retain b m =
    (Inr (), m\<lparr>mq_calls := mq_calls m + 1,
               mq_sent := mq_sent m @ [\<lparr>ms_topic = topic, ms_body = b, ms_retain = retain\<rparr>]\<rparr>)"
  using assms by (simp add: client_publish_def Let_def)

lemma run_gateway_accepted:
  assumes "\<And>n. accepts n"
  shows "\<exists>st. run_gateway version pid time build accepts c = Inr st \<and>
    map ms_topic (mq_sent (st_mqtt st)) = startup_topics c \<and>
    list_all ms_retain (mq_sent (st_mqtt st)) \<and>
    st_subscriptions st = main_subscriptions c \<and>
    st_loops st = main_loops c (usable_proxy c build)"
  using assms
  by (auto simp: run_gateway_def mqtt_new_def register_service_def publish_health_up_def
      publish_defs client_publish_accepted register_gateway_def gateway_fragments_def
      startup_topics_def Let_def)

text \<open>
  Startup says who is there before anything else runs: the service, its health and, with the
  gateway device, the gateway and its three fragments, in this order and retained. Operations are
  subscribed to exactly with the gateway device, and answered exactly when the proxy is usable too.
\<close>

theorem startup_order:
  assumes "\<And>n. accepts n"
  shows "\<exists>st. run_gateway version pid time build accepts c = Inr st \<and>
    map ms_topic (mq_sent (st_mqtt st)) = startup_topics c \<and>
    list_all ms_retain (mq_sent (st_mqtt st)) \<and>
    st_subscriptions st = (if gc_enabled (cf_gateway c) then [c8y_operation_topic] else []) \<and>
    set (st_loops st) = {MqttLoop, DeviceTypesLoop, SupervisorLoop} \<union>
      (if gc_enabled (cf_gateway c) \<and> usable_proxy c build
       then {CloudServersLoop, OperationsLoop} else {})"
  using run_gateway_accepted [of accepts version pid time build c, OF assms]
  by (auto simp: main_subscriptions_def main_loops_def)

lemma startup_order_witness:
  "\<exists>st. run_gateway ''0.1.0'' 1 0 (\<lambda>p. Inr (px_base_url p)) (\<lambda>_. True) demo_config = Inr st \<and>
     map ms_topic (mq_sent (st_mqtt st)) =
       [''te/device/main/service/opcua-gateway'',
        ''te/device/main/service/opcua-gateway/status/health'',
        ''te/device/opcua-gateway//'', ''te/device/opcua-gateway///twin/c8y_IsDevice'',
        ''te/device/opcua-gateway///twin/c8y_SupportedOperations'',
        ''te/device/opcua-gateway///twin/c8y_Firmware'']"
proof -
  have "startup_topics demo_config =
      [''te/device/main/service/opcua-gateway'',
       ''te/device/main/service/opcua-gateway/status/health'',
       ''te/device/opcua-gateway//'', ''te/device/opcua-gateway///twin/c8y_IsDevice'',
       ''te/device/opcua-gateway///twin/c8y_SupportedOperations'',
       ''te/device/opcua-gateway///twin/c8y_Firmware'']"
    by code_simp
  with startup_order [of "\<lambda>_. True" "''0.1.0''" 1 0 "\<lambda>p. Inr (px_base_url p)" demo_config]
  show ?thesis by auto
qed

text \<open>
  Startup fails exactly when the service registration or the first health message is not
  accepted, with the error of the first that is not. A gateway device that cannot be registered and
  a proxy that cannot be used never keep the gateway from starting.
\<close>

theorem startup_errors:
  "run_gateway version pid time build accepts c = Inl e \<longleftrightarrow>
     (let service = main_service (mqc_service_name (cf_mqtt c)) in
      \<not> accepts 0 \<and> e = CannotRegisterService (PublishFailed (registration_topic service)) \<or>
      accepts 0 \<and> \<not> accepts 1 \<and>
        e = CannotPublishHealth (PublishFailed (channel_topic service ''status/health'')))"
  by (auto simp: run_gateway_def mqtt_new_def register_service_def publish_health_up_def
      publish_retained_def publish_def client_publish_def Let_def)

text \<open>
  With the gateway device and without a usable proxy, \<open>c8y_SupportedOperations\<close> is published and the
  operation topic subscribed to, but no loop answers operations.
\<close>

lemma operations_left_pending:
  assumes "\<And>n. accepts n" "gc_enabled (cf_gateway c)" "\<not> usable_proxy c build"
  shows "\<exists>st. run_gateway version pid time build accepts c = Inr st \<and>
    channel_topic (gateway_entity (cf_gateway c)) ''twin/c8y_SupportedOperations''
      \<in> ms_topic ` set (mq_sent (st_mqtt st)) \<and>
    st_subscriptions st = [c8y_operation_topic] \<and> OperationsLoop \<notin> set (st_loops st)"
proof -
  obtain st where st: "run_gateway version pid time build accepts c = Inr st"
    "map ms_topic (mq_sent (st_mqtt st)) = startup_topics c"
    "st_subscriptions st = main_subscriptions c" "st_loops st = main_loops c False"
    using run_gateway_accepted [of accepts version pid time build c, OF assms(1)] assms(3) by auto
  have "ms_topic ` set (mq_sent (st_mqtt st)) = set (startup_topics c)"
    using st(2) by (metis set_map)
  with st assms(2) show ?thesis
    by (auto simp: startup_topics_def main_subscriptions_def main_loops_def Let_def)
qed

section \<open>The whole of \<open>main\<close>\<close>

text \<open>
  The process serves only with a configuration that passed validation, so the runtime is never
  built with no worker threads; and a check never starts anything.
\<close>

lemma load_config_validates:
  assumes "load_config missing extracted parse dir output dir_exists = Inr c"
  shows "validate dir_exists c = Inr ()"
  using assms by (auto simp: load_config_def Let_def split: option.splits sum.splits if_splits)

lemma serving_is_configured:
  assumes "main_run args (\<lambda>path. load_config (missing path) (extracted path) parse dir output ok) run =
    Serving n st"
  shows "0 < n \<and> \<not> cli_check args"
proof -
  obtain c where c: "load_config (missing (cli_config args)) (extracted (cli_config args)) parse dir
      output ok = Inr c"
    "n = rc_worker_threads (cf_runtime c)" "\<not> cli_check args"
    using assms by (auto simp: main_run_def split: sum.splits if_splits)
  from load_config_validates [OF c(1)] c(2, 3) show ?thesis by (simp add: validate_ok)
qed

end
