(* ===== verification/Incoming.thy ===== *)
theory Incoming
  imports Main_Wiring
begin

text \<open>
  Operations from the broker to their answer: the event loop of \<open>crates/tedge/src/mqtt.rs\<close> forwards
  incoming messages into the bounded channel \<open>main\<close> creates, and \<open>run\<close> of
  \<open>crates/gateway/src/operations.rs\<close> takes them out. Both use the same client.
\<close>

text \<open>One step of the two loops; \<open>Handled\<close> is one turn of the operation loop.\<close>

definition ops_step ::
    "config \<Rightarrow> (string \<Rightarrow> json option) \<Rightarrow> server_config list \<Rightarrow> string list \<Rightarrow> mqtt_event \<Rightarrow>
     event_loop \<Rightarrow> event_loop" where
  "ops_step c parse cloud subs ev l =
     (case (ev, el_queue l) of
        (Handled, im # _) \<Rightarrow>
          (let l' = event_step subs ev l in
           if el_done l then l'
           else l'\<lparr>el_mqtt := handle_operation c parse cloud im (el_mqtt l')\<rparr>)
      | _ \<Rightarrow> event_step subs ev l)"

definition run_ops ::
    "config \<Rightarrow> (string \<Rightarrow> json option) \<Rightarrow> server_config list \<Rightarrow> string list \<Rightarrow> mqtt_event list \<Rightarrow>
     event_loop \<Rightarrow> event_loop" where
  "run_ops c parse cloud subs evs l = fold (ops_step c parse cloud subs) evs l"

text \<open>What arrived, what the channel had room for, and what was taken out of it.\<close>

fun offered :: "mqtt_event \<Rightarrow> incoming_message option" where
  "offered (Incoming im) = Some im"
| "offered _ = None"

fun is_handled :: "mqtt_event \<Rightarrow> bool" where
  "is_handled Handled = True"
| "is_handled _ = False"

definition arrived :: "mqtt_event list \<Rightarrow> incoming_message list" where
  "arrived evs = filter_map offered evs"

definition admitted :: "nat \<Rightarrow> nat \<Rightarrow> mqtt_event list \<Rightarrow> incoming_message list" where
  "admitted cap n evs = room_for offered is_handled cap n evs"

text \<open>A connection that is up, its client accepting every publish.\<close>

definition serving :: "event_loop \<Rightarrow> bool" where
  "serving l \<longleftrightarrow> \<not> el_done l \<and> el_forwards l \<and> mq_accepts (el_mqtt l) = (\<lambda>_. True)"

lemma resubscribe_frame [simp]:
  "mq_sent (resubscribe subs m) = mq_sent m"
  "mq_accepts (resubscribe subs m) = mq_accepts m"
proof -
  have "mq_sent (resubscribe subs m) = mq_sent m \<and> mq_accepts (resubscribe subs m) = mq_accepts m"
    unfolding resubscribe_def
    by (induction subs arbitrary: m) (simp_all add: subscribe_def Let_def)
  then show "mq_sent (resubscribe subs m) = mq_sent m"
    and "mq_accepts (resubscribe subs m) = mq_accepts m" by simp_all
qed

lemma ops_step_serving:
  assumes "serving l" "ev \<noteq> Cancelled"
  shows "serving (ops_step c parse cloud subs ev l)"
  using assms
  by (cases ev; cases "el_queue l")
    (auto simp: serving_def ops_step_def Let_def handle_operation_accepts)

definition forwarding :: "nat \<Rightarrow> event_loop \<Rightarrow> bool" where
  "forwarding cap l \<longleftrightarrow> \<not> el_done l \<and> el_forwards l \<and> el_capacity l = cap"

lemma ops_step_forwarding:
  "forwarding cap (ops_step c parse cloud subs ev l) \<longleftrightarrow> forwarding cap l \<and> ev \<noteq> Cancelled"
  by (cases ev; cases "el_queue l") (auto simp: forwarding_def ops_step_def Let_def)

interpretation operation_queue: piping "ops_step c parse cloud subs" el_queue offered is_handled cap
    "forwarding cap" for c parse cloud subs cap
proof
  fix ev and l :: event_loop and im
  assume live: "forwarding cap (ops_step c parse cloud subs ev l)"
  then have now: "forwarding cap l" "ev \<noteq> Cancelled" by (simp_all add: ops_step_forwarding)
  show "forwarding cap l" by (rule now)
  show "el_queue (ops_step c parse cloud subs ev l) =
      (if length (el_queue l) < cap then el_queue l @ [im] else el_queue l)"
    if "offered ev = Some im"
    using now that by (cases ev) (auto simp: forwarding_def ops_step_def)
  show "el_queue (ops_step c parse cloud subs ev l) =
      (if is_handled ev then tl (el_queue l) else el_queue l)" if "offered ev = None"
    using now that
    by (cases ev; cases "el_queue l") (auto simp: forwarding_def ops_step_def Let_def)
qed (auto elim: is_handled.elims)

lemma run_forwarding:
  "Cancelled \<notin> set evs \<Longrightarrow> forwarding cap l \<Longrightarrow> forwarding cap (run_ops c parse cloud subs evs l)"
  unfolding run_ops_def
  by (induction evs arbitrary: l) (auto simp: ops_step_forwarding)

lemma ops_step_sent:
  assumes "serving l"
  shows "mq_sent (el_mqtt (ops_step c parse cloud subs ev l)) = mq_sent (el_mqtt l) @
    filter_map (answered c parse cloud) (if is_handled ev then take 1 (el_queue l) else [])"
  using assms handle_operation_sent [of "el_mqtt l" c parse cloud]
  by (cases ev; cases "el_queue l")
    (auto simp: ops_step_def serving_def Let_def split: option.splits)

lemma run_ops_sent:
  assumes "serving l" "Cancelled \<notin> set evs"
  shows "mq_sent (el_mqtt (run_ops c parse cloud subs evs l)) = mq_sent (el_mqtt l) @
    filter_map (answered c parse cloud)
      (taken_by (ops_step c parse cloud subs) el_queue is_handled evs l)"
  using assms unfolding run_ops_def
proof (induction evs arbitrary: l)
  case (Cons ev evs)
  have "serving (ops_step c parse cloud subs ev l)"
    using Cons.prems by (intro ops_step_serving) auto
  with Cons.IH [of "ops_step c parse cloud subs ev l"] Cons.prems
    ops_step_sent [OF Cons.prems(1), of c parse cloud subs ev] show ?case by simp
qed simp

text \<open>
  C12. Operations are answered in the order they arrive: while the connection lasts, what the
  operation loop has taken and what still waits is, in order, what the channel had room for, every
  message taken is answered once if it is a pending operation of the gateway or of one of its
  servers, and nothing else is sent. As long as no more than 64 messages arrive before they
  are taken, none is dropped.
\<close>

theorem operations_answered_in_order:
  assumes "Cancelled \<notin> set evs" "\<And>n. mq_accepts m n" "mq_sent m = []"
    and "l = run_ops c parse cloud (main_subscriptions c) evs (main_event_loop m)"
  shows "\<exists>taken.
    taken @ el_queue l = admitted incoming_capacity 0 evs \<and>
    mq_sent (el_mqtt l) = filter_map (answered c parse cloud) taken \<and>
    length (el_queue l) \<le> 64 \<and>
    (length (arrived evs) \<le> 64 \<longrightarrow> taken @ el_queue l = arrived evs)"
proof -
  let ?l = "main_event_loop m"
  have "mq_accepts m = (\<lambda>_. True)" using assms(2) by auto
  then have sent: "mq_sent (el_mqtt l) = filter_map (answered c parse cloud)
      (taken_by (ops_step c parse cloud (main_subscriptions c)) el_queue is_handled evs ?l)"
    using run_ops_sent [of ?l evs c parse cloud "main_subscriptions c"] assms(1, 3, 4)
    by (simp add: serving_def main_event_loop_def)
  have "forwarding 64 l"
    using run_forwarding [OF assms(1)] assms(4)
    by (simp add: forwarding_def main_event_loop_def incoming_capacity_def)
  then have live: "forwarding 64 (fold (ops_step c parse cloud (main_subscriptions c)) evs ?l)"
    by (simp add: assms(4) run_ops_def)
  have start: "el_queue ?l = []" by (simp add: main_event_loop_def)
  from operation_queue.queue_run [OF live] operation_queue.queue_bounded [OF live] sent assms(4)
    room_for_all [of 0 offered evs 64 is_handled]
  show ?thesis
    by (intro exI conjI impI)
      (simp_all add: start run_ops_def admitted_def arrived_def incoming_capacity_def)
qed

definition demo_incoming :: incoming_message where
  "demo_incoming = \<lparr>im_topic = c8y_operation_topic, im_payload = []\<rparr>"

definition demo_ops_loop :: event_loop where
  "demo_ops_loop = run_ops demo_config (\<lambda>_. Some demo_operation) [] (main_subscriptions demo_config)
     [ConnAck, Incoming demo_incoming, Incoming demo_incoming, Handled]
     (main_event_loop demo_mqtt)"

lemma operations_answered_in_order_witness:
  "\<exists>taken. taken @ el_queue demo_ops_loop = [demo_incoming, demo_incoming] \<and>
     mq_sent (el_mqtt demo_ops_loop) =
       filter_map (answered demo_config (\<lambda>_. Some demo_operation) []) taken"
proof -
  have "\<And>n. mq_accepts demo_mqtt n" "mq_sent demo_mqtt = []"
    by (simp_all add: demo_mqtt_def mqtt_new_def Let_def)
  from operations_answered_in_order [OF _ this demo_ops_loop_def] show ?thesis
    by (auto simp: arrived_def)
qed

end
