(* ===== verification/Notifications.thy ===== *)
theory Notifications
  imports Subscribing
begin

text \<open>
  Notifications from the callback of \<open>create_subscription\<close> (\<open>crates/opcua-conn/src/lib.rs\<close>) through the
  bounded channel that \<open>start_subscription\<close> creates to the subscription loop
  (\<open>crates/gateway/src/server_task.rs\<close>): the two ends run one step at a time, in any order.
\<close>

section \<open>The channel and its two ends\<close>

record feed =
  fd_notifier :: notifier
  fd_loop :: sub_loop
  fd_session_gone :: bool

datatype feed_event =
    Arrives nat data_change
  | LoopReceives
  | LoopTicks
  | LoopCancelled
  | SessionGone

definition feed_start :: "subscription_config \<Rightarrow> string \<Rightarrow> routes \<Rightarrow> mqtt \<Rightarrow> nat \<Rightarrow> feed" where
  "feed_start c server_id routes m now =
     \<lparr>fd_notifier =
        \<lparr>no_dropped = 0, no_last_report = now, no_capacity = sb_channel_capacity c, no_queue = [],
         no_reports = []\<rparr>,
      fd_loop =
        \<lparr>sl_publishers = sub_publishers server_id routes, sl_mqtt = m, sl_done = False\<rparr>,
      fd_session_gone = False\<rparr>"

text \<open>A loop that has returned has dropped its receiver: what waits is lost and no send succeeds.\<close>

definition close_receiver :: "feed \<Rightarrow> feed" where
  "close_receiver f = f\<lparr>fd_notifier := fd_notifier f\<lparr>no_capacity := 0, no_queue := []\<rparr>\<rparr>"

definition feed_step ::
    "opc_lib \<Rightarrow> subscription_config \<Rightarrow> routes \<Rightarrow> feed_event \<Rightarrow> feed \<Rightarrow> feed" where
  "feed_step lib c routes ev f =
     (let turn = (\<lambda>sev. sub_step lib c routes sev (fd_loop f)) in
      case ev of
        Arrives now change \<Rightarrow>
          f\<lparr>fd_notifier := notify_step (Notify now change) (fd_notifier f)\<rparr>
      | LoopReceives \<Rightarrow>
          (case no_queue (fd_notifier f) of
             change # _ \<Rightarrow>
               f\<lparr>fd_notifier := notify_step Taken (fd_notifier f), fd_loop := turn (Change change)\<rparr>
           | [] \<Rightarrow> (if fd_session_gone f then close_receiver (f\<lparr>fd_loop := turn Closed\<rparr>) else f))
      | LoopTicks \<Rightarrow> f\<lparr>fd_loop := turn FlushTick\<rparr>
      | LoopCancelled \<Rightarrow> close_receiver (f\<lparr>fd_loop := turn SubCancel\<rparr>)
      | SessionGone \<Rightarrow> f\<lparr>fd_session_gone := True\<rparr>)"

definition run_feed ::
    "opc_lib \<Rightarrow> subscription_config \<Rightarrow> routes \<Rightarrow> feed_event list \<Rightarrow> feed \<Rightarrow> feed" where
  "run_feed lib c routes evs f = fold (feed_step lib c routes) evs f"

section \<open>What passes through\<close>

fun notified :: "feed_event \<Rightarrow> data_change option" where
  "notified (Arrives _ change) = Some change"
| "notified _ = None"

fun receives :: "feed_event \<Rightarrow> bool" where
  "receives LoopReceives = True"
| "receives _ = False"

fun change_of :: "sub_event \<Rightarrow> data_change option" where
  "change_of (Change change) = Some change"
| "change_of _ = None"

text \<open>The turns of the loop in a run.\<close>

definition turn_of :: "feed_event \<Rightarrow> feed \<Rightarrow> sub_event list" where
  "turn_of ev f =
     (case ev of
        LoopReceives \<Rightarrow>
          (case no_queue (fd_notifier f) of
             change # _ \<Rightarrow> [Change change]
           | [] \<Rightarrow> (if fd_session_gone f then [Closed] else []))
      | LoopTicks \<Rightarrow> [FlushTick]
      | LoopCancelled \<Rightarrow> [SubCancel]
      | _ \<Rightarrow> [])"

fun turns :: "opc_lib \<Rightarrow> subscription_config \<Rightarrow> routes \<Rightarrow> feed_event list \<Rightarrow> feed \<Rightarrow> sub_event list" where
  "turns lib c routes [] f = []"
| "turns lib c routes (ev # evs) f =
     turn_of ev f @ turns lib c routes evs (feed_step lib c routes ev f)"

definition feeding :: "nat \<Rightarrow> feed \<Rightarrow> bool" where
  "feeding cap f \<longleftrightarrow> \<not> sl_done (fd_loop f) \<and> no_capacity (fd_notifier f) = cap"

lemma close_receiver_loop [simp]: "fd_loop (close_receiver f) = fd_loop f"
  by (simp add: close_receiver_def)

lemma feed_step_loop:
  "fd_loop (feed_step lib c routes ev f) = fold (sub_step lib c routes) (turn_of ev f) (fd_loop f)"
  by (simp add: feed_step_def turn_of_def Let_def split: feed_event.splits list.splits)

lemma run_feed_loop:
  "fd_loop (fold (feed_step lib c routes) evs f) =
     fold (sub_step lib c routes) (turns lib c routes evs f) (fd_loop f)"
  by (induction evs arbitrary: f) (simp_all add: feed_step_loop)

lemma turn_of_changes:
  "filter_map change_of (turn_of ev f) =
     (if receives ev then take 1 (no_queue (fd_notifier f)) else [])"
  by (simp add: turn_of_def split: feed_event.splits list.splits)

lemma turns_changes:
  "filter_map change_of (turns lib c routes evs f) =
     taken_by (feed_step lib c routes) (\<lambda>f. no_queue (fd_notifier f)) receives evs f"
  by (induction evs arbitrary: f) (simp_all add: turn_of_changes)

lemma sub_step_over: "sl_done l \<Longrightarrow> sub_step lib c routes sev l = l"
  by (simp add: sub_step_def)

lemma feeding_before:
  assumes "feeding cap (feed_step lib c routes ev f)"
  shows "feeding cap f" "ev \<noteq> LoopCancelled"
    "ev = LoopReceives \<Longrightarrow> no_queue (fd_notifier f) = [] \<Longrightarrow> \<not> fd_session_gone f"
proof -
  have "\<not> sl_done (fd_loop f)"
    using assms sub_step_over [of "fd_loop f"]
    by (auto simp: feeding_def feed_step_def Let_def split: feed_event.splits list.splits if_splits)
  with assms show "feeding cap f" "ev \<noteq> LoopCancelled"
    "ev = LoopReceives \<Longrightarrow> no_queue (fd_notifier f) = [] \<Longrightarrow> \<not> fd_session_gone f"
    using sub_step_done [of "fd_loop f" lib c routes]
    by (auto simp: feeding_def feed_step_def Let_def
        split: feed_event.splits list.splits if_splits)
qed

lemma run_feeding:
  assumes "\<not> sl_done (fd_loop (fold (feed_step lib c routes) evs f))"
    and "no_capacity (fd_notifier f) = cap"
  shows "feeding cap (fold (feed_step lib c routes) evs f)"
  using assms
proof (induction evs arbitrary: f)
  case (Cons ev evs)
  let ?f = "feed_step lib c routes ev f"
  have "\<not> sl_done (fd_loop ?f)"
    using Cons.prems(1) by (auto simp: run_feed_loop subscription.over_run)
  then have "no_capacity (fd_notifier ?f) = cap"
    using Cons.prems(2) sub_step_over [of "fd_loop f" lib c routes]
      sub_step_done [of "fd_loop f" lib c routes]
    by (cases ev; cases "sl_done (fd_loop f)")
      (auto simp: feed_step_def Let_def split: list.splits if_splits)
  with Cons show ?case by simp
qed (simp add: feeding_def)

interpretation notification_queue: piping "feed_step lib c routes" "\<lambda>f. no_queue (fd_notifier f)"
    notified receives cap "feeding cap" for lib c routes cap
proof
  fix ev and f :: feed and change
  assume "feeding cap (feed_step lib c routes ev f)"
  note now = feeding_before [OF this]
  show "feeding cap f" by (rule now)
  show "no_queue (fd_notifier (feed_step lib c routes ev f)) =
      (if length (no_queue (fd_notifier f)) < cap then no_queue (fd_notifier f) @ [change]
       else no_queue (fd_notifier f))" if "notified ev = Some change"
    using now(1) that by (cases ev) (auto simp: feed_step_def feeding_def Let_def)
  show "no_queue (fd_notifier (feed_step lib c routes ev f)) =
      (if receives ev then tl (no_queue (fd_notifier f)) else no_queue (fd_notifier f))"
    if "notified ev = None"
    using now that
    by (cases ev) (auto simp: feed_step_def Let_def split: list.splits)
qed (auto elim: receives.elims)

text \<open>Every notification is either let in or counted.\<close>

definition counted :: "feed \<Rightarrow> u64" where
  "counted f = no_dropped (fd_notifier f) + sum_list (no_reports (fd_notifier f))"

lemma feed_step_counted:
  assumes "feeding cap f"
  shows "counted (feed_step lib c routes ev f) = counted f +
    (if notified ev \<noteq> None \<and> \<not> length (no_queue (fd_notifier f)) < cap then 1 else 0)"
  using assms
  by (cases ev)
    (auto simp: counted_def feed_step_def feeding_def close_receiver_def Let_def split: list.splits)

lemma run_feed_counted:
  assumes "feeding cap (fold (feed_step lib c routes) evs f)"
  shows "counted (fold (feed_step lib c routes) evs f) +
      of_nat (length (room_for notified receives cap (length (no_queue (fd_notifier f))) evs)) =
    counted f + of_nat (length (filter_map notified evs))"
  using assms
proof (induction evs arbitrary: f)
  case (Cons ev evs)
  let ?f = "feed_step lib c routes ev f"
  have now: "feeding cap ?f"
    using Cons.prems by (auto dest: notification_queue.live_run)
  note f = feeding_before(1) [OF now]
  show ?case
  proof (cases "notified ev")
    case None
    with Cons.IH [of ?f] Cons.prems feed_step_counted [OF f, of lib c routes ev]
      notification_queue.queue_other [OF now None]
    show ?thesis by (simp split: if_splits)
  next
    case (Some change)
    with Cons.IH [of ?f] Cons.prems feed_step_counted [OF f, of lib c routes ev]
      notification_queue.queue_offer [OF now Some]
    show ?thesis by (auto simp: algebra_simps split: if_splits)
  qed
qed simp

section \<open>Notifications are published in order or counted\<close>

text \<open>
  C4. However the server's notifications, the ticks and the turns of the loop interleave, as long as
  the loop runs: what it was given followed by what still waits is, in order, what the channel had
  room for; every other notification is in the counts of dropped ones; and what the loop holds and
  has sent is what its specification makes of the values it was given. With no more notifications
  than the channel holds, none is dropped.
\<close>

theorem notifications_in_order:
  assumes "\<And>n. mq_accepts m n"
    and "f = run_feed lib c routes evs (feed_start c server_id routes m now)"
    and "\<not> sl_done (fd_loop f)"
  shows "\<exists>sevs. simulates lib m (fd_loop f)
      (spec_run lib c routes sevs (spec_init server_id routes)) \<and>
    filter_map change_of sevs @ no_queue (fd_notifier f) =
      room_for notified receives (sb_channel_capacity c) 0 evs \<and>
    length (no_queue (fd_notifier f)) \<le> sb_channel_capacity c \<and>
    counted f + of_nat (length (filter_map change_of sevs @ no_queue (fd_notifier f))) =
      of_nat (length (filter_map notified evs)) \<and>
    (length (filter_map notified evs) \<le> sb_channel_capacity c \<longrightarrow>
       filter_map change_of sevs @ no_queue (fd_notifier f) = filter_map notified evs)"
proof -
  let ?f = "feed_start c server_id routes m now" and ?cap = "sb_channel_capacity c"
  let ?sevs = "turns lib c routes evs ?f"
  have live: "feeding ?cap (fold (feed_step lib c routes) evs ?f)"
    using assms(2, 3) by (intro run_feeding) (simp_all add: run_feed_def feed_start_def)
  have start: "no_queue (fd_notifier ?f) = []" "counted ?f = 0"
    by (simp_all add: feed_start_def counted_def)
  have "simulates lib m (fd_loop f) (spec_run lib c routes ?sevs (spec_init server_id routes))"
    unfolding assms(2) run_feed_def run_feed_loop spec_run_def seen_def
    by (rule subscription.rel_run) (simp_all add: feed_start_def sub_start_simulates assms(1))
  moreover have queue: "filter_map change_of ?sevs @ no_queue (fd_notifier f) =
      room_for notified receives ?cap 0 evs"
    using notification_queue.queue_run [OF live] assms(2)
    by (simp add: turns_changes run_feed_def start)
  moreover have "length (no_queue (fd_notifier f)) \<le> ?cap"
    using notification_queue.queue_bounded [OF live] assms(2) by (simp add: run_feed_def start)
  moreover have "counted f + of_nat (length (room_for notified receives ?cap 0 evs)) =
      of_nat (length (filter_map notified evs))"
    using run_feed_counted [OF live] assms(2) by (simp add: run_feed_def start)
  moreover have "room_for notified receives ?cap 0 evs = filter_map notified evs"
    if "length (filter_map notified evs) \<le> ?cap"
    using room_for_all [of 0 notified evs ?cap receives] that by simp
  ultimately show ?thesis by (intro exI [of _ ?sevs]) (simp only: queue, simp)
qed

section \<open>Example\<close>

text \<open>A channel of one: the second notification finds it full.\<close>

definition demo_feed_events :: "feed_event list" where
  "demo_feed_events =
     [Arrives 1 (demo_change_of 1), Arrives 2 (demo_change_of 2), LoopReceives, LoopTicks]"

definition demo_feed :: feed where
  "demo_feed =
     (let c = subscription_config_default\<lparr>sb_channel_capacity := 1\<rparr> in
      run_feed demo_lib c demo_routes demo_feed_events (feed_start c ''plc'' demo_routes demo_mqtt 0))"

lemma notifications_in_order_witness:
  "(\<exists>sevs. filter_map change_of sevs = [demo_change_of 1]) \<and> counted demo_feed = 1"
proof -
  let ?c = "subscription_config_default\<lparr>sb_channel_capacity := 1\<rparr>"
  have m: "mq_accepts demo_mqtt n" for n by (simp add: demo_mqtt_def mqtt_new_def Let_def)
  have "\<not> sl_done (fd_loop demo_feed)" by code_simp
  from notifications_in_order [OF m demo_feed_def [unfolded Let_def] this] obtain sevs where
    sevs: "filter_map change_of sevs @ no_queue (fd_notifier demo_feed) =
      room_for notified receives (sb_channel_capacity ?c) 0 demo_feed_events"
    "counted demo_feed + of_nat (length (filter_map change_of sevs @ no_queue (fd_notifier demo_feed))) =
      of_nat (length (filter_map notified demo_feed_events))"
    by blast
  have "no_queue (fd_notifier demo_feed) = []" by code_simp
  with sevs show ?thesis by (auto simp: demo_feed_events_def)
qed

end
