(* ===== verification/Process.thy ===== *)
theory Process
  imports Gateway_System Main_Wiring
begin

text \<open>
  The process after startup: \<open>run\<close> of \<open>crates/gateway/src/main.rs\<close> from the point where it waits for a
  signal, with the loops it spawned and the system of the supervisor and its tasks.
\<close>

section \<open>States and steps\<close>

datatype os_signal = Interrupt | Terminate

text \<open>\<open>registered\<close> says whether a handler for \<open>SIGTERM\<close> could be installed.\<close>

definition shutdown_signal :: "bool \<Rightarrow> os_signal \<Rightarrow> bool" where
  "shutdown_signal registered sig \<longleftrightarrow> sig = Interrupt \<or> registered"

datatype main_phase = Serves | Stopping | Stopped bool

text \<open>
  \<open>ps_loops\<close> are the loops in the \<open>JoinSet\<close> that have not ended; the supervisor's state, and its tasks',
  is \<open>ps_system\<close>. \<open>Stopped\<close> says whether every loop was joined in time.
\<close>

record process =
  ps_phase :: main_phase
  ps_loops :: "loop_name list"
  ps_cloud_polled :: bool
  ps_system :: system

datatype process_event =
    SignalSeen bool os_signal
  | LoopEnds loop_name
  | AllJoined
  | TimedOut
  | SystemRuns sys_event

definition process_start :: "config \<Rightarrow> started \<Rightarrow> process" where
  "process_start c st =
     \<lparr>ps_phase = Serves, ps_loops = st_loops st,
      ps_cloud_polled = (CloudServersLoop \<in> set (st_loops st)), ps_system = sys_init c []\<rparr>"

text \<open>
  The servers of Cumulocity change only while their provider runs, and their channel closes only
  when a provider that was started has ended. The token is cancelled by \<open>run\<close> alone.
\<close>

fun can_happen :: "process \<Rightarrow> sys_event \<Rightarrow> bool" where
  "can_happen p (CloudChanged _) = (CloudServersLoop \<in> set (ps_loops p))"
| "can_happen p CloudClosed = (ps_cloud_polled p \<and> CloudServersLoop \<notin> set (ps_loops p))"
| "can_happen p ProcessCancelled = False"
| "can_happen p _ = True"

text \<open>Every loop but the supervisor returns once it sees the token; the supervisor when it is over.\<close>

definition loop_over :: "loop_name \<Rightarrow> system \<Rightarrow> bool" where
  "loop_over n s \<longleftrightarrow> (if n = SupervisorLoop then sy_phase s = SupOver else sy_cancelled s)"

fun process_next :: "config \<Rightarrow> mqtt \<Rightarrow> process_event \<Rightarrow> process \<Rightarrow> process option" where
  "process_next c m (SignalSeen registered sig) p =
     (if ps_phase p = Serves \<and> shutdown_signal registered sig
      then Some (p\<lparr>ps_phase := Stopping, ps_system := (ps_system p)\<lparr>sy_cancelled := True\<rparr>\<rparr>)
      else None)"
| "process_next c m (LoopEnds n) p =
     (if n \<in> set (ps_loops p) \<and> loop_over n (ps_system p)
      then Some (p\<lparr>ps_loops := remove1 n (ps_loops p)\<rparr>) else None)"
| "process_next c m AllJoined p =
     (if ps_phase p = Stopping \<and> ps_loops p = [] then Some (p\<lparr>ps_phase := Stopped True\<rparr>) else None)"
| "process_next c m TimedOut p =
     (if ps_phase p = Stopping then Some (p\<lparr>ps_phase := Stopped False\<rparr>) else None)"
| "process_next c m (SystemRuns ev) p =
     (if can_happen p ev \<and> ps_phase p \<in> {Serves, Stopping}
      then map_option (\<lambda>s. p\<lparr>ps_system := s\<rparr>) (sys_next c m ev (ps_system p)) else None)"

fun run_process :: "config \<Rightarrow> mqtt \<Rightarrow> process_event list \<Rightarrow> process \<Rightarrow> process option" where
  "run_process c m [] p = Some p"
| "run_process c m (ev # evs) p =
     (case process_next c m ev p of None \<Rightarrow> None | Some p' \<Rightarrow> run_process c m evs p')"

inductive process_reaches :: "config \<Rightarrow> mqtt \<Rightarrow> started \<Rightarrow> process \<Rightarrow> bool" for c m st where
  process_begin: "process_reaches c m st (process_start c st)"
| process_step:
    "process_reaches c m st p \<Longrightarrow> process_next c m ev p = Some p' \<Longrightarrow> process_reaches c m st p'"

inductive_cases process_reaches_cases: "process_reaches c m st p"

section \<open>The process runs the system\<close>

lemma process_next_system:
  assumes "process_next c m ev p = Some p'"
  shows "ps_system p' = ps_system p \<or> (\<exists>sev. sys_next c m sev (ps_system p) = Some (ps_system p'))"
proof (cases ev)
  case (SignalSeen registered sig)
  with assms have "sys_next c m ProcessCancelled (ps_system p) = Some (ps_system p')"
    by (auto split: if_splits)
  then show ?thesis by blast
next
  case (SystemRuns sev)
  with assms have "sys_next c m sev (ps_system p) = Some (ps_system p')" by (auto split: if_splits)
  then show ?thesis by blast
qed (use assms in \<open>auto split: if_splits\<close>)

lemma process_system_reaches:
  "process_reaches c m st p \<Longrightarrow> sys_reaches c m [] (ps_system p)"
proof (induction rule: process_reaches.induct)
  case process_begin
  show ?case by (simp add: process_start_def sys_start)
next
  case (process_step p ev p')
  from process_next_system [OF process_step.hyps(2)] process_step.IH show ?case
    by (metis sys_step)
qed

text \<open>
  A loop that is not in the set any more has ended, and main stops only after the signal.
\<close>

definition process_ok :: "process \<Rightarrow> bool" where
  "process_ok p \<longleftrightarrow>
     (SupervisorLoop \<notin> set (ps_loops p) \<longrightarrow> sy_phase (ps_system p) = SupOver) \<and>
     (ps_phase p \<noteq> Serves \<longrightarrow> sy_cancelled (ps_system p)) \<and>
     (ps_phase p = Stopped True \<longrightarrow> ps_loops p = []) \<and> distinct (ps_loops p)"

lemma process_next_ok [step_rules]:
  assumes "process_ok p" "process_next c m ev p = Some p'"
  shows "process_ok p'"
proof (cases ev)
  case (LoopEnds n)
  with assms show ?thesis
    by (auto simp: process_ok_def loop_over_def set_remove1_eq split: if_splits)
next
  case (SystemRuns sev)
  with assms obtain s where s: "sys_next c m sev (ps_system p) = Some s" "p' = p\<lparr>ps_system := s\<rparr>"
    "ps_phase p \<in> {Serves, Stopping}"
    by (auto split: if_splits)
  with assms(1) sys_next_stays_over [OF _ s(1)] sys_next_cancelled [OF _ s(1)] show ?thesis
    by (auto simp: process_ok_def)
qed (use assms in \<open>auto simp: process_ok_def split: if_splits\<close>)

lemma process_reaches_ok:
  assumes "process_reaches c m st p" "SupervisorLoop \<in> set (st_loops st)" "distinct (st_loops st)"
  shows "process_ok p"
  using assms
proof (induction rule: process_reaches.induct)
  case process_begin
  then show ?case by (simp add: process_ok_def process_start_def)
qed (blast intro: process_next_ok)

lemma run_gateway_loops:
  "run_gateway version pid time build accepts c = Inr st \<Longrightarrow>
     SupervisorLoop \<in> set (st_loops st) \<and> distinct (st_loops st)"
  by (auto simp: run_gateway_def main_loops_def Let_def split: prod.splits sum.splits)


section \<open>Stopping\<close>

text \<open>
  What can happen while main waits for its loops: they end, tasks see their token, and the
  supervisor goes on.
\<close>

fun stopping_event :: "process_event \<Rightarrow> bool" where
  "stopping_event (SystemRuns ev) = shutdown_event ev"
| "stopping_event (SignalSeen _ _) = False"
| "stopping_event _ = True"

definition stopping_rank :: "process \<Rightarrow> nat" where
  "stopping_rank p =
     shutdown_rank (ps_system p) + length (ps_loops p) + (if ps_phase p = Stopping then 1 else 0)"

lemma stopping_event_rank:
  assumes "stopping_event ev" "process_next c m ev p = Some p'"
  shows "stopping_rank p' < stopping_rank p"
proof (cases ev)
  case (LoopEnds n)
  then have "n \<in> set (ps_loops p)" "p' = p\<lparr>ps_loops := remove1 n (ps_loops p)\<rparr>"
    using assms(2) by (auto split: if_splits)
  then show ?thesis by (auto simp: stopping_rank_def length_remove1 dest: length_pos_if_in_set)
next
  case (SystemRuns sev)
  with assms shutdown_event_rank [of sev c m "ps_system p"] show ?thesis
    by (auto simp: stopping_rank_def split: if_splits)
qed (use assms in \<open>auto simp: stopping_rank_def split: if_splits\<close>)

lemma stopping_bounded:
  "list_all stopping_event evs \<Longrightarrow> run_process c m evs p = Some p' \<Longrightarrow>
     length evs + stopping_rank p' \<le> stopping_rank p"
proof (induction evs arbitrary: p)
  case (Cons ev evs)
  then obtain q where "process_next c m ev p = Some q" "run_process c m evs q = Some p'"
    by (auto split: option.splits)
  with Cons stopping_event_rank [of ev c m p q] show ?case by fastforce
qed simp

lemma stopping_progress:
  assumes "process_reaches c m st p" "process_ok p" "ps_phase p = Stopping"
  shows "\<exists>ev p'. stopping_event ev \<and> ev \<noteq> TimedOut \<and> process_next c m ev p = Some p'"
proof -
  have cancelled: "sy_cancelled (ps_system p)" using assms(2, 3) by (simp add: process_ok_def)
  show ?thesis
  proof (cases "sy_phase (ps_system p) = SupOver")
    case False
    from shutdown_progress [OF sys_reaches_ok [OF process_system_reaches [OF assms(1)]] cancelled this]
    obtain sev s where s: "shutdown_event sev" "sys_next c m sev (ps_system p) = Some s" by blast
    then have "can_happen p sev" by (cases sev rule: shutdown_event.cases) auto
    with s assms(3) show ?thesis by (intro exI [of _ "SystemRuns sev"]) simp
  next
    case True
    show ?thesis
    proof (cases "ps_loops p")
      case Nil
      with assms(3) show ?thesis by (intro exI [of _ AllJoined]) simp
    next
      case (Cons n ns)
      with True cancelled show ?thesis
        by (intro exI [of _ "LoopEnds n"]) (simp add: loop_over_def)
    qed
  qed
qed

lemma process_next_phase:
  assumes "process_next c m ev p = Some p'" "stopping_event ev" "ev \<noteq> TimedOut"
    and "ps_phase p = Stopping"
  shows "ps_phase p' = Stopping \<or> ps_phase p' = Stopped True"
  using assms by (cases ev) (auto split: if_splits)

lemma stops_cleanly:
  assumes "process_reaches c m st p" "process_ok p" "ps_phase p = Stopping"
  shows "\<exists>evs p'. list_all stopping_event evs \<and> TimedOut \<notin> set evs \<and>
    run_process c m evs p = Some p' \<and> ps_phase p' = Stopped True \<and> process_reaches c m st p'"
  using assms
proof (induction "stopping_rank p" arbitrary: p rule: less_induct)
  case less
  from stopping_progress [OF less.prems] obtain ev q where
    q: "stopping_event ev" "ev \<noteq> TimedOut" "process_next c m ev p = Some q" by blast
  have reach: "process_reaches c m st q" using less.prems(1) q(3) by (rule process_step)
  from process_next_phase [OF q(3) q(1, 2) less.prems(3)] show ?case
  proof
    assume "ps_phase q = Stopping"
    from less.hyps [OF stopping_event_rank [OF q(1, 3)] reach
        process_next_ok [OF less.prems(2) q(3)] this]
    obtain evs p' where "list_all stopping_event evs" "TimedOut \<notin> set evs"
      "run_process c m evs q = Some p'" "ps_phase p' = Stopped True" "process_reaches c m st p'"
      by blast
    with q show ?thesis by (intro exI [of _ "ev # evs"] exI [of _ p']) auto
  next
    assume "ps_phase q = Stopped True"
    with q reach show ?thesis by (intro exI [of _ "[ev]"] exI [of _ q]) auto
  qed
qed


section \<open>Example\<close>

text \<open>The configured server connects, then the process is told to stop.\<close>

definition demo_started :: started where
  "demo_started =
     projr (run_gateway ''0.1.0'' 1 0 (\<lambda>p. Inr (px_base_url p)) (\<lambda>_. True) demo_config)"

definition demo_process_events :: "process_event list" where
  "demo_process_events =
     [SystemRuns SupervisorRuns, SystemRuns SupervisorRuns,
      SystemRuns (TaskRuns ''plc'' (Connected (Inr []) False)), SignalSeen True Terminate]"

definition demo_process :: process where
  "demo_process =
     the (run_process demo_config demo_mqtt demo_process_events
       (process_start demo_config demo_started))"

lemma demo_started_run:
  "run_gateway ''0.1.0'' 1 0 (\<lambda>p. Inr (px_base_url p)) (\<lambda>_. True) demo_config = Inr demo_started"
  using run_gateway_accepted [of "\<lambda>_. True" "''0.1.0''" 1 0 "\<lambda>p. Inr (px_base_url p)" demo_config]
  by (auto simp: demo_started_def)

lemma run_process_reaches:
  "process_reaches c m st p \<Longrightarrow> run_process c m evs p = Some p' \<Longrightarrow> process_reaches c m st p'"
proof (induction evs arbitrary: p)
  case (Cons ev evs)
  then show ?case by (auto split: option.splits intro: process_step)
qed simp

lemma demo_process_reached: "process_reaches demo_config demo_mqtt demo_started demo_process"
proof -
  have "\<not> Option.is_none (run_process demo_config demo_mqtt demo_process_events
      (process_start demo_config demo_started))"
    by code_simp
  then have "run_process demo_config demo_mqtt demo_process_events
      (process_start demo_config demo_started) = Some demo_process"
    by (auto simp: demo_process_def Option.is_none_def)
  with process_begin show ?thesis by (rule run_process_reaches)
qed

lemma demo_process_stopping: "ps_phase demo_process = Stopping"
  by code_simp


definition demo_stopping_events :: "process_event list" where
  "demo_stopping_events =
     [SystemRuns (TaskRuns ''plc'' StopSeen), SystemRuns SupervisorRuns, SystemRuns SupervisorRuns,
      SystemRuns SupervisorRuns, SystemRuns SupervisorRuns,
      LoopEnds SupervisorLoop, LoopEnds MqttLoop, LoopEnds DeviceTypesLoop,
      LoopEnds CloudServersLoop, LoopEnds OperationsLoop, AllJoined]"

definition demo_stopped :: process where
  "demo_stopped = the (run_process demo_config demo_mqtt demo_stopping_events demo_process)"


text \<open>When time runs out the process returns with the session still open.\<close>

lemma timed_out_leaves_session:
  "\<exists>p. process_next demo_config demo_mqtt TimedOut demo_process = Some p \<and>
     ps_phase p = Stopped False \<and> open_sessions ''plc'' (ps_system p) = 1"
proof -
  have "open_sessions ''plc'' (ps_system demo_process) = 1" by code_simp
  with demo_process_stopping show ?thesis by simp
qed

end
