(* ===== verification/Backpressure.thy ===== *)
theory Backpressure
  imports Main_Wiring
begin

text \<open>
  Waiting for the MQTT client. \<open>TedgeMqtt\<close> (\<open>crates/tedge/src/mqtt.rs\<close>) hands every publish and every
  subscription to a channel of \<open>MqttConfig::capacity\<close> requests, and a caller waits while it is full.
  Only \<open>run_event_loop\<close> takes requests out, by polling the client; it also subscribes, through the same
  channel. This theory counts requests and waiting callers; what they carry is in \<open>Mqtt\<close>.
\<close>

section \<open>Configuration\<close>

record tedge_mqtt_config =
  tm_host :: string
  tm_port :: u16
  tm_client_id :: string
  tm_capacity :: nat
  tm_keep_alive :: nat
  tm_service_name :: string

definition tedge_mqtt_config_default :: tedge_mqtt_config where
  "tedge_mqtt_config_default =
     \<lparr>tm_host = ''127.0.0.1'', tm_port = 1883, tm_client_id = ''c8y-opcua-gateway'',
      tm_capacity = 1024, tm_keep_alive = 60, tm_service_name = ''opcua-gateway''\<rparr>"

definition to_tedge_mqtt :: "mqtt_config \<Rightarrow> tedge_mqtt_config" where
  "to_tedge_mqtt c =
     \<lparr>tm_host = mqc_host c, tm_port = mqc_port c, tm_client_id = mqc_client_id c,
      tm_capacity = mqc_capacity c, tm_keep_alive = mqc_keep_alive_secs c,
      tm_service_name = mqc_service_name c\<rparr>"

text \<open>The defaults of the two crates are the same.\<close>

lemma to_tedge_mqtt_default: "to_tedge_mqtt mqtt_config_default = tedge_mqtt_config_default"
  by (simp add: to_tedge_mqtt_def mqtt_config_default_def tedge_mqtt_config_default_def)

section \<open>The request channel and the loop\<close>

datatype place = Polling | Resubscribing "string list" | Pausing | LoopReturned

record requests =
  rq_capacity :: nat
  rq_queued :: nat
  rq_waiting :: nat
  rq_connected :: bool
  rq_place :: place

definition requests_start :: "config \<Rightarrow> requests" where
  "requests_start c =
     \<lparr>rq_capacity = tm_capacity (to_tedge_mqtt (cf_mqtt c)), rq_queued = 0, rq_waiting = 0,
      rq_connected = False, rq_place = Polling\<rparr>"

text \<open>
  Events of callers, of the client and of the loop. Polling a connected client takes requests out;
  when the connection is lost the client may first take some over to send them again later. A client
  that is not connected takes nothing out: its next success is \<open>PollConnAck\<close>.
\<close>

datatype request_event =
    Publishes
  | CallerAdmitted
  | PollTakes
  | PollConnAck
  | PollFails nat
  | LoopSubscribes
  | PauseOver
  | TokenSeen

fun request_next :: "string list \<Rightarrow> request_event \<Rightarrow> requests \<Rightarrow> requests option" where
  "request_next subs Publishes r =
     (if rq_queued r < rq_capacity r \<and> rq_waiting r = 0 then Some (r\<lparr>rq_queued := rq_queued r + 1\<rparr>)
      else Some (r\<lparr>rq_waiting := rq_waiting r + 1\<rparr>))"
| "request_next subs CallerAdmitted r =
     (if 0 < rq_waiting r \<and> rq_queued r < rq_capacity r
      then Some (r\<lparr>rq_waiting := rq_waiting r - 1, rq_queued := rq_queued r + 1\<rparr>) else None)"
| "request_next subs PollTakes r =
     (if rq_place r = Polling \<and> rq_connected r \<and> 0 < rq_queued r
      then Some (r\<lparr>rq_queued := rq_queued r - 1\<rparr>) else None)"
| "request_next subs PollConnAck r =
     (if rq_place r = Polling \<and> \<not> rq_connected r
      then Some (r\<lparr>rq_connected := True,
                   rq_place := (if subs = [] then Polling else Resubscribing subs)\<rparr>)
      else None)"
| "request_next subs (PollFails n) r =
     (if rq_place r = Polling \<and> n \<le> rq_queued r \<and> (n = 0 \<or> rq_connected r)
      then Some (r\<lparr>rq_connected := False, rq_queued := rq_queued r - n, rq_place := Pausing\<rparr>)
      else None)"
| "request_next subs LoopSubscribes r =
     (case rq_place r of
        Resubscribing (t # ts) \<Rightarrow>
          (if rq_queued r < rq_capacity r
           then Some (r\<lparr>rq_queued := rq_queued r + 1,
                        rq_place := (if ts = [] then Polling else Resubscribing ts)\<rparr>)
           else None)
      | _ \<Rightarrow> None)"
| "request_next subs PauseOver r =
     (if rq_place r = Pausing then Some (r\<lparr>rq_place := Polling\<rparr>) else None)"
| "request_next subs TokenSeen r =
     (if rq_place r \<in> {Polling, Pausing} then Some (r\<lparr>rq_place := LoopReturned\<rparr>) else None)"

declare request_next.simps [simp del]

fun run_requests :: "string list \<Rightarrow> request_event list \<Rightarrow> requests \<Rightarrow> requests option" where
  "run_requests subs [] r = Some r"
| "run_requests subs (ev # evs) r =
     (case request_next subs ev r of None \<Rightarrow> None | Some r' \<Rightarrow> run_requests subs evs r')"

inductive request_reaches :: "string list \<Rightarrow> requests \<Rightarrow> requests \<Rightarrow> bool" for subs r where
  request_begin: "request_reaches subs r r"
| request_step:
    "request_reaches subs r s \<Longrightarrow> request_next subs ev s = Some s' \<Longrightarrow> request_reaches subs r s'"

lemma run_requests_append:
  "run_requests subs (xs @ ys) r =
     (case run_requests subs xs r of None \<Rightarrow> None | Some r' \<Rightarrow> run_requests subs ys r')"
  by (induction xs arbitrary: r) (auto split: option.splits)

lemma run_requests_reaches:
  "request_reaches subs r s \<Longrightarrow> run_requests subs evs s = Some s' \<Longrightarrow> request_reaches subs r s'"
proof (induction evs arbitrary: s)
  case (Cons ev evs)
  then show ?case by (auto split: option.splits intro: request_step)
qed simp

section \<open>When the loop can go on\<close>

text \<open>The topics the loop still has to subscribe to before it polls a connected client.\<close>

fun to_subscribe :: "string list \<Rightarrow> requests \<Rightarrow> nat" where
  "to_subscribe subs r =
     (case rq_place r of
        Resubscribing ts \<Rightarrow> length ts
      | _ \<Rightarrow> (if rq_connected r then 0 else length subs))"

definition choked :: "string list \<Rightarrow> requests \<Rightarrow> bool" where
  "choked subs r \<longleftrightarrow> 0 < to_subscribe subs r \<and> rq_capacity r < rq_queued r + to_subscribe subs r"

definition requests_ok :: "requests \<Rightarrow> bool" where
  "requests_ok r \<longleftrightarrow>
     rq_queued r \<le> rq_capacity r \<and> rq_place r \<noteq> Resubscribing [] \<and>
     (rq_place r = Pausing \<longrightarrow> \<not> rq_connected r) \<and>
     (\<forall>ts. rq_place r = Resubscribing ts \<longrightarrow> rq_connected r)"

lemma request_next_ok [step_rules]:
  assumes "requests_ok r" "request_next subs ev r = Some r'"
  shows "requests_ok r'"
  using assms
  by (cases ev) (auto simp: requests_ok_def request_next.simps split: if_splits place.splits list.splits)

lemma request_next_capacity: "request_next subs ev r = Some r' \<Longrightarrow> rq_capacity r' = rq_capacity r"
  by (cases ev) (auto simp: request_next.simps split: if_splits place.splits list.splits)

lemma request_reaches_ok:
  "request_reaches subs r s \<Longrightarrow> requests_ok r \<Longrightarrow> requests_ok s \<and> rq_capacity s = rq_capacity r"
proof (induction rule: request_reaches.induct)
  case (request_step s ev s')
  then show ?case using request_next_ok request_next_capacity by metis
qed simp

definition idle :: "requests \<Rightarrow> bool" where
  "idle r \<longleftrightarrow> rq_place r = Polling \<and> rq_connected r \<and> rq_queued r = 0 \<and> rq_waiting r = 0"

text \<open>A choked client stays choked, or its loop returns: nothing takes a request out again.\<close>

definition lost :: "string list \<Rightarrow> requests \<Rightarrow> bool" where
  "lost subs r \<longleftrightarrow> choked subs r \<or> rq_place r = LoopReturned"

lemma request_next_lost:
  assumes "requests_ok r" "lost subs r" "request_next subs ev r = Some r'"
  shows "lost subs r'"
  using assms
  by (cases ev)
    (auto simp: lost_def choked_def requests_ok_def request_next.simps
      split: if_splits place.splits list.splits)

lemma lost_not_idle: "lost subs r \<Longrightarrow> \<not> idle r"
  by (auto simp: lost_def choked_def idle_def)

text \<open>Events of a client whose connection holds and that gets no new requests.\<close>

fun settles :: "request_event \<Rightarrow> bool" where
  "settles Publishes = False"
| "settles (PollFails _) = False"
| "settles TokenSeen = False"
| "settles _ = True"

definition settle_rank :: "string list \<Rightarrow> requests \<Rightarrow> nat" where
  "settle_rank subs r =
     3 * rq_waiting r + rq_queued r + 2 * to_subscribe subs r +
     (case rq_place r of Pausing \<Rightarrow> 2 | Polling \<Rightarrow> (if rq_connected r then 0 else 1) | _ \<Rightarrow> 0)"

lemma settle_step:
  assumes "requests_ok r" "\<not> lost subs r" "0 < rq_capacity r" "\<not> idle r"
  obtains ev r' where "settles ev" "request_next subs ev r = Some r'" "\<not> lost subs r'"
    "settle_rank subs r' < settle_rank subs r"
proof (cases "rq_place r")
  case Polling
  show ?thesis
  proof (cases "rq_connected r")
    case False
    with Polling assms that [of PollConnAck] show ?thesis
      by (auto simp: request_next.simps lost_def choked_def settle_rank_def)
  next
    case True
    show ?thesis
    proof (cases "rq_queued r")
      case 0
      with True Polling assms that [of CallerAdmitted] show ?thesis
        by (auto simp: request_next.simps lost_def choked_def settle_rank_def idle_def)
    next
      case (Suc n)
      with True Polling assms that [of PollTakes] show ?thesis
        by (auto simp: request_next.simps lost_def choked_def settle_rank_def)
    qed
  qed
next
  case (Resubscribing ts)
  with assms obtain t ts' where "ts = t # ts'" by (cases ts) (auto simp: requests_ok_def)
  with Resubscribing assms that [of LoopSubscribes] show ?thesis
    by (auto simp: request_next.simps lost_def choked_def settle_rank_def requests_ok_def)
next
  case Pausing
  with assms that [of PauseOver] show ?thesis
    by (auto simp: request_next.simps lost_def choked_def settle_rank_def requests_ok_def)
next
  case LoopReturned
  with assms show ?thesis by (simp add: lost_def)
qed

lemma settles_down:
  assumes "requests_ok r" "\<not> lost subs r" "0 < rq_capacity r"
  shows "\<exists>evs r'. list_all settles evs \<and> run_requests subs evs r = Some r' \<and> idle r'"
  using assms
proof (induction "settle_rank subs r" arbitrary: r rule: less_induct)
  case less
  show ?case
  proof (cases "idle r")
    case True
    then show ?thesis by (intro exI [of _ "[]"]) simp
  next
    case False
    obtain ev r1 where step: "settles ev" "request_next subs ev r = Some r1" "\<not> lost subs r1"
      "settle_rank subs r1 < settle_rank subs r"
      using settle_step [OF less.prems False] by blast
    from less.hyps [OF step(4) request_next_ok [OF less.prems(1) step(2)] step(3)]
      request_next_capacity [OF step(2)] less.prems(3)
    obtain evs r' where "list_all settles evs" "run_requests subs evs r1 = Some r'" "idle r'"
      by auto
    with step show ?thesis by (intro exI [of _ "ev # evs"] exI [of _ r']) simp
  qed
qed

lemma run_lost:
  "requests_ok r \<Longrightarrow> lost subs r \<Longrightarrow> run_requests subs evs r = Some r' \<Longrightarrow> lost subs r'"
proof (induction evs arbitrary: r)
  case (Cons ev evs)
  then show ?case by (auto split: option.splits dest: request_next_lost request_next_ok)
qed simp

lemma requests_start_ok: "requests_ok (requests_start c)"
  by (simp add: requests_ok_def requests_start_def)

lemma requests_start_capacity: "rq_capacity (requests_start c) = mqc_capacity (cf_mqtt c)"
  by (simp add: requests_start_def to_tedge_mqtt_def)

lemma request_reaches_topics:
  "request_reaches subs (requests_start c) r \<Longrightarrow> rq_place r = Resubscribing ts \<Longrightarrow>
     length ts \<le> length subs"
proof (induction arbitrary: ts rule: request_reaches.induct)
  case (request_step r ev r')
  then show ?case
    by (cases ev) (force simp: request_next.simps split: if_splits place.splits list.splits)+
qed (simp add: requests_start_def)

text \<open>The gateway subscribes to one topic or to none, so only a full channel chokes it.\<close>

lemma choked_main:
  assumes "request_reaches (main_subscriptions c) (requests_start c) r" "rq_place r \<noteq> LoopReturned"
  shows "choked (main_subscriptions c) r \<longleftrightarrow>
    rq_queued r = mqc_capacity (cf_mqtt c) \<and> gc_enabled (cf_gateway c) \<and>
    (rq_connected r \<longrightarrow> rq_place r \<noteq> Polling)"
proof -
  have ok: "requests_ok r" "rq_capacity r = mqc_capacity (cf_mqtt c)"
    using request_reaches_ok [OF assms(1) requests_start_ok] requests_start_capacity by auto
  show ?thesis
  proof (cases "rq_place r")
    case (Resubscribing ts)
    moreover from this ok(1) have "ts \<noteq> []" by (auto simp: requests_ok_def)
    ultimately have "length ts = 1 \<and> gc_enabled (cf_gateway c)"
      using request_reaches_topics [OF assms(1), of ts]
      by (cases ts) (auto simp: main_subscriptions_def split: if_splits)
    with ok Resubscribing show ?thesis by (auto simp: choked_def requests_ok_def)
  qed (use ok assms(2) in \<open>auto simp: choked_def requests_ok_def main_subscriptions_def\<close>)
qed

text \<open>
  C14. After an outage of the broker publishing recovers exactly if room is left for the gateway's own
  subscription: from any state of the client, unless its loop has returned, every request can still
  be sent and every waiting caller let in, except when the gateway device is enabled and the
  channel is full while the client is not connected or its loop is subscribing. Without the gateway
  device it always recovers.
\<close>

theorem client_recovers_iff:
  assumes "request_reaches (main_subscriptions c) (requests_start c) r"
    and "0 < mqc_capacity (cf_mqtt c)" "rq_place r \<noteq> LoopReturned"
  shows "(\<exists>evs r'. run_requests (main_subscriptions c) evs r = Some r' \<and> idle r') \<longleftrightarrow>
    \<not> (rq_queued r = mqc_capacity (cf_mqtt c) \<and> gc_enabled (cf_gateway c) \<and>
       (rq_connected r \<longrightarrow> rq_place r \<noteq> Polling))"
proof -
  have ok: "requests_ok r" "rq_capacity r = mqc_capacity (cf_mqtt c)"
    using request_reaches_ok [OF assms(1) requests_start_ok] requests_start_capacity by auto
  have "lost (main_subscriptions c) r \<longleftrightarrow> choked (main_subscriptions c) r"
    using assms(3) by (simp add: lost_def)
  with settles_down [OF ok(1)] run_lost [OF ok(1)] lost_not_idle ok(2) assms(2)
    choked_main [OF assms(1, 3)] show ?thesis by metis
qed

text \<open>
  A loop that waits for its own subscription to be accepted waits for ever: the channel stays full and
  the loop never looks at its token, so shutdown has to run out of time.
\<close>

lemma subscribe_waits_forever:
  assumes "rq_place r = Resubscribing (t # ts)" "rq_queued r = rq_capacity r"
    and "run_requests subs evs r = Some r'"
  shows "rq_place r' = rq_place r \<and> rq_queued r' = rq_capacity r'"
  using assms
proof (induction evs arbitrary: r)
  case (Cons ev evs)
  then obtain s where s: "request_next subs ev r = Some s" "run_requests subs evs s = Some r'"
    by (auto split: option.splits)
  from s(1) Cons.prems(1, 2) have "rq_place s = Resubscribing (t # ts)" "rq_queued s = rq_capacity s"
    by (cases ev; auto simp: request_next.simps split: if_splits)+
  with Cons.IH [of s] s(2) Cons.prems(1) show ?case by simp
qed simp

lemma publishes_fill:
  "rq_waiting r = 0 \<Longrightarrow> rq_queued r + n \<le> rq_capacity r \<Longrightarrow>
     run_requests subs (replicate n Publishes) r = Some (r\<lparr>rq_queued := rq_queued r + n\<rparr>)"
  by (induction n arbitrary: r) (simp_all add: request_next.simps)

text \<open>This happens: publishes while the broker is away fill the channel, and then it comes back.\<close>

lemma outage_chokes:
  assumes "gc_enabled (cf_gateway c)"
  shows "\<exists>r. request_reaches (main_subscriptions c) (requests_start c) r \<and>
    rq_place r = Resubscribing [c8y_operation_topic] \<and> rq_queued r = rq_capacity r"
proof -
  let ?evs = "replicate (mqc_capacity (cf_mqtt c)) Publishes @ [PollConnAck]"
  have "run_requests (main_subscriptions c) ?evs (requests_start c) =
      Some ((requests_start c)\<lparr>rq_queued := mqc_capacity (cf_mqtt c), rq_connected := True,
        rq_place := Resubscribing [c8y_operation_topic]\<rparr>)"
    using assms publishes_fill [of "requests_start c" "mqc_capacity (cf_mqtt c)"]
    by (simp add: run_requests_append requests_start_def to_tedge_mqtt_def request_next.simps
        main_subscriptions_def)
  with run_requests_reaches [OF request_begin this] show ?thesis
    by (intro exI conjI) (auto simp: requests_start_capacity)
qed

section \<open>Example\<close>

text \<open>Two publishes wait for the connection; when it comes the loop subscribes and all are sent.\<close>

lemma client_recovers_iff_witness:
  "\<exists>evs r. run_requests [c8y_operation_topic] evs
     ((requests_start demo_config)\<lparr>rq_queued := 2\<rparr>) = Some r \<and> idle r"
proof -
  have subs: "main_subscriptions demo_config = [c8y_operation_topic]" by code_simp
  have cap: "mqc_capacity (cf_mqtt demo_config) = 1024" by code_simp
  have start: "rq_waiting (requests_start demo_config) = 0" "rq_queued (requests_start demo_config) = 0"
    "rq_place (requests_start demo_config) = Polling"
    by (simp_all add: requests_start_def)
  have "run_requests (main_subscriptions demo_config) (replicate 2 Publishes)
      (requests_start demo_config) = Some ((requests_start demo_config)\<lparr>rq_queued := 2\<rparr>)"
    using publishes_fill [of "requests_start demo_config" 2] start cap
    by (simp add: requests_start_capacity)
  from client_recovers_iff [OF run_requests_reaches [OF request_begin this]] cap start subs
  show ?thesis by simp
qed

end
