(* ===== verification/Watch.thy ===== *)
theory Watch
  imports Prelude
begin

text \<open>
  Watch channels (\<open>tokio::sync::watch\<close>): a value with a version, and receivers that remember the
  version they have seen. A receiver is told of a change when the versions differ, however many
  values were sent meanwhile, and borrowing gives the newest one.
\<close>

record 'a watch =
  wt_value :: 'a
  wt_version :: nat

definition watch_channel :: "'a \<Rightarrow> 'a watch" where
  "watch_channel v = \<lparr>wt_value = v, wt_version = 0\<rparr>"

definition watch_send :: "'a \<Rightarrow> 'a watch \<Rightarrow> 'a watch" where
  "watch_send v w = \<lparr>wt_value = v, wt_version = wt_version w + 1\<rparr>"

definition has_changed :: "'a watch \<Rightarrow> nat \<Rightarrow> bool" where
  "has_changed w seen \<longleftrightarrow> wt_version w \<noteq> seen"

lemma watch_channel_simps [simp]:
  "wt_value (watch_channel v) = v"
  "wt_version (watch_channel v) = 0"
  "wt_value (watch_send v w) = v"
  "wt_version (watch_send v w) = wt_version w + 1"
  by (simp_all add: watch_channel_def watch_send_def)

text \<open>What a receiver works with is the newest value, or it can see that there is a newer one.\<close>

definition current :: "'a watch \<Rightarrow> nat \<Rightarrow> 'a option \<Rightarrow> bool" where
  "current w seen used \<longleftrightarrow>
     seen \<le> wt_version w \<and> (\<not> has_changed w seen \<longrightarrow> used = None \<or> used = Some (wt_value w))"

text \<open>
  A machine around a watch channel: it sends only through the channel, and what it works with
  changes only by being given up or by borrowing the newest value, which marks it as seen.
\<close>

locale watching =
  fixes step :: "'e \<Rightarrow> 's \<Rightarrow> 's option" and chan :: "'s \<Rightarrow> 'a watch" and seen :: "'s \<Rightarrow> nat"
    and used :: "'s \<Rightarrow> 'a option"
  assumes chan_step:
      "step e s = Some s' \<Longrightarrow> chan s' = chan s \<or> (\<exists>v. chan s' = watch_send v (chan s))"
    and used_step:
      "step e s = Some s' \<Longrightarrow>
         seen s' = seen s \<and> (used s' = used s \<or> used s' = None) \<or>
         chan s' = chan s \<and> seen s' = wt_version (chan s) \<and>
           (used s' = None \<or> used s' = Some (wt_value (chan s)))"
begin

lemma current_step:
  assumes "current (chan s) (seen s) (used s)" "step e s = Some s'"
  shows "current (chan s') (seen s') (used s')"
  using assms(1) chan_step [OF assms(2)] used_step [OF assms(2)]
  by (auto simp: current_def has_changed_def)

end

end
