(* ===== verification/Reload.thy ===== *)
theory Reload
  imports Watch Device_Types Server_Run
begin

text \<open>
  Device types from their provider to a server task: \<open>run\<close> of \<open>crates/gateway/src/device_types.rs\<close>
  sends them on the watch channel \<open>main\<close> creates, and \<open>run\<close> of \<open>crates/gateway/src/server_task.rs\<close>
  borrows them for each session and is woken when they change.
\<close>

section \<open>The provider and a task\<close>

text \<open>
  \<open>rl_used\<close> is what the present session was resolved with, and \<open>rl_pushed\<close> what the mapping directory
  held at the last poll.
\<close>

record reload =
  re_provider :: provider
  re_stopped :: bool
  re_pushed :: "loaded list"
  re_watch :: "loaded list watch"
  re_task :: task
  re_seen :: nat
  re_used :: "loaded list option"

text \<open>
  A poll is given what the proxy and the directory answer and whether a receiver is left; a session
  what resolving answers for the device types it is given.
\<close>

datatype reload_event =
    Polls "(proxy_error + loaded list) option" "loaded list" bool
  | ProviderCancelled
  | SessionOpens "loaded list \<Rightarrow> conn_error + resolved_mapping list" bool
  | TaskSees task_event

definition reload_start :: "config \<Rightarrow> server_config \<Rightarrow> mqtt \<Rightarrow> reload" where
  "reload_start c server m =
     \<lparr>re_provider = provider_init, re_stopped = False, re_pushed = [], re_watch = watch_channel [],
      re_task = task_init c server m, re_seen = 0, re_used = None\<rparr>"

text \<open>What the receiver tells the task; \<open>changed\<close> fails only when nothing new is left to see.\<close>

fun told :: "reload \<Rightarrow> task_event \<Rightarrow> bool" where
  "told s (Connected _ _) = False"
| "told s TypesChanged = has_changed (re_watch s) (re_seen s)"
| "told s TypesClosed = (re_stopped s \<and> \<not> has_changed (re_watch s) (re_seen s))"
| "told s _ = True"

fun reload_next ::
    "config \<Rightarrow> server_config \<Rightarrow> reload_event \<Rightarrow> reload \<Rightarrow> reload option" where
  "reload_next c server (Polls fetched pushed consumers) s =
     (if re_stopped s \<or> \<not> consumers \<and> tk_phase (re_task s) \<noteq> Ended then None
      else case poll_with c fetched pushed consumers (re_provider s) of
             (p, sent, e) \<Rightarrow>
               Some (s\<lparr>re_provider := p, re_stopped := (e = NoConsumers), re_pushed := pushed,
                 re_watch :=
                   (case sent of
                      Some ls \<Rightarrow> (if consumers then watch_send ls (re_watch s) else re_watch s)
                    | None \<Rightarrow> re_watch s)\<rparr>))"
| "reload_next c server ProviderCancelled s =
     (if re_stopped s then None else Some (s\<lparr>re_stopped := True\<rparr>))"
| "reload_next c server (SessionOpens answer subscription) s =
     (let types = wt_value (re_watch s) in
      map_option (\<lambda>t. s\<lparr>re_task := t, re_seen := wt_version (re_watch s), re_used := Some types\<rparr>)
        (task_next c server (Connected (answer types) subscription) (re_task s)))"
| "reload_next c server (TaskSees ev) s =
     (if told s ev
      then map_option
             (\<lambda>t. s\<lparr>re_task := t,
                re_seen := (if ev = TypesChanged then wt_version (re_watch s) else re_seen s),
                re_used := None\<rparr>)
             (task_next c server ev (re_task s))
      else None)"

inductive reload_reaches :: "config \<Rightarrow> server_config \<Rightarrow> mqtt \<Rightarrow> reload \<Rightarrow> bool" for c server m where
  reload_begin: "reload_reaches c server m (reload_start c server m)"
| reload_step:
    "reload_reaches c server m s \<Longrightarrow> reload_next c server ev s = Some s' \<Longrightarrow>
     reload_reaches c server m s'"

interpretation types_watch: watching "reload_next c server" re_watch re_seen re_used for c server
proof
  fix ev and s s' :: reload
  assume "reload_next c server ev s = Some s'"
  then show "re_watch s' = re_watch s \<or> (\<exists>v. re_watch s' = watch_send v (re_watch s))"
    and "re_seen s' = re_seen s \<and> (re_used s' = re_used s \<or> re_used s' = None) \<or>
      re_watch s' = re_watch s \<and> re_seen s' = wt_version (re_watch s) \<and>
        (re_used s' = None \<or> re_used s' = Some (wt_value (re_watch s)))"
    by (cases ev; auto simp: Let_def split: if_splits prod.splits option.splits)+
qed

section \<open>A session works with the newest device types\<close>

lemma connected_live: "task_next c server (Connected r b) t = Some t' \<Longrightarrow> tk_phase t' = Live"
  by (auto simp: task_next.simps split: phase.splits)

lemma not_connected_not_live:
  "told s ev \<Longrightarrow> task_next c server ev t = Some t' \<Longrightarrow> tk_phase t' \<noteq> Live"
  by (cases ev; cases "tk_phase t")
    (auto simp: task_next.simps end_task_def deregister_def split: if_splits)

lemma ended_stays: "task_next c server ev t = Some t' \<Longrightarrow> tk_phase t \<noteq> Ended"
  by (auto simp: task_next.simps)

text \<open>While the task is there, the channel holds what the last poll merged, up to its revision.\<close>

definition reload_ok :: "config \<Rightarrow> reload \<Rightarrow> bool" where
  "reload_ok c s \<longleftrightarrow>
     provider_reaches c (re_provider s) \<and> task_ok c (re_task s) \<and>
     (tk_phase (re_task s) \<noteq> Ended \<longrightarrow>
        pr_revision (re_provider s) = revision_of (wt_value (re_watch s)) \<and>
        pr_revision (re_provider s) =
          revision_of (merge (pr_pulled (re_provider s)) (re_pushed s))) \<and>
     current (re_watch s) (re_seen s) (re_used s) \<and>
     (tk_phase (re_task s) = Live \<longrightarrow> re_used s \<noteq> None)"

lemma polls_ok:
  assumes "reload_ok c s" "reload_next c server (Polls fetched pushed consumers) s = Some s'"
  shows "reload_ok c s'"
proof -
  obtain p sent e where p: "poll_with c fetched pushed consumers (re_provider s) = (p, sent, e)"
    by (cases "poll_with c fetched pushed consumers (re_provider s)") auto
  have reach: "provider_reaches c (re_provider s)" using assms(1) by (simp add: reload_ok_def)
  have rev: "pr_revision p = revision_of (merge (pr_pulled p) pushed)"
    "sent = (if pr_revision p = pr_revision (re_provider s) then None
             else Some (merge (pr_pulled p) pushed))"
    using poll_with_ok [OF provider_reaches_ok [OF reach] p] p
    unfolding poll_with_eq [OF provider_reaches_ok [OF reach]]
    by (auto simp: Let_def after_fetch_def split: option.splits sum.splits prod.splits if_splits)
  have "current (re_watch s') (re_seen s') (re_used s')"
    using types_watch.current_step [OF _ assms(2)] assms(1) by (simp add: reload_ok_def)
  moreover have "provider_reaches c p" using reach p by (rule provider_poll)
  ultimately show ?thesis
    using assms rev p by (auto simp: reload_ok_def split: if_splits)
qed

lemma reload_next_ok [step_rules]:
  assumes "reload_ok c s" "reload_next c server ev s = Some s'"
  shows "reload_ok c s'"
proof (cases ev)
  case (Polls fetched pushed consumers)
  with assms show ?thesis using polls_ok by blast
next
  case (SessionOpens answer subscription)
  with assms show ?thesis
    by (auto simp: reload_ok_def Let_def current_def has_changed_def dest: ended_stays task_next_ok)
next
  case (TaskSees tev)
  have "current (re_watch s') (re_seen s') (re_used s')"
    using types_watch.current_step [OF _ assms(2)] assms(1) by (simp add: reload_ok_def)
  with TaskSees assms not_connected_not_live [of s tev c server "re_task s"] show ?thesis
    by (auto simp: reload_ok_def dest: ended_stays task_next_ok split: if_splits)
qed (use assms in \<open>auto simp: reload_ok_def split: if_splits\<close>)

lemma reload_reaches_ok: "reload_reaches c server m s \<Longrightarrow> reload_ok c s"
proof (induction rule: reload_reaches.induct)
  case reload_begin
  have "merge [] [] = []" "revision_of [] = []" by (simp_all add: merge_def revision_of_def)
  moreover have "pr_revision provider_init = []" "pr_pulled provider_init = []"
    by (simp_all add: provider_init_def)
  ultimately show ?case
    by (simp add: reload_ok_def reload_start_def provider_start current_def task_init_ok)
      (simp add: task_init_def)
qed (blast intro: reload_next_ok)

text \<open>
  C6. A session always works with the newest device types: at any time a live task was resolved
  with device types whose revision is that of what both sources gave at the provider's last poll,
  pushed files over pulled types, or it is about to be told of a change, on which it ends the
  session to resolve again. No update is lost, however polls and sessions interleave.
\<close>

theorem types_in_use_current:
  assumes "reload_reaches c server m s" "tk_phase (re_task s) = Live"
  shows "\<exists>types. re_used s = Some types \<and>
    (if has_changed (re_watch s) (re_seen s)
     then \<exists>s'. reload_next c server (TaskSees TypesChanged) s = Some s' \<and>
       tk_phase (re_task s') = Connecting \<and> tk_opened (re_task s') = tk_closed (re_task s') \<and>
       \<not> has_changed (re_watch s') (re_seen s')
     else revision_of types =
       revision_of (merge (pr_pulled (re_provider s)) (re_pushed s)))"
proof -
  have ok: "reload_ok c s" using reload_reaches_ok [OF assms(1)] .
  then obtain types where types: "re_used s = Some types" using assms(2) by (auto simp: reload_ok_def)
  show ?thesis
  proof (cases "has_changed (re_watch s) (re_seen s)")
    case True
    with assms(2) types ok show ?thesis
      by (auto simp: task_next.simps end_session_def has_changed_def reload_ok_def task_ok_def)
  next
    case False
    with ok types assms(2) show ?thesis by (auto simp: reload_ok_def current_def)
  qed
qed

section \<open>Example\<close>

text \<open>A session that was opened before the poll that finds a device type, and one opened after it.\<close>

fun run_reload ::
    "config \<Rightarrow> server_config \<Rightarrow> reload_event list \<Rightarrow> reload \<Rightarrow> reload option" where
  "run_reload c server [] s = Some s"
| "run_reload c server (ev # evs) s =
     (case reload_next c server ev s of None \<Rightarrow> None | Some s' \<Rightarrow> run_reload c server evs s')"

lemma run_reload_reaches:
  "reload_reaches c server m s \<Longrightarrow> run_reload c server evs s = Some s' \<Longrightarrow>
     reload_reaches c server m s'"
proof (induction evs arbitrary: s)
  case (Cons ev evs)
  then show ?case by (auto split: option.splits intro: reload_step)
qed simp

definition demo_reload :: "reload_event list \<Rightarrow> reload" where
  "demo_reload evs =
     the (run_reload demo_config demo_server evs (reload_start demo_config demo_server demo_mqtt))"

definition demo_before :: "reload_event list" where
  "demo_before = [SessionOpens (\<lambda>_. Inr []) False, Polls (Some (Inr [demo_type])) [] True]"

definition demo_after :: "reload_event list" where
  "demo_after = [Polls (Some (Inr [demo_type])) [] True, SessionOpens (\<lambda>_. Inr []) False]"

lemma demo_reload_reached:
  "evs \<in> {demo_before, demo_after} \<Longrightarrow>
     reload_reaches demo_config demo_server demo_mqtt (demo_reload evs)"
proof -
  have "\<not> Option.is_none (run_reload demo_config demo_server demo_before
      (reload_start demo_config demo_server demo_mqtt))"
    by code_simp
  moreover have "\<not> Option.is_none (run_reload demo_config demo_server demo_after
      (reload_start demo_config demo_server demo_mqtt))"
    by code_simp
  ultimately show "evs \<in> {demo_before, demo_after} \<Longrightarrow>
     reload_reaches demo_config demo_server demo_mqtt (demo_reload evs)"
    using run_reload_reaches [OF reload_begin] by (auto simp: demo_reload_def Option.is_none_def)
qed

lemma types_in_use_current_witness:
  "(\<exists>s'. reload_next demo_config demo_server (TaskSees TypesChanged) (demo_reload demo_before) =
      Some s' \<and> tk_phase (re_task s') = Connecting) \<and>
   (\<exists>types. re_used (demo_reload demo_after) = Some types \<and>
      revision_of types = revision_of [demo_type])"
proof -
  have "tk_phase (re_task (demo_reload demo_before)) = Live"
    "has_changed (re_watch (demo_reload demo_before)) (re_seen (demo_reload demo_before))"
    by code_simp+
  moreover have "tk_phase (re_task (demo_reload demo_after)) = Live"
    "\<not> has_changed (re_watch (demo_reload demo_after)) (re_seen (demo_reload demo_after))"
    "merge (pr_pulled (re_provider (demo_reload demo_after)))
       (re_pushed (demo_reload demo_after)) = [demo_type]"
    by code_simp+
  ultimately show ?thesis
    using types_in_use_current [OF demo_reload_reached, of demo_before]
      types_in_use_current [OF demo_reload_reached, of demo_after] by auto
qed

end
