(* ===== verification/Served.thy ===== *)
theory Served
  imports Watch Cloud_Servers Gateway_System
begin

text \<open>
  Servers from Cumulocity to the supervisor: \<open>run\<close> of \<open>crates/gateway/src/cloud_servers.rs\<close> sends them
  on the watch channel \<open>main\<close> creates, and \<open>run\<close> of \<open>crates/gateway/src/supervisor.rs\<close> borrows them for
  each reconciliation and is woken when they change.
\<close>

section \<open>The provider and the supervisor\<close>

record 'w served =
  sd_cloud :: cloud
  sd_stopped :: bool
  sd_watch :: "server_config list watch"
  sd_seen :: nat
  sd_system :: system
  sd_world :: 'w

text \<open>A poll says whether a receiver is left, which there is while the supervisor runs.\<close>

datatype served_event =
    CloudPolls bool
  | CloudStops
  | Supervises sys_event

definition served_start :: "config \<Rightarrow> 'w \<Rightarrow> 'w served" where
  "served_start c w =
     \<lparr>sd_cloud = cloud_init, sd_stopped = False, sd_watch = watch_channel [], sd_seen = 0,
      sd_system = sys_init c [], sd_world = w\<rparr>"

text \<open>What the receiver tells the supervisor: the newest servers, or that the provider is gone.\<close>

fun served_system ::
    "config \<Rightarrow> mqtt \<Rightarrow> sys_event \<Rightarrow> 'w served \<Rightarrow> (system \<times> nat) option" where
  "served_system c m (CloudChanged _) s =
     (if has_changed (sd_watch s) (sd_seen s)
      then map_option (\<lambda>y. (y, wt_version (sd_watch s)))
        (sys_next c m (CloudChanged (wt_value (sd_watch s))) (sd_system s))
      else None)"
| "served_system c m CloudClosed s =
     (if sd_stopped s \<and> \<not> has_changed (sd_watch s) (sd_seen s)
      then map_option (\<lambda>y. (y, sd_seen s)) (sys_next c m CloudClosed (sd_system s)) else None)"
| "served_system c m ev s = map_option (\<lambda>y. (y, sd_seen s)) (sys_next c m ev (sd_system s))"

fun served_next ::
    "config \<Rightarrow> 'w http \<Rightarrow> mqtt \<Rightarrow> served_event \<Rightarrow> 'w served \<Rightarrow> 'w served option" where
  "served_next c h m (CloudPolls consumers) s =
     (if sd_stopped s \<or> \<not> consumers \<and> sy_phase (sd_system s) \<noteq> SupOver then None
      else case cloud_step c h consumers (sd_cloud s) (sd_world s) of
             ((cl, sent, e), w) \<Rightarrow>
               Some (s\<lparr>sd_cloud := cl, sd_stopped := (e = NoConsumers), sd_world := w,
                 sd_watch :=
                   (case sent of
                      Some servers \<Rightarrow>
                        (if consumers then watch_send servers (sd_watch s) else sd_watch s)
                    | None \<Rightarrow> sd_watch s)\<rparr>))"
| "served_next c h m CloudStops s =
     (if sd_stopped s then None else Some (s\<lparr>sd_stopped := True\<rparr>))"
| "served_next c h m (Supervises ev) s =
     map_option (\<lambda>(y, seen). s\<lparr>sd_system := y, sd_seen := seen\<rparr>) (served_system c m ev s)"

inductive served_reaches ::
    "config \<Rightarrow> 'w http \<Rightarrow> mqtt \<Rightarrow> 'w \<Rightarrow> 'w served \<Rightarrow> bool" for c h m w where
  served_begin: "served_reaches c h m w (served_start c w)"
| served_step:
    "served_reaches c h m w s \<Longrightarrow> served_next c h m ev s = Some s' \<Longrightarrow> served_reaches c h m w s'"

text \<open>The servers the supervisor works with are the ones it reconciled last.\<close>

lemma sys_next_cloud:
  "sys_next c m ev s = Some s' \<Longrightarrow>
     sy_cloud s' = (case ev of CloudChanged cloud \<Rightarrow> cloud | _ \<Rightarrow> sy_cloud s)"
  by (cases ev)
    (auto simp: sup_next_def begin_reconcile_def dest: task_turn_servers
      split: option.splits sup_phase.splits list.splits if_splits)

lemma served_system_next:
  assumes "served_system c m ev s = Some (y, seen)"
  shows "\<exists>ev'. sys_next c m ev' (sd_system s) = Some y \<and>
    (seen = sd_seen s \<and> sy_cloud y = sy_cloud (sd_system s) \<or>
     seen = wt_version (sd_watch s) \<and> sy_cloud y = wt_value (sd_watch s))"
proof -
  let ?ev = "case ev of CloudChanged _ \<Rightarrow> CloudChanged (wt_value (sd_watch s)) | _ \<Rightarrow> ev"
  have "sys_next c m ?ev (sd_system s) = Some y \<and>
      seen = (case ev of CloudChanged _ \<Rightarrow> wt_version (sd_watch s) | _ \<Rightarrow> sd_seen s)"
    using assms by (cases ev) (auto simp del: sys_next.simps split: if_splits)
  with sys_next_cloud [of c m ?ev "sd_system s" y] show ?thesis
    by (intro exI [of _ ?ev]) (cases ev; simp del: sys_next.simps)
qed

interpretation servers_watch: watching "served_next c h m" sd_watch sd_seen
    "\<lambda>s. Some (sy_cloud (sd_system s))" for c h m
proof
  fix ev and s s' :: "'a served"
  assume step: "served_next c h m ev s = Some s'"
  show "sd_watch s' = sd_watch s \<or> (\<exists>v. sd_watch s' = watch_send v (sd_watch s))"
    using step by (cases ev) (auto split: if_splits prod.splits option.splits)
  show "sd_seen s' = sd_seen s \<and>
      (Some (sy_cloud (sd_system s')) = Some (sy_cloud (sd_system s)) \<or>
       Some (sy_cloud (sd_system s')) = None) \<or>
    sd_watch s' = sd_watch s \<and> sd_seen s' = wt_version (sd_watch s) \<and>
      (Some (sy_cloud (sd_system s')) = None \<or>
       Some (sy_cloud (sd_system s')) = Some (wt_value (sd_watch s)))"
  proof (cases ev)
    case (Supervises sev)
    with step obtain y seen where y: "served_system c m sev s = Some (y, seen)"
      "s' = s\<lparr>sd_system := y, sd_seen := seen\<rparr>" by auto
    from served_system_next [OF y(1)] y(2) show ?thesis by auto
  qed (use step in \<open>auto split: if_splits prod.splits\<close>)
qed

section \<open>The supervisor runs the newest servers\<close>

lemma cloud_step_revision:
  assumes "cloud_step c h consumers cl w = ((cl', sent, e), w')"
  shows "cl_revision cl' =
    (case sent of Some servers \<Rightarrow> servers_revision servers | None \<Rightarrow> cl_revision cl)"
proof -
  have look: "cl_revision (fst (lookup_done c r d cl)) = cl_revision cl" for r d
    by (auto simp: lookup_done_def split: sum.splits option.splits)
  have served: "cl_revision (fst (servers_done c r consumers d x)) =
      (case fst (snd (servers_done c r consumers d x)) of
         Some servers \<Rightarrow> servers_revision servers | None \<Rightarrow> cl_revision x)" for r d x
    by (auto simp: servers_done_def Let_def split: sum.splits)
  show ?thesis
    using assms look served
    by (auto simp: cloud_step_def split: option.splits prod.splits sum.splits) (metis fst_conv snd_conv option.simps)+
qed

definition served_ok :: "config \<Rightarrow> mqtt \<Rightarrow> 'w served \<Rightarrow> bool" where
  "served_ok c m s \<longleftrightarrow>
     sys_reaches c m [] (sd_system s) \<and>
     (sy_phase (sd_system s) \<noteq> SupOver \<longrightarrow>
        cl_revision (sd_cloud s) = servers_revision (wt_value (sd_watch s))) \<and>
     current (sd_watch s) (sd_seen s) (Some (sy_cloud (sd_system s)))"

lemma served_next_ok [step_rules]:
  assumes "served_ok c m s" "served_next c h m ev s = Some s'"
  shows "served_ok c m s'"
proof -
  have now: "current (sd_watch s') (sd_seen s') (Some (sy_cloud (sd_system s')))"
    using servers_watch.current_step [OF _ assms(2)] assms(1) by (simp add: served_ok_def)
  show ?thesis
  proof (cases ev)
    case (CloudPolls consumers)
    obtain cl sent e w where step: "cloud_step c h consumers (sd_cloud s) (sd_world s) =
        ((cl, sent, e), w)"
      by (cases "cloud_step c h consumers (sd_cloud s) (sd_world s)") auto
    from cloud_step_revision [OF step] step CloudPolls assms now show ?thesis
      by (auto simp: served_ok_def split: if_splits option.splits)
  next
    case (Supervises sev)
    with assms(2) obtain y seen where y: "served_system c m sev s = Some (y, seen)"
      "s' = s\<lparr>sd_system := y, sd_seen := seen\<rparr>" by auto
    from served_system_next [OF y(1)] obtain ev' where
      "sys_next c m ev' (sd_system s) = Some y" by blast
    with y assms(1) now show ?thesis
      by (auto simp: served_ok_def intro: sys_step dest: sys_next_stays_over)
  qed (use assms now in \<open>auto simp: served_ok_def split: if_splits\<close>)
qed

lemma served_reaches_ok: "served_reaches c h m w s \<Longrightarrow> served_ok c m s"
proof (induction rule: served_reaches.induct)
  case served_begin
  show ?case
    by (simp add: served_ok_def served_start_def sys_start cloud_init_def servers_revision_def
        current_def) (simp add: sys_init_def begin_reconcile_def)
qed (blast intro: served_next_ok)

text \<open>
  C7. The gateway runs the newest servers: whenever the supervisor waits, either the running tasks are
  exactly those of the servers the provider found last, overridden by the configured ones, or the
  supervisor is about to be told of a change, on which it reconciles with the newest servers. No
  update is lost, however polls, reconciliations and tasks interleave.
\<close>

theorem servers_in_use_current:
  assumes "served_reaches c h m w s" "sy_phase (sd_system s) = Waiting"
    and "distinct (map sc_id (wt_value (sd_watch s)))"
  shows "cl_revision (sd_cloud s) = servers_revision (wt_value (sd_watch s)) \<and>
    (if has_changed (sd_watch s) (sd_seen s)
     then \<exists>s'. served_next c h m (Supervises (CloudChanged [])) s = Some s' \<and>
       sy_phase (sd_system s') = Reconciling \<and>
       sy_cloud (sd_system s') = wt_value (sd_watch s') \<and> \<not> has_changed (sd_watch s') (sd_seen s')
     else map_option rt_server \<circ> hm_get (sy_running (sd_system s)) =
       map_of (map (\<lambda>x. (sc_id x, x)) (merge_servers (wt_value (sd_watch s)) (cf_servers c))))"
proof -
  have ok: "served_ok c m s" using served_reaches_ok [OF assms(1)] .
  show ?thesis
  proof (cases "has_changed (sd_watch s) (sd_seen s)")
    case True
    with ok assms(2) show ?thesis
      by (auto simp: served_ok_def begin_reconcile_def has_changed_def)
  next
    case False
    with ok have "sy_cloud (sd_system s) = wt_value (sd_watch s)"
      by (simp add: served_ok_def current_def)
    with False ok assms(2, 3) waiting_runs_desired [of c m "[]" "sd_system s"] show ?thesis
      by (simp add: served_ok_def)
  qed
qed

section \<open>Example\<close>

text \<open>The gateway's object is 17 and has one server below it; the external id of the server exists.\<close>

definition demo_tenant :: "unit http" where
  "demo_tenant =
     \<lparr>http_get = (\<lambda>url w.
        if contains_str ''externalIds'' url
        then (Response 200 (Some (json_object
               [(''managedObject'', json_object [(''id'', JStr ''17'')])])), w)
        else http_get (demo_cloud_http True) url w),
      http_post = (\<lambda>url b w. (Response 201 None, w)),
      http_base_url = [], http_urlencode = (\<lambda>s. s)\<rparr>"

definition demo_found :: "server_config list" where
  "demo_found =
     [\<lparr>sc_id = ''4711'', sc_name = ''4711'', sc_url = ''opc.tcp://plc:4840'',
       sc_security_policy = ''None'', sc_user = None, sc_password = None, sc_device_types = [],
       sc_external_id = Some ''tedge001:device:opcua-gateway:device:4711'',
       sc_topic_id = Some ''4711''\<rparr>]"

lemma demo_poll:
  "cloud_step demo_config demo_tenant True cloud_init () =
     ((\<lparr>cl_gateway_mo_id = Some ''17'', cl_revision = servers_revision demo_found, cl_misses = 0,
        cl_backoff = 1\<rparr>, Some demo_found, Sleep 60), ())"
  by code_simp

text \<open>The supervisor has started the configured server when the poll finds another one.\<close>

lemma demo_waiting:
  "\<exists>y. sup_next demo_config demo_mqtt (sys_init demo_config []) = Some y \<and>
     sup_next demo_config demo_mqtt y = Some (y\<lparr>sy_phase := Waiting\<rparr>)"
proof -
  have "sy_actions (sys_init demo_config []) = [Start demo_server [''plc'']]" by code_simp
  then show ?thesis
    by (simp add: sup_next_def sys_init_def begin_reconcile_def)
qed

lemma servers_in_use_current_witness:
  "\<exists>s. served_reaches demo_config demo_tenant demo_mqtt () s \<and>
     wt_value (sd_watch s) = demo_found \<and>
     (\<exists>s'. served_next demo_config demo_tenant demo_mqtt (Supervises (CloudChanged [])) s = Some s' \<and>
        sy_cloud (sd_system s') = demo_found)"
proof -
  let ?step = "served_next demo_config demo_tenant demo_mqtt"
  let ?s0 = "served_start demo_config ()"
  obtain y where y: "sup_next demo_config demo_mqtt (sys_init demo_config []) = Some y"
    "sup_next demo_config demo_mqtt y = Some (y\<lparr>sy_phase := Waiting\<rparr>)"
    using demo_waiting by blast
  let ?s1 = "?s0\<lparr>sd_system := y\<rparr>"
  let ?s2 = "?s0\<lparr>sd_system := y\<lparr>sy_phase := Waiting\<rparr>\<rparr>"
  have "?step (Supervises SupervisorRuns) ?s0 = Some ?s1"
    "?step (Supervises SupervisorRuns) ?s1 = Some ?s2"
    using y by (simp_all add: served_start_def)
  note s2 = served_step [OF served_step [OF served_begin this(1)] this(2)]
  obtain s where s: "?step (CloudPolls True) ?s2 = Some s" "wt_value (sd_watch s) = demo_found"
    "has_changed (sd_watch s) (sd_seen s)" "sy_phase (sd_system s) = Waiting"
    using demo_poll by (simp add: served_start_def has_changed_def)
  have reached: "served_reaches demo_config demo_tenant demo_mqtt () s"
    using s2 s(1) by (rule served_step)
  have "distinct (map sc_id (wt_value (sd_watch s)))" by (simp add: s(2) demo_found_def)
  from servers_in_use_current [OF reached s(4) this] s(2-4) reached show ?thesis
    by (intro exI [of _ s]) (auto simp: served_next.simps)
qed

end
