(* ===== verification/Tests_Mapping.thy ===== *)
theory Tests_Mapping
  imports Constraints Resolve Payload Source
begin

text \<open>
  The unit tests of \<open>crates/mapping/src\<close>, carried over and evaluated: each \<open>#[test]\<close> function is a
  definition of its name that says whether all its assertions hold, and one lemma for each file says
  that they do. They check the definitions of this development against what the authors of the code
  wrote down. JSON texts are given parsed, their members in the order of the text; an \<open>expect\<close> is a
  conjunct too.
\<close>

section \<open>Namespaces\<close>

definition ns_tests_table :: ns_table where
  "ns_tests_table =
     [''http://opcfoundation.org/UA/'', ''urn:freeopcua:python:server'',
      ''http://www.cumulocity.com'']"

definition resolves_namespace_uri_containing_colons :: bool where
  "resolves_namespace_uri_containing_colons \<longleftrightarrow>
     (let qn = to_qualified_name ns_tests_table ''http://www.cumulocity.com:Pump01'' in
      qn_namespace qn = 2 \<and> qn_name qn = ''Pump01'')"

definition resolves_urn_style_namespace_uri :: bool where
  "resolves_urn_style_namespace_uri \<longleftrightarrow>
     (let qn = to_qualified_name ns_tests_table ''urn:freeopcua:python:server:Boiler'' in
      qn_namespace qn = 1 \<and> qn_name qn = ''Boiler'')"

definition accepts_numeric_namespace_prefix_and_plain_name :: bool where
  "accepts_numeric_namespace_prefix_and_plain_name \<longleftrightarrow>
     qn_namespace (to_qualified_name ns_tests_table ''2:Pump01'') = 2 \<and>
     (let plain = to_qualified_name ns_tests_table ''Objects'' in
      qn_namespace plain = 0 \<and> qn_name plain = ''Objects'')"

definition unresolvable_prefix_falls_back_to_namespace_zero :: bool where
  "unresolvable_prefix_falls_back_to_namespace_zero \<longleftrightarrow>
     (let qn = to_qualified_name ns_tests_table ''http://unknown.example/:Thing'' in
      qn_namespace qn = 0 \<and> qn_name qn = ''http://unknown.example/:Thing'')"

definition parses_root_node_id_with_namespace_uri :: bool where
  "parses_root_node_id_with_namespace_uri \<longleftrightarrow>
     parse_node_id demo_lib ns_tests_table ''nsu=http://www.cumulocity.com;i=84'' =
     Inr (NodeId 2 (Numeric 84))"

definition parses_plain_and_indexed_node_ids :: bool where
  "parses_plain_and_indexed_node_ids \<longleftrightarrow>
     parse_node_id demo_lib ns_tests_table ''i=85'' = Inr (NodeId 0 (Numeric 85)) \<and>
     parse_node_id demo_lib ns_tests_table ''ns=2;s=Temp'' = Inr (NodeId 2 (IdString ''Temp''))"

definition rejects_unknown_namespace_uri :: bool where
  "rejects_unknown_namespace_uri \<longleftrightarrow>
     (case parse_node_id demo_lib ns_tests_table ''nsu=http://nope/;i=1'' of
        Inl (UnknownNamespace _) \<Rightarrow> True
      | _ \<Rightarrow> False)"

lemma namespace_tests_pass:
  resolves_namespace_uri_containing_colons
  resolves_urn_style_namespace_uri
  accepts_numeric_namespace_prefix_and_plain_name
  unresolvable_prefix_falls_back_to_namespace_zero
  parses_root_node_id_with_namespace_uri
  parses_plain_and_indexed_node_ids
  rejects_unknown_namespace_uri
  by code_simp+

section \<open>Values\<close>

text \<open>
  \<open>demo_lib\<close> takes a status to be good when its severity bits are clear, as OPC UA defines it.
  \<open>BadNodeIdUnknown\<close> is \<open>0x80340000\<close>; the two doubles are the quiet NaN and infinity.
\<close>

definition bad_status_and_empty_values_are_dropped :: bool where
  "bad_status_and_empty_values_are_dropped \<longleftrightarrow>
     (let default = \<lparr>dv_value = None, dv_status = None, dv_source_timestamp = None,
                     dv_server_timestamp = None\<rparr>;
          one = Some (VDouble (f64_of_int 1)) in
      is_bad demo_lib (default\<lparr>dv_value := one, dv_status := Some 0x80340000\<rparr>) \<and>
      is_bad demo_lib default \<and>
      \<not> is_bad demo_lib (default\<lparr>dv_value := one, dv_status := Some 0\<rparr>))"

definition booleans_become_one_and_zero :: bool where
  "booleans_become_one_and_zero \<longleftrightarrow>
     as_number (VBoolean True) = Some (f64_of_int 1) \<and>
     as_number (VBoolean False) = Some (f64_of_int 0)"

definition non_finite_doubles_are_dropped :: bool where
  "non_finite_doubles_are_dropped \<longleftrightarrow>
     as_number (VDouble 0x7FF8000000000000) = None \<and>
     as_number (VDouble 0x7FF0000000000000) = None"

definition alarm_flag_reads_numbers_and_strings :: bool where
  "alarm_flag_reads_numbers_and_strings \<longleftrightarrow>
     value_as_bool (VInt32 3) = Some True \<and>
     value_as_bool (VInt32 0) = Some False \<and>
     value_as_bool (VString ''TRUE'') = Some True \<and>
     value_as_bool (VString ''nope'') = Some False"

lemma value_tests_pass:
  bad_status_and_empty_values_are_dropped
  booleans_become_one_and_zero
  non_finite_doubles_are_dropped
  alarm_flag_reads_numbers_and_strings
  by code_simp+

section \<open>Device types\<close>

text \<open>The helper \<open>params\<close> of the tests, with what its caller asserts.\<close>

definition params_are :: "(subscription_params \<Rightarrow> bool) \<Rightarrow> (string \<times> json) list \<Rightarrow> bool" where
  "params_are check members \<longleftrightarrow> is_some_and check (de_subscription_params (JObj members))"

definition subscription_parameter_defaults_match_the_java_gateway :: bool where
  "subscription_parameter_defaults_match_the_java_gateway \<longleftrightarrow>
     params_are
       (\<lambda>p. sp_trigger p = TrStatusValue \<and> sp_discards_oldest p \<and> sp_deadband p = None \<and>
            sp_index_range p = None \<and> sp_is_valid p) []"

definition deadband_needs_both_a_type_and_a_value :: bool where
  "deadband_needs_both_a_type_and_a_value \<longleftrightarrow>
     (let half5 = f64_of_ratio False 5 2; ten = f64_of_int 10; five = f64_of_int 5 in
      params_are (\<lambda>p. sp_deadband p = Some (DbAbsolute, half5))
        [(''deadbandType'', JStr ''Absolute''), (''deadbandValue'', JNum (Flt half5))] \<and>
      params_are (\<lambda>p. sp_deadband p = Some (DbPercent, ten))
        [(''deadbandType'', JStr ''Percent''), (''deadbandValue'', JNum (Flt ten))] \<and>
      params_are (\<lambda>p. sp_deadband p = None) [(''deadbandType'', JStr ''None'')] \<and>
      params_are (\<lambda>p. sp_deadband p = None) [(''deadbandValue'', JNum (Flt five))])"

definition invalid_parameters_are_rejected_before_subscribing :: bool where
  "invalid_parameters_are_rejected_before_subscribing \<longleftrightarrow>
     params_are (\<lambda>p. \<not> sp_is_valid p)
       [(''deadbandType'', JStr ''Sideways''), (''deadbandValue'', JNum (Flt (f64_of_int 1)))] \<and>
     params_are (\<lambda>p. \<not> sp_is_valid p) [(''dataChangeTrigger'', JStr ''Whenever'')] \<and>
     params_are (\<lambda>p. \<not> sp_is_valid p) [(''ranges'', JStr ''not-a-range'')] \<and>
     params_are sp_is_valid [(''ranges'', JStr ''1:5'')] \<and>
     params_are sp_is_valid [(''ranges'', JStr ''0:3,2:4'')] \<and>
     params_are sp_is_valid [(''ranges'', JStr [])]"

definition index_range_ignores_blank_values :: bool where
  "index_range_ignores_blank_values \<longleftrightarrow>
     params_are (\<lambda>p. sp_index_range p = None) [(''ranges'', JStr ''  '')] \<and>
     params_are (\<lambda>p. sp_index_range p = Some ''1:5'') [(''ranges'', JStr '' 1:5 '')]"

definition subscription_kind_reads_the_device_type_field :: bool where
  "subscription_kind_reads_the_device_type_field \<longleftrightarrow>
     (let of_members = \<lambda>ms. map_option kind (de_subscription_type (JObj ms)) in
      of_members [(''type'', JStr ''Subscription'')] = Some KSubscription \<and>
      of_members [(''type'', JStr ''cyclicread'')] = Some KCyclicRead \<and>
      of_members [(''type'', JStr ''None'')] = Some KNone \<and>
      of_members [] = Some KNone)"

definition series_name_falls_back_to_node_id :: bool where
  "series_name_falls_back_to_node_id \<longleftrightarrow>
     (let m = \<lparr>mc_type = None, mc_series = Some ''  '', mc_fragment_name = None, mc_unit = None,
               mc_static_fragments = None\<rparr> in
      series_name m ''ns=2;s=Temp'' = ''series_ns2sTemp'' \<and>
      fragment_name m ''ns=2;s=Temp'' = ''measurement_ns2sTemp'')"

definition explicit_nulls_are_accepted_for_list_fields :: bool where
  "explicit_nulls_are_accepted_for_list_fields \<longleftrightarrow>
     is_some_and
       (\<lambda>dt. dt_name dt = [] \<and> dt_enabled dt \<and> dt_mappings dt = [] \<and>
             dt_overridden_subscriptions dt = [] \<and> dt_referenced_namespace_table dt = [])
       (de_device_type (
        JObj [(''name'', JNull), (''enabled'', JNull), (''mappings'', JNull),
        (''overriddenSubscriptions'', JNull), (''referencedNamespaceTable'', JNull),
        (''applyConstraints'', JNull), (''uaEventMappings'', JNull), (''referencedRootNodeId'',
        JNull), (''referencedServerId'', JNull)]))"

definition a_page_keeps_items_it_cannot_parse_as_raw_json :: bool where
  "a_page_keeps_items_it_cannot_parse_as_raw_json \<longleftrightarrow>
     is_some_and
       (\<lambda>page. length (pg_managed_objects page) = 2 \<and>
               Option.bind (pg_statistics page) stat_total_pages = Some 1)
       (de_managed_object_page (
        JObj [(''managedObjects'', JArr [JObj [(''id'', JStr ''1'')], JObj [(''id'', JStr ''2''),
        (''broken'', JBool True)]]), (''statistics'', JObj [(''totalPages'', JNum (PosInt 1)),
        (''currentPage'', JNum (PosInt 1)), (''pageSize'', JNum (PosInt 1000))])]))"

definition a_page_with_a_null_item_list_is_empty_not_an_error :: bool where
  "a_page_with_a_null_item_list_is_empty_not_an_error \<longleftrightarrow>
     is_some_and (\<lambda>page. pg_managed_objects page = [])
       (de_managed_object_page (JObj [(''managedObjects'', JNull)]))"

definition enabled_defaults_to_true_when_absent :: bool where
  "enabled_defaults_to_true_when_absent \<longleftrightarrow>
     is_some_and dt_enabled (de_device_type (JObj [(''name'', JStr ''x'')]))"

lemma model_tests_pass:
  subscription_parameter_defaults_match_the_java_gateway
  deadband_needs_both_a_type_and_a_value
  invalid_parameters_are_rejected_before_subscribing
  index_range_ignores_blank_values
  subscription_kind_reads_the_device_type_field
  series_name_falls_back_to_node_id
  explicit_nulls_are_accepted_for_list_fields
  a_page_keeps_items_it_cannot_parse_as_raw_json
  a_page_with_a_null_item_list_is_empty_not_an_error
  enabled_defaults_to_true_when_absent
  by code_simp+

section \<open>Constraints\<close>

definition constraint_tests_table :: ns_table where
  "constraint_tests_table = [''http://opcfoundation.org/UA/'']"

text \<open>The calls of \<open>applies\<close> in the tests, for a device type that parses.\<close>

definition type_applies :: "json \<Rightarrow> string \<Rightarrow> string list \<Rightarrow> bool option" where
  "type_applies v server_id known =
     map_option (\<lambda>dt. applies demo_lib dt server_id known constraint_tests_table)
       (de_device_type v)"

definition empty_constraints_apply_everywhere :: bool where
  "empty_constraints_apply_everywhere \<longleftrightarrow>
     type_applies (
        JObj [(''name'', JStr ''x''), (''applyConstraints'', JObj [(''matchesServerIds'', JArr
        []), (''matchesNodeIds'', JArr [])])])
       ''server-a'' [''server-a''] = Some True"

definition server_id_constraint_is_honoured :: bool where
  "server_id_constraint_is_honoured \<longleftrightarrow>
     (let dt =
        JObj [(''name'', JStr ''x''), (''applyConstraints'', JObj [(''matchesServerIds'', JArr
        [JStr ''server-b''])])];
          known = [''server-a'', ''server-b''] in
      type_applies dt ''server-a'' known = Some False \<and>
      type_applies dt ''server-b'' known = Some True)"

definition referenced_server_id_is_a_hint_not_a_filter :: bool where
  "referenced_server_id_is_a_hint_not_a_filter \<longleftrightarrow>
     (let dt = JObj [(''name'', JStr ''x''), (''referencedServerId'', JStr ''4368970342'')] in
      type_applies dt ''4368970342'' [''4368970342''] = Some True \<and>
      type_applies dt ''another-server'' [''another-server''] = Some True)"

definition matches_server_ids_naming_only_unknown_servers_is_ignored :: bool where
  "matches_server_ids_naming_only_unknown_servers_is_ignored \<longleftrightarrow>
     type_applies (
        JObj [(''name'', JStr ''x''), (''applyConstraints'', JObj [(''matchesServerIds'', JArr
        [JStr ''34703''])])])
       ''plc-1'' [''plc-1'', ''plc-2''] = Some True"

definition matches_server_ids_still_scopes_between_known_servers :: bool where
  "matches_server_ids_still_scopes_between_known_servers \<longleftrightarrow>
     (let dt =
        JObj [(''name'', JStr ''x''), (''applyConstraints'', JObj [(''matchesServerIds'', JArr
        [JStr ''plc-2''])])];
          ids = [''plc-1'', ''plc-2''] in
      type_applies dt ''plc-1'' ids = Some False \<and> type_applies dt ''plc-2'' ids = Some True)"

definition disabled_device_types_never_apply :: bool where
  "disabled_device_types_never_apply \<longleftrightarrow>
     type_applies (JObj [(''name'', JStr ''x''), (''enabled'', JBool False)])
       ''server-a'' [''server-a''] = Some False"

definition node_id_constraint_compares_against_the_authored_root :: bool where
  "node_id_constraint_compares_against_the_authored_root \<longleftrightarrow>
     type_applies (
        JObj [(''name'', JStr ''x''), (''referencedRootNodeId'', JStr
        ''nsu=http://opcfoundation.org/UA/;i=84''), (''applyConstraints'', JObj
        [(''matchesNodeIds'', JArr [JStr ''i=84''])])])
       ''server-a'' [''server-a''] = Some True \<and>
     type_applies (
        JObj [(''name'', JStr ''x''), (''referencedRootNodeId'', JStr ''i=85''),
        (''applyConstraints'', JObj [(''matchesNodeIds'', JArr [JStr ''i=84''])])])
       ''server-a'' [''server-a''] = Some False"

lemma constraint_tests_pass:
  empty_constraints_apply_everywhere
  server_id_constraint_is_honoured
  referenced_server_id_is_a_hint_not_a_filter
  matches_server_ids_naming_only_unknown_servers_is_ignored
  matches_server_ids_still_scopes_between_known_servers
  disabled_device_types_never_apply
  node_id_constraint_compares_against_the_authored_root
  by code_simp+

section \<open>Payloads\<close>

text \<open>
  \<open>tests_time\<close> stands for \<open>DateTime::ymd_hms(2026, 9, 4, 10, 0, 0)\<close>, in milliseconds of Unix time;
  \<open>tests_lib\<close> prints it as \<open>to_rfc3339\<close> does.
\<close>

definition tests_time :: datetime where
  "tests_time = 1788516000000"

definition tests_lib :: opc_lib where
  "tests_lib = demo_lib\<lparr>lib_rfc3339 :=
     (\<lambda>t. if t = tests_time then ''2026-09-04T10:00:00.000Z'' else show_int t)\<rparr>"

definition good_value :: "variant \<Rightarrow> data_value" where
  "good_value v =
     \<lparr>dv_value = Some v, dv_status = Some 0, dv_source_timestamp = Some tests_time,
      dv_server_timestamp = None\<rparr>"

definition tests_creation :: "string \<Rightarrow> string \<Rightarrow> measurement_creation" where
  "tests_creation fragment series =
     \<lparr>mc_type = Some ''pump'', mc_series = Some series, mc_fragment_name = Some fragment,
      mc_unit = Some ''l/m'', mc_static_fragments = None\<rparr>"

text \<open>Indexing a value, \<open>out[k]\<close>: \<open>null\<close> when there is no such member.\<close>

definition jindex :: "json \<Rightarrow> string \<Rightarrow> json" where
  "jindex v k = unwrap_or JNull (jget k v)"

definition groups_series_by_fragment_in_one_message :: bool where
  "groups_series_by_fragment_in_one_message \<longleftrightarrow>
     (let half7 = f64_of_ratio False 7 2;
          (ok1, b) = mb_add tests_lib (tests_creation ''pump'' ''flow'') ''ns=2;i=1''
                       (good_value (VDouble half7)) mb_new;
          (ok2, b) = mb_add tests_lib (tests_creation ''pump'' ''power'') ''ns=2;i=2''
                       (good_value (VInt32 42)) b in
      ok1 \<and> ok2 \<and>
      is_some_and
        (\<lambda>out. jindex (jindex out ''pump'') ''flow'' = JNum (Flt half7) \<and>
               jindex (jindex out ''pump'') ''power'' = JNum (Flt (f64_of_int 42)) \<and>
               jindex out ''time'' = JStr ''2026-09-04T10:00:00.000Z'')
        (mb_build tests_lib b))"

definition non_numeric_series_is_skipped_not_published :: bool where
  "non_numeric_series_is_skipped_not_published \<longleftrightarrow>
     (let (ok, b) = mb_add tests_lib (tests_creation ''pump'' ''state'') ''ns=2;i=1''
                      (good_value (VString ''running'')) mb_new in
      \<not> ok \<and> mb_build tests_lib b = None)"

definition event_text_substitutes_value :: bool where
  "event_text_substitutes_value \<longleftrightarrow>
     (let creation = \<lparr>ec_type = Some ''pumpState'', ec_text = Some ''Pump state ${value}'',
                      ec_static_fragments = None\<rparr>;
          out = event_payload tests_lib creation ''ns=2;i=9'' (good_value (VString ''RUNNING'')) in
      jindex out ''text'' = JStr ''Pump state RUNNING'' \<and>
      jget ''c8y_ua_SourceNodeId_ns=2;i=9'' out \<noteq> None)"

definition alarm_severity_is_lowercased_for_thin_edge :: bool where
  "alarm_severity_is_lowercased_for_thin_edge \<longleftrightarrow>
     (let creation = \<lparr>ac_type = Some ''pumpAlert'', ac_text = Some ''Pump in alert state'',
                      ac_severity = Some ''CRITICAL'', ac_static_fragments = None\<rparr>;
          out = alarm_payload tests_lib creation ''ns=2;i=9'' (good_value (VBoolean True)) in
      jindex out ''severity'' = JStr ''critical'')"

lemma payload_tests_pass:
  groups_series_by_fragment_in_one_message
  non_numeric_series_is_skipped_not_published
  event_text_substitutes_value
  alarm_severity_is_lowercased_for_thin_edge
  by code_simp+

section \<open>Revisions\<close>

definition a_revision_diff_names_what_moved :: bool where
  "a_revision_diff_names_what_moved \<longleftrightarrow>
     (let before = fold (\<lambda>(k, v). bt_insert k v)
                     [(''a'', (Pull, ''t1'')), (''b'', (Pull, ''t1''))] [];
          after = fold (\<lambda>(k, v). bt_insert k v)
                    [(''a'', (Pull, ''t2'')), (''c'', (Push, ''t1''))] [];
          diff = between before after in
      rd_changed diff = [''a''] \<and> rd_added diff = [''c''] \<and> rd_removed diff = [''b''] \<and>
      \<not> diff_is_empty diff \<and> diff_is_empty (between after after))"

definition taking_over_a_device_type_counts_as_a_change :: bool where
  "taking_over_a_device_type_counts_as_a_change \<longleftrightarrow>
     (let before = fold (\<lambda>(k, v). bt_insert k v) [(''a'', (Pull, ''t1''))] [];
          after = fold (\<lambda>(k, v). bt_insert k v) [(''a'', (Push, ''t1''))] [] in
      rd_changed (between before after) = [''a''])"

definition missing_directory_is_not_an_error :: bool where
  "missing_directory_is_not_an_error \<longleftrightarrow> load_dir (\<lambda>_. None) NotFound = []"

lemma revision_tests_pass:
  a_revision_diff_names_what_moved
  taking_over_a_device_type_counts_as_a_change
  missing_directory_is_not_an_error
  by code_simp+

end
