(* ===== verification/Tests_Fixture.thy ===== *)
theory Tests_Fixture
  imports Tests_Mapping
begin

text \<open>
  The unit tests of \<open>crates/mapping/src\<close> that read the device type exported from a tenant,
  \<open>tests/fixtures/pump01-device-type.json\<close>: those of \<open>resolve.rs\<close>, and the rest of \<open>source.rs\<close>. They
  take an export as Cumulocity writes it through the whole of the mapping rules.
\<close>

section \<open>The fixture\<close>

definition pump01 :: json where
  "pump01 =
     JObj [(''id'', JStr ''4168968253''), (''type'', JStr ''c8y_OpcuaDeviceType''), (''name'',
     JStr ''Pump01-ThinEdge-cooling-line-mstoffel''), (''lastUpdated'', JStr
     ''2026-06-30T14:27:26.160Z''), (''creationTime'', JStr ''2026-06-30T14:27:26.160Z''),
     (''owner'', JStr ''fixture@example.com''), (''childDevices'', JObj [(''references'', JArr
     [])]), (''childAssets'', JObj [(''references'', JArr [])]), (''childAdditions'', JObj
     [(''references'', JArr [])]), (''deviceParents'', JObj [(''references'', JArr [])]),
     (''assetParents'', JObj [(''references'', JArr [])]), (''additionParents'', JObj
     [(''references'', JArr [])]), (''com_cumulocity_opcua_common_model_mapping_DeviceType'', JObj
     [(''applyConstraints'', JObj [(''serverObjectHasFragment'', JStr ''''),
     (''browsePathMatchesRegex'', JStr ''''), (''serverHasNodeWithValues'', JNull),
     (''matchesNodeIds'', JArr []), (''matchesServerIds'', JArr [])]), (''description'', JStr
     ''Device Type for Pump01-ThinEdge-cooling-line-mstoffel''), (''overriddenSubscriptions'',
     JArr [JObj [(''subscriptionType'', JObj [(''cyclicReadParameters'', JObj [(''valid'', JBool
     True), (''maxAge'', JNum (PosInt 0)), (''rate'', JNum (PosInt 50))]),
     (''subscriptionParameters'', JObj [(''dataChangeTrigger'', JStr ''StatusValue''),
     (''queueSize'', JNum (PosInt 10)), (''deadbandValue'', JNull), (''ranges'', JStr ''''),
     (''samplingRate'', JNum (PosInt 1000)), (''discardOldest'', JBool True), (''deadbandType'',
     JStr ''None'')]), (''type'', JStr ''Subscription'')]), (''browsePath'', JArr [JStr
     ''http://opcfoundation.org/UA/:Objects'', JStr ''http://www.cumulocity.com:Pump01'', JStr
     ''http://www.cumulocity.com:operatingLevel''])], JObj [(''subscriptionType'', JObj
     [(''cyclicReadParameters'', JObj [(''valid'', JBool True), (''maxAge'', JNum (PosInt 0)),
     (''rate'', JNum (PosInt 50))]), (''subscriptionParameters'', JObj [(''dataChangeTrigger'',
     JStr ''StatusValue''), (''queueSize'', JNum (PosInt 10)), (''deadbandValue'', JNull),
     (''ranges'', JStr ''''), (''samplingRate'', JNum (PosInt 1000)), (''discardOldest'', JBool
     True), (''deadbandType'', JStr ''None'')]), (''type'', JStr ''Subscription'')]),
     (''browsePath'', JArr [JStr ''http://opcfoundation.org/UA/:Objects'', JStr
     ''http://www.cumulocity.com:Pump01'', JStr ''http://www.cumulocity.com:activeAlarm''])], JObj
     [(''subscriptionType'', JObj [(''cyclicReadParameters'', JObj [(''valid'', JBool True),
     (''maxAge'', JNum (PosInt 0)), (''rate'', JNum (PosInt 50))]), (''subscriptionParameters'',
     JObj [(''dataChangeTrigger'', JStr ''StatusValue''), (''queueSize'', JNum (PosInt 10)),
     (''deadbandValue'', JNull), (''ranges'', JStr ''''), (''samplingRate'', JNum (PosInt 1000)),
     (''discardOldest'', JBool True), (''deadbandType'', JStr ''None'')]), (''type'', JStr
     ''Subscription'')]), (''browsePath'', JArr [JStr ''http://opcfoundation.org/UA/:Objects'',
     JStr ''http://www.cumulocity.com:Pump01'', JStr ''http://www.cumulocity.com:status''])]]),
     (''enabled'', JBool True), (''mappings'', JArr [JObj [(''customAction'', JNull),
     (''alarmCreation'', JNull), (''eventCreation'', JNull), (''name'', JStr ''flow''),
     (''referencedNodeId'', JNull), (''browsePath'', JArr [JStr
     ''http://opcfoundation.org/UA/:Objects'', JStr ''http://www.cumulocity.com:Pump01'', JStr
     ''http://www.cumulocity.com:flow'']), (''measurementCreation'', JObj
     [(''overriddenProcessingMode'', JNull), (''staticFragments'', JNull), (''unit'', JStr
     ''l/m''), (''supportedProcessingModes'', JArr [JStr ''QUIESCENT'', JStr ''TRANSIENT'', JStr
     ''CEP'', JStr ''PERSISTENT'']), (''fragmentName'', JStr ''flow''), (''series'', JStr
     ''flow''), (''mappingActionName'', JStr ''Measurement''), (''type'', JStr ''flow'')])], JObj
     [(''customAction'', JNull), (''alarmCreation'', JNull), (''eventCreation'', JNull),
     (''name'', JStr ''operatingLevel''), (''referencedNodeId'', JNull), (''browsePath'', JArr
     [JStr ''http://opcfoundation.org/UA/:Objects'', JStr ''http://www.cumulocity.com:Pump01'',
     JStr ''http://www.cumulocity.com:operatingLevel'']), (''measurementCreation'', JObj
     [(''overriddenProcessingMode'', JNull), (''staticFragments'', JNull), (''unit'', JStr ''%''),
     (''supportedProcessingModes'', JArr [JStr ''QUIESCENT'', JStr ''TRANSIENT'', JStr ''CEP'',
     JStr ''PERSISTENT'']), (''fragmentName'', JStr ''operatingLevel''), (''series'', JStr
     ''operatingLevel''), (''mappingActionName'', JStr ''Measurement''), (''type'', JStr
     ''operatingLevel'')])], JObj [(''customAction'', JNull), (''alarmCreation'', JNull),
     (''eventCreation'', JNull), (''name'', JStr ''bearingTemperature''), (''referencedNodeId'',
     JNull), (''browsePath'', JArr [JStr ''http://opcfoundation.org/UA/:Objects'', JStr
     ''http://www.cumulocity.com:Pump01'', JStr
     ''http://www.cumulocity.com:bearingTemperature'']), (''measurementCreation'', JObj
     [(''overriddenProcessingMode'', JNull), (''staticFragments'', JNull), (''unit'', JStr ''c''),
     (''supportedProcessingModes'', JArr [JStr ''QUIESCENT'', JStr ''TRANSIENT'', JStr ''CEP'',
     JStr ''PERSISTENT'']), (''fragmentName'', JStr ''bearingTemperature''), (''series'', JStr
     ''bearingTemperature''), (''mappingActionName'', JStr ''Measurement''), (''type'', JStr
     ''bearingTemperature'')])], JObj [(''customAction'', JNull), (''alarmCreation'', JNull),
     (''eventCreation'', JNull), (''name'', JStr ''runHours''), (''referencedNodeId'', JNull),
     (''browsePath'', JArr [JStr ''http://opcfoundation.org/UA/:Objects'', JStr
     ''http://www.cumulocity.com:Pump01'', JStr ''http://www.cumulocity.com:runHours'']),
     (''measurementCreation'', JObj [(''overriddenProcessingMode'', JNull), (''staticFragments'',
     JNull), (''unit'', JStr ''h''), (''supportedProcessingModes'', JArr [JStr ''QUIESCENT'', JStr
     ''TRANSIENT'', JStr ''CEP'', JStr ''PERSISTENT'']), (''fragmentName'', JStr ''runHours''),
     (''series'', JStr ''runHours''), (''mappingActionName'', JStr ''Measurement''), (''type'',
     JStr ''runHours'')])], JObj [(''customAction'', JNull), (''alarmCreation'', JObj
     [(''overriddenProcessingMode'', JNull), (''severity'', JStr ''CRITICAL''),
     (''staticFragments'', JNull), (''supportedProcessingModes'', JArr [JStr ''PERSISTENT'']),
     (''mappingActionName'', JStr ''Alarm''), (''text'', JStr ''Pump in alert state''), (''type'',
     JStr ''pumpAlert''), (''status'', JNull)]), (''eventCreation'', JNull), (''name'', JStr
     ''activeAlarm''), (''referencedNodeId'', JNull), (''browsePath'', JArr [JStr
     ''http://opcfoundation.org/UA/:Objects'', JStr ''http://www.cumulocity.com:Pump01'', JStr
     ''http://www.cumulocity.com:activeAlarm'']), (''measurementCreation'', JNull)], JObj
     [(''customAction'', JNull), (''alarmCreation'', JNull), (''eventCreation'', JObj
     [(''overriddenProcessingMode'', JNull), (''staticFragments'', JNull),
     (''supportedProcessingModes'', JArr [JStr ''QUIESCENT'', JStr ''TRANSIENT'', JStr ''CEP'',
     JStr ''PERSISTENT'']), (''mappingActionName'', JStr ''Event''), (''text'', JStr
     ''Pump state ${value}''), (''type'', JStr ''pumpState'')]), (''name'', JStr ''status''),
     (''referencedNodeId'', JNull), (''browsePath'', JArr [JStr
     ''http://opcfoundation.org/UA/:Objects'', JStr ''http://www.cumulocity.com:Pump01'', JStr
     ''http://www.cumulocity.com:status'']), (''measurementCreation'', JNull)], JObj
     [(''customAction'', JNull), (''alarmCreation'', JNull), (''eventCreation'', JNull),
     (''name'', JStr ''inflowTemperature''), (''referencedNodeId'', JNull), (''browsePath'', JArr
     [JStr ''http://opcfoundation.org/UA/:Objects'', JStr ''http://www.cumulocity.com:Pump01'',
     JStr ''http://www.cumulocity.com:inflowTemperature'']), (''measurementCreation'', JObj
     [(''overriddenProcessingMode'', JNull), (''staticFragments'', JNull), (''unit'', JStr ''c''),
     (''supportedProcessingModes'', JArr [JStr ''QUIESCENT'', JStr ''TRANSIENT'', JStr ''CEP'',
     JStr ''PERSISTENT'']), (''fragmentName'', JStr ''inflowTemperature''), (''series'', JStr
     ''inflowTemperature''), (''mappingActionName'', JStr ''Measurement''), (''type'', JStr
     ''inflowTemperature'')])], JObj [(''customAction'', JNull), (''alarmCreation'', JNull),
     (''eventCreation'', JNull), (''name'', JStr ''filterState''), (''referencedNodeId'', JNull),
     (''browsePath'', JArr [JStr ''http://opcfoundation.org/UA/:Objects'', JStr
     ''http://www.cumulocity.com:Pump01'', JStr ''http://www.cumulocity.com:filterState'']),
     (''measurementCreation'', JObj [(''overriddenProcessingMode'', JNull), (''staticFragments'',
     JNull), (''unit'', JStr ''%''), (''supportedProcessingModes'', JArr [JStr ''QUIESCENT'', JStr
     ''TRANSIENT'', JStr ''CEP'', JStr ''PERSISTENT'']), (''fragmentName'', JStr ''filterState''),
     (''series'', JStr ''filterState''), (''mappingActionName'', JStr ''Measurement''), (''type'',
     JStr ''filterState'')])], JObj [(''customAction'', JNull), (''alarmCreation'', JNull),
     (''eventCreation'', JNull), (''name'', JStr ''power''), (''referencedNodeId'', JNull),
     (''browsePath'', JArr [JStr ''http://opcfoundation.org/UA/:Objects'', JStr
     ''http://www.cumulocity.com:Pump01'', JStr ''http://www.cumulocity.com:power'']),
     (''measurementCreation'', JObj [(''overriddenProcessingMode'', JNull), (''staticFragments'',
     JNull), (''unit'', JStr ''W''), (''supportedProcessingModes'', JArr [JStr ''QUIESCENT'', JStr
     ''TRANSIENT'', JStr ''CEP'', JStr ''PERSISTENT'']), (''fragmentName'', JStr ''power''),
     (''series'', JStr ''power''), (''mappingActionName'', JStr ''Measurement''), (''type'', JStr
     ''power'')])], JObj [(''customAction'', JNull), (''alarmCreation'', JNull),
     (''eventCreation'', JNull), (''name'', JStr ''filterDegradationRate''),
     (''referencedNodeId'', JNull), (''browsePath'', JArr [JStr
     ''http://opcfoundation.org/UA/:Objects'', JStr ''http://www.cumulocity.com:Pump01'', JStr
     ''http://www.cumulocity.com:filterDegradationRate'']), (''measurementCreation'', JNull)]]),
     (''uaEventMappings'', JNull), (''referencedServerName'', JNull), (''subscriptionType'', JObj
     [(''cyclicReadParameters'', JObj [(''valid'', JBool True), (''maxAge'', JNum (PosInt 0)),
     (''rate'', JNum (PosInt 3000))]), (''subscriptionParameters'', JNull), (''type'', JStr
     ''CyclicRead'')]), (''name'', JStr ''Pump01-ThinEdge-cooling-line-mstoffel''),
     (''referencedNamespaceTable'', JArr [JStr ''http://opcfoundation.org/UA/'', JStr
     ''urn:freeopcua:python:server'', JStr ''http://www.cumulocity.com'']), (''processingMode'',
     JNull), (''referencedRootNodeId'', JStr ''nsu=http://opcfoundation.org/UA/;i=84''),
     (''referencedServerId'', JStr ''4368970342'')])]"

definition pump01_type :: "(string \<times> device_type) option" where
  "pump01_type =
     Option.bind (de_managed_object pump01) (\<lambda>mo. map_option (Pair (mo_id mo)) (mo_device_type mo))"

section \<open>Resolving\<close>

text \<open>The plan each test begins with, and the tests' helper that resolves all of it.\<close>

definition pump01_plan :: "plan option" where
  "pump01_plan =
     Option.bind pump01_type (\<lambda>(i, dt).
       case plan_of demo_lib i dt ns_tests_table of Inl _ \<Rightarrow> None | Inr p \<Rightarrow> Some p)"

text \<open>What it is: nine entries, each a node of the pump named as the entry.\<close>

definition pump01_entry :: "string \<Rightarrow> action \<Rightarrow> delivery \<Rightarrow> entry" where
  "pump01_entry name a d =
     \<lparr>en_name = name, en_actions = [a],
      en_node_ref = Path [QName 0 ''Objects'', QName 2 ''Pump01'', QName 2 name], en_delivery = d\<rparr>"

definition pump01_series :: "string \<Rightarrow> string \<Rightarrow> action" where
  "pump01_series name u =
     Measurement \<lparr>mc_type = Some name, mc_series = Some name, mc_fragment_name = Some name,
                  mc_unit = Some u, mc_static_fragments = None\<rparr>"

text \<open>A sampling rate of \<open>1000.0\<close> milliseconds, as the bits of the double.\<close>

definition pump01_sampled :: delivery where
  "pump01_sampled =
     Subscription
       \<lparr>sp_sampling_rate = Some 0x408F400000000000, sp_queue_size = Some 10,
        sp_deadband_type = Some ''None'', sp_deadband_value = None, sp_ranges = Some [],
        sp_data_change_trigger = Some ''StatusValue'', sp_discard_oldest = Some True\<rparr>"

definition pump01_planned :: plan where
  "pump01_planned =
     \<lparr>pl_device_type_id = ''4168968253'',
      pl_device_type_name = ''Pump01-ThinEdge-cooling-line-mstoffel'',
      pl_root_node_id = NodeId 0 (Numeric 84),
      pl_entries =
        [pump01_entry ''flow'' (pump01_series ''flow'' ''l/m'') (CyclicRead 3000 0),
         pump01_entry ''operatingLevel'' (pump01_series ''operatingLevel'' ''%'') pump01_sampled,
         pump01_entry ''bearingTemperature'' (pump01_series ''bearingTemperature'' ''c'')
           (CyclicRead 3000 0),
         pump01_entry ''runHours'' (pump01_series ''runHours'' ''h'') (CyclicRead 3000 0),
         pump01_entry ''activeAlarm''
           (Alarm \<lparr>ac_type = Some ''pumpAlert'', ac_text = Some ''Pump in alert state'',
                   ac_severity = Some ''CRITICAL'', ac_static_fragments = None\<rparr>) pump01_sampled,
         pump01_entry ''status''
           (Event \<lparr>ec_type = Some ''pumpState'', ec_text = Some ''Pump state ${value}'',
                   ec_static_fragments = None\<rparr>) pump01_sampled,
         pump01_entry ''inflowTemperature'' (pump01_series ''inflowTemperature'' ''c'')
           (CyclicRead 3000 0),
         pump01_entry ''filterState'' (pump01_series ''filterState'' ''%'') (CyclicRead 3000 0),
         pump01_entry ''power'' (pump01_series ''power'' ''W'') (CyclicRead 3000 0)]\<rparr>"

lemma pump01_plan_eq: "pump01_plan = Some pump01_planned"
  by code_simp

definition resolve_pending :: "plan \<Rightarrow> plan" where
  "resolve_pending p =
     fold (\<lambda>(i, _). set_resolved i (NodeId 2 (IdString (''n'' @ show_nat i)))) (pending_paths p) p"

definition plans_every_mapped_entry_from_the_real_device_type :: bool where
  "plans_every_mapped_entry_from_the_real_device_type \<longleftrightarrow>
     is_some_and
       (\<lambda>p. pl_root_node_id p = NodeId 0 (Numeric 84) \<and> length (pending_paths p) = 9)
       pump01_plan"

definition overridden_subscriptions_win_over_the_device_type_default :: bool where
  "overridden_subscriptions_win_over_the_device_type_default \<longleftrightarrow>
     is_some_and
       (\<lambda>p. let resolved = finish demo_lib (resolve_pending p);
                subscribed = length (subscribed_nodes resolved);
                groups = read_groups resolved in
            subscribed = 3 \<and> length (rm_nodes resolved) - subscribed = 6 \<and>
            (case groups of
               [(schedule, _)] \<Rightarrow> rs_rate_ms schedule = 3000 \<and> rs_max_age_ms schedule = 0
             | _ \<Rightarrow> False))
       pump01_plan"

definition subscribed_nodes_carry_the_overridden_parameters :: bool where
  "subscribed_nodes_carry_the_overridden_parameters \<longleftrightarrow>
     is_some_and
       (\<lambda>p. case subscribed_nodes (finish demo_lib (resolve_pending p)) of
              [] \<Rightarrow> False
            | n # _ \<Rightarrow>
                is_some_and
                  (\<lambda>ps. sp_sampling_rate ps = Some (f64_of_int 1000) \<and>
                        sp_queue_size ps = Some 10 \<and> sp_trigger ps = TrStatusValue \<and>
                        sp_discards_oldest ps \<and> sp_deadband ps = None)
                  (node_subscription_parameters n))
       pump01_plan"

definition unresolved_entries_are_dropped_not_fatal :: bool where
  "unresolved_entries_are_dropped_not_fatal \<longleftrightarrow>
     is_some_and
       (\<lambda>p. map rn_node_id (rm_nodes (finish demo_lib
              (set_resolved 0 (NodeId 2 (IdString ''flow'')) p))) =
            [NodeId 2 (IdString ''flow'')])
       pump01_plan"

definition measurement_units_are_grouped_by_type :: bool where
  "measurement_units_are_grouped_by_type \<longleftrightarrow>
     is_some_and
       (\<lambda>p. let units = measurement_units (finish demo_lib (resolve_pending p)) in
            bt_get units ''flow'' = Some [(''flow'', ''l/m'')] \<and>
            bt_get units ''power'' = Some [(''power'', ''W'')])
       pump01_plan"

text \<open>Nodes that are all read on one schedule, when they are read at all, are one group.\<close>

lemma push_same_key:
  "fold (\<lambda>kv. bt_push (fst kv) (snd kv)) (map (Pair k) (vs @ [v])) [] = [(k, vs @ [v])]"
proof (induction vs arbitrary: v rule: rev_induct)
  case Nil
  then show ?case by (simp add: bt_push_def)
next
  case (snoc w vs)
  then show ?case by (simp add: bt_push_def)
qed

lemma one_schedule:
  assumes "set (filter_map node_read_schedule (rm_nodes rm)) = {s}"
  shows "map fst (read_groups rm) = [s]"
proof -
  let ?ns = "filter (\<lambda>n. node_read_schedule n = Some s) (rm_nodes rm)"
  have "filter_map scheduled ns = map (Pair s) (filter (\<lambda>n. node_read_schedule n = Some s) ns)"
    if "set (filter_map node_read_schedule ns) \<subseteq> {s}" for ns
    using that by (induction ns) (auto simp: scheduled_def split: option.splits)
  moreover have "?ns \<noteq> []"
    using assms by (auto simp: filter_empty_conv set_filter_map)
  then obtain vs v where "?ns = vs @ [v]" using rev_exhaust by blast
  ultimately show ?thesis using assms push_same_key [of s vs v] by (simp add: read_groups_pushed)
qed

lemma pump01_deliveries:
  "map rn_delivery (rm_nodes (finish demo_lib (resolve_pending pump01_planned))) =
     [CyclicRead 3000 0, pump01_sampled, CyclicRead 3000 0, CyclicRead 3000 0, pump01_sampled,
      pump01_sampled, CyclicRead 3000 0, CyclicRead 3000 0, CyclicRead 3000 0]"
  by code_simp

lemma no_age: "f64_to_u64 (f64_max_zero 0) = 0"
  by (simp add: f64_to_u64_def f64_max_zero_def f64_trunc_def f64_mant_def
      f64_is_nan_def f64_exp_def f64_frac_def f64_sign_def f64_is_finite_def)

lemma pump01_schedules:
  "set (filter_map node_read_schedule (rm_nodes (finish demo_lib (resolve_pending pump01_planned)))) =
   {ReadSchedule 3000 0}"
proof -
  have "filter_map node_read_schedule ns = filter_map read_schedule_of (map rn_delivery ns)" for ns
    by (induction ns) (simp_all add: node_schedule_of split: option.splits)
  then show ?thesis
    by (simp add: pump01_deliveries pump01_sampled_def read_schedule_of_def no_age)
qed

lemma overrides_test_passes: overridden_subscriptions_win_over_the_device_type_default
proof -
  let ?rm = "finish demo_lib (resolve_pending pump01_planned)"
  have groups: "map fst (read_groups ?rm) = [ReadSchedule 3000 0]"
    by (rule one_schedule) (rule pump01_schedules)
  have "length (filter is_subscription (map rn_delivery (rm_nodes ?rm))) = 3"
    by (simp add: pump01_deliveries pump01_sampled_def)
  then have "length (subscribed_nodes ?rm) = 3"
    by (simp add: subscribed_nodes_def filter_map o_def)
  moreover have "length (rm_nodes ?rm) = 9"
    using arg_cong [OF pump01_deliveries, of length] by simp
  moreover obtain ns where "read_groups ?rm = [(ReadSchedule 3000 0, ns)]"
    using groups by (cases "read_groups ?rm") auto
  ultimately show ?thesis
    by (simp add: overridden_subscriptions_win_over_the_device_type_default_def pump01_plan_eq Let_def)
qed

lemma resolve_tests_pass:
  plans_every_mapped_entry_from_the_real_device_type
  subscribed_nodes_carry_the_overridden_parameters
  unresolved_entries_are_dropped_not_fatal
  measurement_units_are_grouped_by_type
  unfolding plans_every_mapped_entry_from_the_real_device_type_def
    subscribed_nodes_carry_the_overridden_parameters_def
    unresolved_entries_are_dropped_not_fatal_def measurement_units_are_grouped_by_type_def pump01_plan_eq
  by code_simp+

section \<open>Sources\<close>

text \<open>
  The directory the test writes. A file's text is a word for its content; \<open>fixture_json\<close> is what
  \<open>serde_json\<close> makes of it.
\<close>

definition fixture_json :: "string \<Rightarrow> json option" where
  "fixture_json txt = (if txt = ''FIXTURE'' then Some pump01 else None)"

definition fixture_file :: "string \<Rightarrow> string \<Rightarrow> string \<Rightarrow> dir_entry" where
  "fixture_file stem ext txt =
     \<lparr>fe_path = stem @ ''.'' @ ext, fe_extension = Some ext, fe_stem = Some stem,
      fe_text = Some txt, fe_meta = Some \<lparr>fm_len = length txt, fm_modified_ms = Some 0\<rparr>\<rparr>"

definition reads_a_managed_object_export_from_disk :: bool where
  "reads_a_managed_object_export_from_disk \<longleftrightarrow>
     (case load_dir fixture_json
        (Entries [fixture_file ''pump'' ''json'' ''FIXTURE'',
                  fixture_file ''notes'' ''txt'' ''ignored'']) of
        [l] \<Rightarrow>
          ld_id l = ''4168968253'' \<and> ld_origin l = Push \<and>
          length (dt_mappings (ld_device_type l)) = 10
      | _ \<Rightarrow> False)"

definition pushed_files_win_over_pulled_device_types :: bool where
  "pushed_files_win_over_pulled_device_types \<longleftrightarrow>
     is_some_and
       (\<lambda>l. let local_type = (ld_device_type l)\<lparr>dt_name := ''local override''\<rparr> in
            (case merge [l] [l\<lparr>ld_origin := Push, ld_device_type := local_type\<rparr>] of
               [m] \<Rightarrow> ld_origin m = Push \<and> dt_name (ld_device_type m) = ''local override''
             | _ \<Rightarrow> False))
       (Option.bind (de_managed_object pump01) from_managed_object)"

lemma source_tests_pass:
  reads_a_managed_object_export_from_disk
  pushed_files_win_over_pulled_device_types
  by code_simp+

end
