(* ===== verification/Tests_Gateway.thy ===== *)
theory Tests_Gateway
  imports Topic Proxy Operations Cloud_Servers
begin

text \<open>
  The unit tests of \<open>crates/tedge/src\<close> and \<open>crates/gateway/src\<close>, carried over and evaluated in the
  same way as those of the mapping crate: a definition for each \<open>#[test]\<close> function, and one lemma for
  each file. Where a test looks for words in the text of an error, the definition asks for the error
  that has this text.
\<close>

section \<open>Topics\<close>

definition sanitizes_ids_into_stable_topic_segments :: bool where
  "sanitizes_ids_into_stable_topic_segments \<longleftrightarrow>
     sanitize_id ''4168968253'' = ''4168968253'' \<and>
     sanitize_id ''Pump01 / cooling+line'' = ''pump01-cooling-line'' \<and>
     sanitize_id ''--weird--'' = ''weird'' \<and>
     sanitize_id ''///'' = ''unnamed'' \<and>
     sanitize_id ''Pump#01'' = sanitize_id ''Pump#01''"

definition builds_the_documented_topics :: bool where
  "builds_the_documented_topics \<longleftrightarrow>
     (let child = child_device ''plc-1''; service = main_service ''opcua-gateway'' in
      registration_topic child = ''te/device/plc-1//'' \<and>
      channel_topic child ''m/flow'' = ''te/device/plc-1///m/flow'' \<and>
      channel_topic service ''status/health'' =
        ''te/device/main/service/opcua-gateway/status/health'')"

lemma topic_tests_pass:
  sanitizes_ids_into_stable_topic_segments
  builds_the_documented_topics
  by code_simp+

section \<open>The proxy\<close>

definition cloud_outages_and_401s_are_transient :: bool where
  "cloud_outages_and_401s_are_transient \<longleftrightarrow>
     is_transient CloudUnreachable \<and> is_transient (StatusError ''u'' 401) \<and>
     \<not> is_transient (StatusError ''u'' 404)"

lemma proxy_tests_pass: cloud_outages_and_401s_are_transient
  by code_simp

section \<open>Operations\<close>

definition the_operation_fragment_is_the_field_that_is_not_envelope :: bool where
  "the_operation_fragment_is_the_field_that_is_not_envelope \<longleftrightarrow>
     operation_fragment (
       json_object [(''delivery'', json_object [(''status'', JStr ''PENDING'')]), (''agentId'',
       JStr ''9569051262''), (''creationTime'', JStr ''2026-09-04T11:24:54.849Z''), (''deviceId'',
       JStr ''1069052109''), (''id'', JStr ''69050137''), (''status'', JStr ''PENDING''),
       (''c8y_OpcuaConfiguration'', json_object [(''spike'', JNum (PosInt 3))]), (''description'',
       JStr ''spike op 3''), (''externalSource'', json_object [(''externalId'', JStr
       ''tedge001:device:opcua-gateway''), (''type'', JStr ''c8y_Serial'')])]) =
     Some ''c8y_OpcuaConfiguration''"

definition an_envelope_only_operation_names_nothing :: bool where
  "an_envelope_only_operation_names_nothing \<longleftrightarrow>
     operation_fragment (
       json_object [(''id'', JStr ''1''), (''status'', JStr ''PENDING''), (''deviceId'', JStr
       ''2'')]) = None"

definition failure_records_are_quoted :: bool where
  "failure_records_are_quoted \<longleftrightarrow>
     failure_record ''c8y_OpcuaConfiguration'' ''not implemented'' =
       ''502,c8y_OpcuaConfiguration,'' @ [quote] @ ''not implemented'' @ [quote] \<and>
     smartrest_field (''says '' @ [quote] @ ''no'' @ [quote] @ '', loudly'') =
       [quote] @ ''says '' @ [quote, quote] @ ''no'' @ [quote, quote] @ '', loudly'' @ [quote]"

lemma operation_tests_pass:
  the_operation_fragment_is_the_field_that_is_not_envelope
  an_envelope_only_operation_names_nothing
  failure_records_are_quoted
  by code_simp+

section \<open>Servers from Cumulocity\<close>

definition cloud_tests_config :: config where
  "cloud_tests_config =
     config_default\<lparr>cf_gateway := gateway_config_default\<lparr>gc_device_id := ''tedge001''\<rparr>\<rparr>"

definition a_server_object_becomes_a_runnable_server :: bool where
  "a_server_object_becomes_a_runnable_server \<longleftrightarrow>
     is_some_and
       (\<lambda>server. sc_id server = ''3769051265'' \<and> sc_name server = ''opcserver'' \<and>
          sc_url server = ''opc.tcp://opcserver:4840'' \<and> sc_security_policy server = ''None'' \<and>
          server_topic_id server = ''3769051265'' \<and>
          sc_external_id server = Some ''tedge001:device:opcua-gateway:device:3769051265'' \<and>
          is_adopted server)
       (to_server_config cloud_tests_config ''3769051265'' (
         json_object [(''id'', JStr ''3769051265''), (''name'', JStr ''opcserver''), (''type'',
         JStr ''c8y_OpcuaServer''), (''c8y_ua_ClientConfig'', json_object [(''serverUrl'', JStr
         ''opc.tcp://opcserver:4840''), (''securityMode'', JStr ''NONE''), (''userIdentityMode'',
         JStr ''Anonymous''), (''targetConnectionState'', JStr ''enabled'')])]))"

definition a_disabled_server_is_not_started :: bool where
  "a_disabled_server_is_not_started \<longleftrightarrow>
     to_server_config cloud_tests_config ''1'' (
       json_object [(''c8y_ua_ClientConfig'', json_object [(''serverUrl'', JStr
       ''opc.tcp://opcserver:4840''), (''targetConnectionState'', JStr ''disabled'')])]) =
     None"

definition a_secured_endpoint_is_reported_rather_than_half_connected :: bool where
  "a_secured_endpoint_is_reported_rather_than_half_connected \<longleftrightarrow>
     to_server_config cloud_tests_config ''1'' (
       json_object [(''c8y_ua_ClientConfig'', json_object [(''serverUrl'', JStr
       ''opc.tcp://opcserver:4840''), (''securityMode'', JStr ''SIGN_AND_ENCRYPT'')])]) =
     None"

definition an_encrypted_password_cannot_be_used_here :: bool where
  "an_encrypted_password_cannot_be_used_here \<longleftrightarrow>
     to_server_config cloud_tests_config ''1'' (
       json_object [(''c8y_ua_ClientConfig'', json_object [(''serverUrl'', JStr
       ''opc.tcp://opcserver:4840''), (''userIdentityMode'', JStr ''UsernamePassword''),
       (''userName'', JStr ''operator''), (''userPassword'', JStr ''AAAA...''),
       (''passwordEncrypted'', JBool True)])]) =
     None"

definition a_plain_password_is_carried_through :: bool where
  "a_plain_password_is_carried_through \<longleftrightarrow>
     is_some_and
       (\<lambda>server. sc_user server = Some ''operator'' \<and> sc_password server = Some ''secret'')
       (to_server_config cloud_tests_config ''1'' (
         json_object [(''c8y_ua_ClientConfig'', json_object [(''serverUrl'', JStr
         ''opc.tcp://opcserver:4840''), (''userIdentityMode'', JStr ''UsernamePassword''),
         (''userName'', JStr ''operator''), (''userPassword'', JStr ''secret''),
         (''passwordEncrypted'', JBool False)])]))"

definition a_missing_client_config_is_skipped :: bool where
  "a_missing_client_config_is_skipped \<longleftrightarrow>
     to_server_config cloud_tests_config ''1'' (
       json_object [(''id'', JStr ''1''), (''type'', JStr ''c8y_OpcuaServer'')]) = None"

definition the_revision_changes_only_when_something_relevant_does :: bool where
  "the_revision_changes_only_when_something_relevant_does \<longleftrightarrow>
     (let mo =
        json_object [(''name'', JStr ''opcserver''), (''c8y_ua_ClientConfig'', json_object
        [(''serverUrl'', JStr ''opc.tcp://a:4840'')])];
          renamed =
        json_object [(''name'', JStr ''opcserver-2''), (''c8y_ua_ClientConfig'', json_object
        [(''serverUrl'', JStr ''opc.tcp://a:4840'')])] in
      (case (to_server_config cloud_tests_config ''1'' mo,
             to_server_config cloud_tests_config ''1'' mo,
             to_server_config cloud_tests_config ''1'' renamed) of
         (Some one, Some again, Some other) \<Rightarrow>
           servers_revision [one] = servers_revision [again] \<and>
           servers_revision [one] \<noteq> servers_revision [other]
       | _ \<Rightarrow> False))"

lemma cloud_server_tests_pass:
  a_server_object_becomes_a_runnable_server
  a_disabled_server_is_not_started
  a_secured_endpoint_is_reported_rather_than_half_connected
  an_encrypted_password_cannot_be_used_here
  a_plain_password_is_carried_through
  a_missing_client_config_is_skipped
  the_revision_changes_only_when_something_relevant_does
  by code_simp+

section \<open>Configuration\<close>

text \<open>The mapping directory of these tests may exist or not; what they say holds either way.\<close>

definition starting_without_servers_is_allowed_only_with_the_gateway_device :: "bool \<Rightarrow> bool" where
  "starting_without_servers_is_allowed_only_with_the_gateway_device dir_exists \<longleftrightarrow>
     (let c = config_default\<lparr>cf_gateway := gateway_config_default\<lparr>gc_device_id := ''tedge001''\<rparr>\<rparr> in
      validate dir_exists c = Inr () \<and>
      validate dir_exists (c\<lparr>cf_gateway := (cf_gateway c)\<lparr>gc_enabled := False\<rparr>\<rparr>) = Inl NoServers)"

definition the_gateway_device_needs_a_device_id :: "bool \<Rightarrow> bool" where
  "the_gateway_device_needs_a_device_id dir_exists \<longleftrightarrow>
     validate dir_exists config_default = Inl EmptyDeviceId"

definition external_ids_follow_thin_edges_own_shape :: bool where
  "external_ids_follow_thin_edges_own_shape \<longleftrightarrow>
     (let gateway = gateway_config_default\<lparr>gc_device_id := ''tedge001'', gc_id := ''opcua-gateway''\<rparr> in
      gateway_external_id gateway = ''tedge001:device:opcua-gateway'' \<and>
      server_external_id gateway ''3769051265'' =
        ''tedge001:device:opcua-gateway:device:3769051265'')"

definition tests_server :: "string \<Rightarrow> server_config" where
  "tests_server i =
     \<lparr>sc_id = i, sc_name = i, sc_url = ''opc.tcp://localhost:4840'', sc_security_policy = ''None'',
      sc_user = None, sc_password = None, sc_device_types = [], sc_external_id = None,
      sc_topic_id = None\<rparr>"

definition an_adopted_server_is_addressed_by_managed_object_id :: bool where
  "an_adopted_server_is_addressed_by_managed_object_id \<longleftrightarrow>
     (let s = tests_server ''3769051265'';
          t = s\<lparr>sc_name := ''Cooling line PLC'', sc_topic_id := Some ''3769051265'',
                sc_external_id := Some ''tedge001:device:opcua-gateway:device:3769051265''\<rparr> in
      server_topic_id s = ''3769051265'' \<and> \<not> is_adopted s \<and>
      server_topic_id t = ''3769051265'' \<and> is_adopted t)"

definition an_empty_device_type_list_accepts_everything :: bool where
  "an_empty_device_type_list_accepts_everything \<longleftrightarrow>
     (let s = tests_server ''plc-1'' in
      accepts_device_type s ''4168968253'' \<and> accepts_device_type s ''anything'')"

definition a_device_type_list_scopes_the_server :: bool where
  "a_device_type_list_scopes_the_server \<longleftrightarrow>
     (let s = (tests_server ''plc-1'')\<lparr>sc_device_types := [''4168968253'', '' padded '']\<rparr> in
      accepts_device_type s ''4168968253'' \<and> accepts_device_type s ''padded'' \<and>
      \<not> accepts_device_type s ''9999999999'')"

definition pushed_server_files_override_inline_entries_by_id :: bool where
  "pushed_server_files_override_inline_entries_by_id \<longleftrightarrow>
     (let pushed = (tests_server ''plc-1'')\<lparr>sc_url := ''opc.tcp://pushed:4840''\<rparr>;
          merged = merge_servers [tests_server ''plc-1'', tests_server ''plc-2''] [pushed] in
      length merged = 2 \<and> sc_url (merged ! 0) = ''opc.tcp://pushed:4840'' \<and>
      sc_id (merged ! 1) = ''plc-2'')"

definition pushed_server_files_add_servers_the_config_does_not_mention :: bool where
  "pushed_server_files_add_servers_the_config_does_not_mention \<longleftrightarrow>
     (let merged = merge_servers [tests_server ''plc-1''] [tests_server ''plc-9''] in
      length merged = 2 \<and> sc_id (merged ! 1) = ''plc-9'')"

definition a_missing_server_directory_is_not_an_error :: bool where
  "a_missing_server_directory_is_not_an_error \<longleftrightarrow>
     load_server_dir (\<lambda>_. None) SDNotFound = Inr []"

text \<open>
  The files the next test writes. A file's text is a word for its content, and \<open>tests_toml\<close> is what
  \<open>toml\<close> makes of it: the first file does not name a security policy, so it has the default; the
  text of the broken one is no document.
\<close>

definition tests_toml :: "string \<Rightarrow> server_config option" where
  "tests_toml txt =
     (if txt = ''PLC'' then
        Some ((tests_server ''plc-1'')
          \<lparr>sc_name := ''Cooling line PLC'', sc_url := ''opc.tcp://10.0.0.7:4840'',
           sc_device_types := [''4168968253'']\<rparr>)
      else None)"

definition server_files_are_read_and_a_broken_one_is_fatal :: bool where
  "server_files_are_read_and_a_broken_one_is_fatal \<longleftrightarrow>
     (let plc = \<lparr>sf_name = ''plc-1.toml'', sf_extension = Some ''toml'', sf_text = Some ''PLC''\<rparr>;
          notes = \<lparr>sf_name = ''notes.md'', sf_extension = Some ''md'', sf_text = Some ''ignored''\<rparr>;
          broken = \<lparr>sf_name = ''broken.toml'', sf_extension = Some ''toml'', sf_text = Some ''id = ''\<rparr>
      in
      (case load_server_dir tests_toml (SDFiles [plc, notes]) of
         Inr [s] \<Rightarrow>
           sc_id s = ''plc-1'' \<and> sc_security_policy s = ''None'' \<and>
           sc_device_types s = [''4168968253'']
       | _ \<Rightarrow> False) \<and>
      load_server_dir tests_toml (SDFiles [plc, notes, broken]) =
        Inl (MalformedServerFile ''broken.toml''))"

definition tests_valid_config :: config where
  "tests_valid_config = cloud_tests_config\<lparr>cf_servers := [tests_server ''plc-1'']\<rparr>"

definition duplicate_server_ids_are_rejected :: "bool \<Rightarrow> bool" where
  "duplicate_server_ids_are_rejected dir_exists \<longleftrightarrow>
     validate dir_exists tests_valid_config = Inr () \<and>
     validate dir_exists
       (tests_valid_config\<lparr>cf_servers := cf_servers tests_valid_config @ [tests_server ''plc-1'']\<rparr>) =
       Inl (DuplicateServerId ''plc-1'')"

definition rejects_non_opc_tcp_urls :: "bool \<Rightarrow> bool" where
  "rejects_non_opc_tcp_urls dir_exists \<longleftrightarrow>
     validate dir_exists tests_valid_config = Inr () \<and>
     validate dir_exists
       (tests_valid_config\<lparr>cf_servers := cf_servers tests_valid_config @
          [(tests_server ''2'')\<lparr>sc_url := ''http://localhost:4840''\<rparr>]\<rparr>) =
       Inl (UnsupportedUrl ''2'')"

lemma config_tests_pass:
  external_ids_follow_thin_edges_own_shape
  an_adopted_server_is_addressed_by_managed_object_id
  an_empty_device_type_list_accepts_everything
  a_device_type_list_scopes_the_server
  pushed_server_files_override_inline_entries_by_id
  pushed_server_files_add_servers_the_config_does_not_mention
  a_missing_server_directory_is_not_an_error
  server_files_are_read_and_a_broken_one_is_fatal
  by code_simp+

lemma validation_tests_pass:
  "starting_without_servers_is_allowed_only_with_the_gateway_device dir_exists"
  "the_gateway_device_needs_a_device_id dir_exists"
  "duplicate_server_ids_are_rejected dir_exists"
  "rejects_non_opc_tcp_urls dir_exists"
  by (cases dir_exists; code_simp)+

end
