(* ===== verification/Spec2Isabelle.thy ===== *)
theory Spec2Isabelle
  imports Constraints Resolve Payload Source Mqtt Proxy Opcua_Conn Cloud_Servers Gateway_System
    Subscribing Delivery Incoming Notifications Process Backpressure Reload Served
    Tests_Mapping Tests_Fixture Tests_Gateway
begin

text \<open>
  A verification development for \<open>c8y-opcua-gateway-rs\<close>: an OPC UA data source for thin-edge.io.
  The gateway reads device types (from Cumulocity through a local proxy, and from files pushed to
  the device), connects to OPC UA servers, resolves each device type against each server it applies
  to, reads or subscribes to the nodes it names, and publishes what they say as measurements,
  events and alarms to the local MQTT broker.

  \<^bold>\<open>Parts and theories.\<close> Each theory models one file or one part of one; \<open>crates/\<close> is left out.

  \<^item> \<open>Prelude\<close>, \<open>Rust_Str\<close>, \<open>Rust_Num\<close>, \<open>Json\<close>, \<open>Opc_Types\<close>: what the code uses of Rust and of its
    data. Strings are their UTF-8 bytes; machine integers are words; \<open>f64\<close> is a decoded value;
    \<open>serde_json\<close> values are a datatype whose objects are sorted by key, as its map is.
  \<^item> \<open>Rust_Maps\<close>: the map interfaces as locales (\<open>kv_map\<close>, \<open>kv_multimap\<close>, \<open>ordered_kv_map\<close>,
    \<open>removable_kv_map\<close>), interpreted on \<open>BTreeMap\<close> (\<open>bt\<close>, \<open>btg\<close>: sorted lists) and \<open>HashMap\<close> (\<open>hm\<close>:
    lists without repeated keys, whose order stands for its iteration order).
  \<^item> \<open>Step_Machines\<close>: event loops as locales (\<open>stepping\<close>, \<open>ending\<close>, \<open>mirroring\<close>, and \<open>piping\<close> for two
    loops around a bounded queue), interpreted on the loops of \<open>Mqtt\<close>, \<open>Opcua_Conn\<close>, \<open>Server_Task\<close>,
    \<open>Batching\<close>, \<open>Subscribing\<close>, \<open>Incoming\<close> and \<open>Notifications\<close>.
  \<^item> \<open>Watch\<close>: tokio's watch channel, and the locale \<open>watching\<close> of a task that follows one, interpreted
    in \<open>Reload\<close> and \<open>Served\<close>.
  \<^item> \<open>Namespace\<close> (\<open>mapping/src/namespace.rs\<close>), \<open>Opc_Value\<close> (\<open>value.rs\<close>), \<open>Device_Model\<close> (\<open>model.rs\<close>),
    \<open>Constraints\<close> (\<open>constraints.rs\<close>), \<open>Resolve\<close> (\<open>resolve.rs\<close>), \<open>Payload\<close> (\<open>payload.rs\<close>), \<open>Source\<close>
    (\<open>source.rs\<close>): the mapping rules, from a device type's text to nodes, actions and payloads.
  \<^item> \<open>Topic\<close>, \<open>Mqtt\<close>, \<open>Proxy\<close> (\<open>tedge/src\<close>): topics, the MQTT client and its event loop, and the
    requests to the Cumulocity proxy with their one retry.
  \<^item> \<open>Opcua_Conn\<close> (\<open>opcua-conn/src/lib.rs\<close>): requests to a server and the notification callback.
  \<^item> \<open>Config\<close>, \<open>Gateway_Device\<close>, \<open>Publish\<close>, \<open>Device_Types\<close>, \<open>Cloud_Servers\<close>, \<open>Operations\<close>,
    \<open>Supervisor\<close> (the files of the same names in \<open>gateway/src\<close>), \<open>Server_Task\<close> and \<open>Server_Run\<close>
    (\<open>server_task.rs\<close>: what a task does with a session, and its life), \<open>Main_Wiring\<close> (\<open>main.rs\<close>).
  \<^item> \<open>Batching\<close>, \<open>Subscribing\<close>: publishers, cyclic reads and the subscription loop against the values
    they were given.
  \<^item> \<open>Delivery\<close>: from an entry of a resolved plan to the batch of its type.
  \<^item> \<open>Incoming\<close>: the MQTT event loop and the operation loop together.
  \<^item> \<open>Notifications\<close>: the notification callback and the subscription loop around their channel.
  \<^item> \<open>Reload\<close>: the device type provider, its watch channel and a server task together.
  \<^item> \<open>Served\<close>: the server provider, its watch channel and the supervisor together.
  \<^item> \<open>Backpressure\<close>: the MQTT client's request channel, its event loop and the tasks that publish.
  \<^item> \<open>Gateway_System\<close>: the supervisor and all server tasks together.
  \<^item> \<open>Process\<close>: \<open>main\<close> from the signal on, with the supervisor and its tasks below it.
  \<^item> \<open>Tests_Mapping\<close>, \<open>Tests_Fixture\<close>, \<open>Tests_Gateway\<close>: the unit tests of the repository, evaluated on
    the definitions. They are checks of the definitions, not properties of the code.

  \<^bold>\<open>How they interact.\<close> The device type provider (\<open>poll_step\<close>) sends the merged device types to every
  server task; the server provider (\<open>cloud_step\<close>) sends the servers to the supervisor (\<open>supervise\<close>,
  \<open>reconcile\<close>), which starts, restarts and removes tasks (\<open>sys_next\<close>); a task (\<open>task_next\<close>) connects,
  resolves (\<open>resolve_all\<close>: \<open>applies\<close>, \<open>plan_of\<close>, \<open>translate_browse_paths\<close>, \<open>finish\<close>) and runs a
  subscription loop (\<open>sub_step\<close>) and read loops (\<open>read_step\<close>), which hand values to publishers
  (\<open>accept\<close>, \<open>flush\<close>). Each of these is one state record and one step function; what a \<open>select!\<close>
  sees next is the event it is given, so a property holds for every order of events.

  \<^bold>\<open>What the theorems show.\<close>
  \<^item> Mapping: names and NodeIds are read as printed; the readings of values are exact within bounds;
    every planned entry can be delivered and every node is delivered once; constraints never make a
    device type unusable by accident; a payload holds the last numeric reading of each series.
  \<^item> Sources: pushed files win over pulled device types; an outage keeps what is known; a poll sends a
    bounded number of requests; only servers that can be run are adopted.
  \<^item> Requests and notifications: results are aligned with what was asked for, notifications reach the
    device that asked for them, drops are counted, requests are retried once.
  \<^item> Publishing: a batch is exactly the readings of its type, and the subscription loop is a list of
    delivered values for every device (refinements); a read publishes what it saw; events and
    alarms are published on changes only.
  \<^item> Tasks and supervisor: a task can always be stopped, the gateway never holds two sessions on one
    server, a waiting supervisor runs exactly the desired servers (a refinement), and shutdown ends
    within a bounded number of steps with no session open. The process ends after a signal, at the
    latest by its time-out, and leaves no session when it did not need it. A task never stops trying
    to reconnect, with delays that stay within their bound.
  \<^item> Currency: a task that waits on its watch channel works with the newest device types, and a
    supervisor that does with the newest servers.
  \<^item> Outages: when the client's event loop comes back from an outage, and when it waits for ever on a
    channel only it can empty.
  \<^item> Startup and operations: what is announced before anything runs, which loops run, and that
    operations are answered in order.

  \<^bold>\<open>Conventions.\<close> Errors are the left of a sum or \<open>None\<close>, every early return a branch. Logging has no
  effect and is left out. Durations are natural numbers of the unit the code uses. Third-party code
  is an argument: \<open>opc_lib\<close> (\<open>async-opcua\<close> types), \<open>session\<close> (an OPC UA session over a world \<open>'w\<close>),
  \<open>http\<close> (\<open>reqwest\<close>), \<open>mq_accepts\<close> (\<open>rumqttc\<close>: which calls succeed), and parsers for JSON and TOML;
  a property that needs them to succeed says so in a hypothesis. A task, a read loop and a subscription loop each carry their own
  view of the shared MQTT client: what they themselves have sent.

  \<^bold>\<open>Bounds.\<close> Paging uses the code's own limits as fuel (50 pages of device types, 20 of servers), so
  running out is what the code does at its limit. All other loops follow their data, or are step
  functions. The incoming channel holds 64 messages. \<open>shutdown_rank\<close> bounds shutdown.

  \<^bold>\<open>Not modelled.\<close> Log output; \<open>figment\<close>, \<open>toml\<close> and command line parsing (their results are
  arguments); the internals of the MQTT and OPC UA clients, including the time their retries take;
  the clock, except as the argument that \<open>lib_now\<close> is; \<open>missing_object_help\<close>, which only logs.
  Only \<open>Backpressure\<close> models that the client makes a caller wait while its request channel is
  full, as it can while the broker is away; it counts requests and does not look into them. The
  other theories take a publish or a subscribe to return, so the theorems on stopping and on
  shutdown are about the gateway's own waiting. \<open>Watch\<close> and that channel are modelled as \<open>tokio\<close> and
  \<open>rumqttc\<close> document them.
\<close>

end
